theory Spec2Isabelle
  imports Main "HOL-Library.AList" "HOL-Library.Multiset"
begin

section \<open>JavaScript strings\<close>

text \<open>
  A JavaScript string is a sequence of UTF-16 code units; the model keeps the code
  units as natural numbers. \<open>js\<close> turns an ASCII literal into its code units, and the
  source's literals beyond ASCII are written out as code units.
\<close>

type_synonym jstring = "nat list"

definition js :: "string \<Rightarrow> jstring" where
  "js s = map of_char s"

abbreviation dquote :: nat where "dquote \<equiv> 34"
abbreviation comma :: nat where "comma \<equiv> 44"
abbreviation colon :: nat where "colon \<equiv> 58"
abbreviation lbracket :: nat where "lbracket \<equiv> 91"
abbreviation rbracket :: nat where "rbracket \<equiv> 93"
abbreviation lbrace :: nat where "lbrace \<equiv> 123"
abbreviation rbrace :: nat where "rbrace \<equiv> 125"

text \<open>The class \<open>\s\<close> of a regular expression, which is also what \<open>trim\<close> strips.\<close>

definition isSpace :: "nat \<Rightarrow> bool" where
  "isSpace c \<longleftrightarrow>
     (9 \<le> c \<and> c \<le> 13) \<or> c = 32 \<or> c = 160 \<or> c = 5760 \<or> (8192 \<le> c \<and> c \<le> 8202)
     \<or> c = 8232 \<or> c = 8233 \<or> c = 8239 \<or> c = 8287 \<or> c = 12288 \<or> c = 65279"

definition trim :: "jstring \<Rightarrow> jstring" where
  "trim s = rev (dropWhile isSpace (rev (dropWhile isSpace s)))"

text \<open>\<open>s.includes(sub)\<close>.\<close>

fun startsWith :: "jstring \<Rightarrow> jstring \<Rightarrow> bool" where
  "startsWith s [] = True"
| "startsWith [] (y # ys) = False"
| "startsWith (x # xs) (y # ys) = (x = y \<and> startsWith xs ys)"

fun includes_js :: "jstring \<Rightarrow> jstring \<Rightarrow> bool" where
  "includes_js [] sub = (sub = [])"
| "includes_js (x # xs) sub = (startsWith (x # xs) sub \<or> includes_js xs sub)"

text \<open>The decimal digits of a number, as a template literal prints it.\<close>

function showNat :: "nat \<Rightarrow> jstring" where
  "showNat n = (if n < 10 then [48 + n] else showNat (n div 10) @ [48 + n mod 10])"
  by pat_completeness auto
termination
  by (relation "measure id") auto

text \<open>\<open>[...new Set(xs)]\<close>: the distinct elements in order of first occurrence.\<close>

fun uniq :: "'a list \<Rightarrow> 'a list" where
  "uniq [] = []"
| "uniq (x # xs) = x # filter (\<lambda>y. y \<noteq> x) (uniq xs)"

section \<open>Classification cache (ClassificationCache)\<close>

text \<open>
  The cache is a JavaScript \<open>Map\<close> from the hex digest of the raw key to an item.
  A \<open>Map\<close> iterates in insertion order, \<open>set\<close> on a present key replaces the value in
  place and \<open>delete\<close> removes the key: that is an association list with
  \<open>AList.update\<close> and \<open>AList.delete\<close>. Every \<open>Date.now()\<close> of the source is an
  explicit clock reading of the model (milliseconds, an integer); the digest function
  of the \<open>crypto\<close> library is the parameter \<open>md5\<close>.
\<close>

record queryContext =
  originalQuery :: jstring
  mainCategory :: jstring

record cacheItem =
  ci_productName :: jstring
  ci_category :: jstring
  ci_queryContext :: "jstring option"
  createdAt :: int
  expireAt :: int

record cacheConfig =
  ttl :: int
  maxSize :: int
  batchSize :: int

record cacheStats =
  hits :: nat
  misses :: nat
  sets :: nat

record classificationCache =
  cache :: "(jstring \<times> cacheItem) list"
  config :: cacheConfig
  stats :: cacheStats

definition generateCacheKey :: "(jstring \<Rightarrow> jstring) \<Rightarrow> jstring \<Rightarrow> queryContext option \<Rightarrow> jstring" where
  "generateCacheKey md5 productName qc =
     (let contextStr = (case qc of
                          Some q \<Rightarrow> originalQuery q @ js ''_'' @ mainCategory q
                        | None \<Rightarrow> js ''default'');
          rawKey = productName @ js ''_'' @ contextStr
      in md5 rawKey)"

text \<open>\<open>get\<close>: a miss when the key is absent; a miss, with the entry deleted, when the
  clock reading is strictly greater than \<open>expireAt\<close>; a hit otherwise.\<close>

definition cache_get ::
  "(jstring \<Rightarrow> jstring) \<Rightarrow> int \<Rightarrow> jstring \<Rightarrow> queryContext option \<Rightarrow> classificationCache
     \<Rightarrow> jstring option \<times> classificationCache" where
  "cache_get md5 now productName qc c =
     (let key = generateCacheKey md5 productName qc in
      case map_of (cache c) key of
        None \<Rightarrow> (None, c\<lparr>stats := (stats c)\<lparr>misses := misses (stats c) + 1\<rparr>\<rparr>)
      | Some item \<Rightarrow>
          if now > expireAt item
          then (None, c\<lparr>cache := AList.delete key (cache c),
                         stats := (stats c)\<lparr>misses := misses (stats c) + 1\<rparr>\<rparr>)
          else (Some (ci_category item),
                c\<lparr>stats := (stats c)\<lparr>hits := hits (stats c) + 1\<rparr>\<rparr>))"

text \<open>The loop of \<open>evictOldest\<close>: \<open>oldestKey\<close> starts as null, \<open>oldestTime\<close> as the
  clock reading, and an entry replaces them when its \<open>createdAt\<close> is strictly smaller.\<close>

fun evictScan :: "(jstring \<times> cacheItem) list \<Rightarrow> jstring option \<Rightarrow> int \<Rightarrow> jstring option" where
  "evictScan [] oldestKey oldestTime = oldestKey"
| "evictScan ((key, item) # rest) oldestKey oldestTime =
     (if createdAt item < oldestTime
      then evictScan rest (Some key) (createdAt item)
      else evictScan rest oldestKey oldestTime)"

definition evictOldest :: "int \<Rightarrow> classificationCache \<Rightarrow> classificationCache" where
  "evictOldest now c =
     (case evictScan (cache c) None now of
        None \<Rightarrow> c
      | Some oldestKey \<Rightarrow>
          if oldestKey \<noteq> [] then c\<lparr>cache := AList.delete oldestKey (cache c)\<rparr> else c)"

text \<open>\<open>set\<close> reads the clock for \<open>expireAt\<close> (\<open>tExpire\<close>) and for \<open>createdAt\<close>
  (\<open>tCreated\<close>); \<open>evictOldest\<close>, called when the size exceeds \<open>maxSize\<close>, reads it
  again (\<open>tEvict\<close>).\<close>

definition cache_set ::
  "(jstring \<Rightarrow> jstring) \<Rightarrow> int \<Rightarrow> int \<Rightarrow> int \<Rightarrow> jstring \<Rightarrow> jstring \<Rightarrow> queryContext option
     \<Rightarrow> classificationCache \<Rightarrow> classificationCache" where
  "cache_set md5 tExpire tCreated tEvict productName category qc c =
     (let key = generateCacheKey md5 productName qc;
          expAt = tExpire + ttl (config c);
          item = \<lparr>ci_productName = productName, ci_category = category,
                  ci_queryContext = map_option originalQuery qc,
                  createdAt = tCreated, expireAt = expAt\<rparr>;
          c1 = c\<lparr>cache := AList.update key item (cache c),
                 stats := (stats c)\<lparr>sets := sets (stats c) + 1\<rparr>\<rparr>
      in if int (length (cache c1)) > maxSize (config c1) then evictOldest tEvict c1 else c1)"

text \<open>The sweep \<open>cleanup\<close>, run by the hourly timer.\<close>

definition cleanup :: "int \<Rightarrow> classificationCache \<Rightarrow> classificationCache" where
  "cleanup now c = c\<lparr>cache := filter (\<lambda>(key, item). \<not> now > expireAt item) (cache c)\<rparr>"

text \<open>The constructor. An option that is given replaces the default, whatever its
  value, through the final spread of \<open>options\<close>; an option that is absent leaves the
  default of 24 hours, or of 10000 entries.\<close>

definition newCache :: "int option \<Rightarrow> int option \<Rightarrow> classificationCache" where
  "newCache ttlOption maxSizeOption =
     \<lparr>cache = [],
      config = \<lparr>ttl = (case ttlOption of Some t \<Rightarrow> t | None \<Rightarrow> 24 * 60 * 60 * 1000),
                 maxSize = (case maxSizeOption of Some n \<Rightarrow> n | None \<Rightarrow> 10000),
                 batchSize = 20\<rparr>,
      stats = \<lparr>hits = 0, misses = 0, sets = 0\<rparr>\<rparr>"

section \<open>Structured responses and their repair (SmartLLMService.repairJSON)\<close>

text \<open>
  A parsed JSON value. A number is modelled as an integer, the shape the prompt asks
  for in \<open>productIndexes\<close>. \<open>JSON.parse\<close> belongs to the language, not to the
  repository: it is the parameter \<open>JSON_parse\<close>, with \<open>None\<close> for a \<open>SyntaxError\<close>.
\<close>

datatype json =
    JNull
  | JBool bool
  | JNum int
  | JStr jstring
  | JArr "json list"
  | JObj "(jstring \<times> json) list"

datatype error =
    GeminiDisabled
  | OllamaDisabled
  | OllamaHealthCheckFailed
  | OllamaNotRunning
  | BadResponseFormat
  | RequestFailed "nat option" "string option"
  | UnsupportedProvider
  | AllProvidersFailed
  | JSONRepairFailed
  | ThrownUndefined
  | TypeError

text \<open>Repair 1, \<open>replace(/,(\s*[}\]])/g, '$1')\<close>: a comma followed by optional white
  space and a closing brace or bracket is dropped.\<close>

definition beforeClose :: "jstring \<Rightarrow> bool" where
  "beforeClose s = (case dropWhile isSpace s of
                      [] \<Rightarrow> False
                    | c # rest \<Rightarrow> c = rbrace \<or> c = rbracket)"

fun stripTrailingCommas :: "jstring \<Rightarrow> jstring" where
  "stripTrailingCommas [] = []"
| "stripTrailingCommas (c # cs) =
     (if c = comma \<and> beforeClose cs then stripTrailingCommas cs
      else c # stripTrailingCommas cs)"

text \<open>Repair 2, \<open>replace(/("[^"]*")([^",}\]]*)/g, '$1')\<close>: after every quoted
  segment, the characters up to the next quote, comma, closing brace or closing
  bracket are dropped. A quote with no later quote starts no match. The scan is a
  machine with three modes: outside a match, inside the quoted segment, and in the
  dropped run after it.\<close>

datatype scanMode = Outside | InQuoted | Dropping

definition stopsDrop :: "nat \<Rightarrow> bool" where
  "stopsDrop c \<longleftrightarrow> c = dquote \<or> c = comma \<or> c = rbrace \<or> c = rbracket"

fun cutAfterStrings :: "scanMode \<Rightarrow> jstring \<Rightarrow> jstring" where
  "cutAfterStrings m [] = []"
| "cutAfterStrings Outside (c # cs) =
     (if c = dquote \<and> dquote \<in> set cs then c # cutAfterStrings InQuoted cs
      else c # cutAfterStrings Outside cs)"
| "cutAfterStrings InQuoted (c # cs) =
     (if c = dquote then c # cutAfterStrings Dropping cs
      else c # cutAfterStrings InQuoted cs)"
| "cutAfterStrings Dropping (c # cs) =
     (if stopsDrop c
      then (if c = dquote \<and> dquote \<in> set cs then c # cutAfterStrings InQuoted cs
            else c # cutAfterStrings Outside cs)
      else cutAfterStrings Dropping cs)"

text \<open>Repairs 3 and 4 close the unclosed braces, then the unclosed brackets; repair 5
  removes the code units \<open>\u0000-\u001F\<close> and \<open>\u007F-\u009F\<close>.\<close>

definition closeOpen :: "nat \<Rightarrow> nat \<Rightarrow> jstring \<Rightarrow> jstring" where
  "closeOpen opening closing s =
     (let nOpen = count_list s opening; nClose = count_list s closing
      in if nOpen > nClose then s @ replicate (nOpen - nClose) closing else s)"

definition isControl :: "nat \<Rightarrow> bool" where
  "isControl c \<longleftrightarrow> c \<le> 31 \<or> (127 \<le> c \<and> c \<le> 159)"

definition repairSteps :: "jstring \<Rightarrow> jstring" where
  "repairSteps jsonString =
     (let repaired1 = stripTrailingCommas jsonString;
          repaired2 = cutAfterStrings Outside repaired1;
          repaired3 = closeOpen lbrace rbrace repaired2;
          repaired4 = closeOpen lbracket rbracket repaired3
      in filter (\<lambda>c. \<not> isControl c) repaired4)"

text \<open>\<open>repairJSON\<close>: the strict parse first; only when it throws are the repairs
  applied and the result parsed again; a second failure is thrown.\<close>

definition repairJSON :: "(jstring \<Rightarrow> json option) \<Rightarrow> jstring \<Rightarrow> error + json" where
  "repairJSON JSON_parse jsonString =
     (case JSON_parse jsonString of
        Some parsed \<Rightarrow> Inr parsed
      | None \<Rightarrow>
          (case JSON_parse (repairSteps jsonString) of
             Some parsed \<Rightarrow> Inr parsed
           | None \<Rightarrow> Inl JSONRepairFailed))"

section \<open>Products and categories\<close>

text \<open>
  The fields of a product that the classification reads and copies: identity, name,
  price (an integer, in minor units) and platform. A missing identity or platform is
  the empty string, which is falsy like \<open>undefined\<close>, and a missing price is 0: the
  code only tests these fields for truth or compares them. The name is a string or
  absent (\<open>None\<close>), because \<open>keywordMatch\<close> calls a method of it, which throws on
  \<open>undefined\<close>. The other fields (url, image, stock flag, shipping, currency, crawl
  time) are copied with a default in the same way and read by nothing below. Of a
  category, the description is left out.
\<close>

record product =
  p_id :: jstring
  p_name :: "jstring option"
  p_price :: int
  p_platform :: jstring

record priceRange =
  pr_min :: int
  pr_max :: int
  pr_avg :: int

record category =
  c_name :: json
  c_totalProducts :: nat
  c_priceRange :: priceRange
  c_platforms :: "jstring list"
  c_products :: "product list"

text \<open>What the language and its library compute, and the configuration module
  \<open>config/classification\<close>, which is not among the sources:
  \<^item> \<open>JSON_parse\<close> and \<open>toLowerCase\<close>;
  \<^item> \<open>mathRandom k\<close>, the text \<open>Math.random().toString(36).substr(2, 9)\<close> drawn for
    the \<open>k\<close>-th product of a call;
  \<^item> \<open>floorScaled n k i\<close>, the value of \<open>Math.floor((n / k) * i)\<close> in double
    precision;
  \<^item> \<open>coerceIndex n v\<close>, what becomes of a \<open>productIndexes\<close> element \<open>v\<close> that is
    not a number, under the coercions of \<open>>=\<close>, \<open><\<close> and of indexing an array of
    \<open>n\<close> elements.\<close>

datatype indexUse = Dropped | Member nat | Undefined

record keywordRule =
  kr_keywords :: "jstring list option"
  kr_subcategories :: "(jstring \<times> jstring list) list option"
  kr_category :: jstring

record keywordRules =
  BRANDS :: "(jstring \<times> jstring) list option"
  OTHER_RULES :: "(jstring \<times> keywordRule) list"

record runtime =
  JSON_parse :: "jstring \<Rightarrow> json option"
  toLowerCase :: "jstring \<Rightarrow> jstring"
  mathRandom :: "nat \<Rightarrow> jstring"
  floorScaled :: "nat \<Rightarrow> nat \<Rightarrow> nat \<Rightarrow> nat"
  coerceIndex :: "nat \<Rightarrow> json \<Rightarrow> indexUse"
  KEYWORD_RULES :: keywordRules

text \<open>\<open>Math.round(s / n)\<close> for a positive count \<open>n\<close>: the quotient rounded to the
  nearest integer, a half upwards. \<open>Math.min(...xs)\<close> and \<open>Math.max(...xs)\<close> are
  only called on a list that is not empty; as in JavaScript, on the empty list they
  would be \<open>Infinity\<close> and \<open>-Infinity\<close>, which the callers replace by 0.\<close>

definition roundDiv :: "int \<Rightarrow> nat \<Rightarrow> int" where
  "roundDiv s n = (2 * s + int n) div (2 * int n)"

definition mathMin :: "int list \<Rightarrow> int" where
  "mathMin xs = (case xs of [] \<Rightarrow> 0 | x # rest \<Rightarrow> fold min rest x)"

definition mathMax :: "int list \<Rightarrow> int" where
  "mathMax xs = (case xs of [] \<Rightarrow> 0 | x # rest \<Rightarrow> fold max rest x)"

text \<open>The statistics block that \<open>parseClassificationResult\<close> and
  \<open>createCategoryFromProducts\<close> both contain: the prices are those of the members
  with a positive price.\<close>

definition positivePrices :: "product list \<Rightarrow> int list" where
  "positivePrices ps = map p_price (filter (\<lambda>p. p_price p > 0) ps)"

definition priceRangeOf :: "product list \<Rightarrow> priceRange" where
  "priceRangeOf ps =
     (let prices = positivePrices ps in
      \<lparr>pr_min = (if length prices > 0 then mathMin prices else 0),
       pr_max = (if length prices > 0 then mathMax prices else 0),
       pr_avg = (if length prices > 0 then roundDiv (sum_list prices) (length prices) else 0)\<rparr>)"

text \<open>The copy of a product that both functions build: every field, or its default.
  \<open>[20998, 39006, 32]\<close> and the like are the code units of the source's literals.\<close>

definition unknownProductName :: jstring where
  "unknownProductName = [26410, 30693, 21830, 21697]"

definition allProductsName :: jstring where
  "allProductsName = [25152, 26377, 21830, 21697]"

definition categoryPrefix :: jstring where
  "categoryPrefix = [20998, 39006, 32]"

definition copyProduct :: "jstring \<Rightarrow> product \<Rightarrow> product" where
  "copyProduct defaultId p =
     \<lparr>p_id = (if p_id p \<noteq> [] then p_id p else defaultId),
      p_name = Some (case p_name p of
                       Some name \<Rightarrow> (if name \<noteq> [] then name else unknownProductName)
                     | None \<Rightarrow> unknownProductName),
      p_price = p_price p,
      p_platform = (if p_platform p \<noteq> [] then p_platform p else js ''unknown'')\<rparr>"


definition createCategoryFromProducts :: "runtime \<Rightarrow> json \<Rightarrow> product list \<Rightarrow> category" where
  "createCategoryFromProducts rt categoryName products =
     \<lparr>c_name = categoryName,
      c_totalProducts = length products,
      c_priceRange = priceRangeOf products,
      c_platforms = uniq (map p_platform products),
      c_products = map (\<lambda>(k, p). copyProduct (js ''product_'' @ mathRandom rt k) p)
                       (enumerate 0 products)\<rparr>"

section \<open>The keyword provider (useKeywordMatching, keywordMatch)\<close>

definition anyIncluded :: "jstring \<Rightarrow> jstring list \<Rightarrow> bool" where
  "anyIncluded lowerName keywords = list_ex (\<lambda>keyword. includes_js lowerName keyword) keywords"

fun matchRules :: "jstring \<Rightarrow> (jstring \<times> keywordRule) list \<Rightarrow> jstring option" where
  "matchRules lowerName [] = None"
| "matchRules lowerName ((type, rule) # rest) =
     (if (case kr_keywords rule of Some keywords \<Rightarrow> anyIncluded lowerName keywords | None \<Rightarrow> False)
      then (case kr_subcategories rule of
              None \<Rightarrow> Some (kr_category rule)
            | Some subs \<Rightarrow>
                (case find (\<lambda>(subCategory, subKeywords). anyIncluded lowerName subKeywords) subs of
                   Some (subCategory, subKeywords) \<Rightarrow> Some subCategory
                 | None \<Rightarrow> Some (kr_category rule)))
      else matchRules lowerName rest)"

text \<open>\<open>keywordMatch(productName, searchQuery = '')\<close>. Its first two statements call
  \<open>toLowerCase\<close> on the name and on the query: a product without a name, or the query
  \<open>null\<close> (\<open>None\<close>), throws a \<open>TypeError\<close>. An \<open>undefined\<close> query takes the default of
  the parameter and is the empty string here.\<close>

definition keywordMatch ::
  "runtime \<Rightarrow> jstring \<Rightarrow> jstring option \<Rightarrow> jstring option \<Rightarrow> error + jstring" where
  "keywordMatch rt defaultCategory productName searchQuery =
     (case productName of
        None \<Rightarrow> Inl TypeError
      | Some name \<Rightarrow>
          (case searchQuery of
             None \<Rightarrow> Inl TypeError
           | Some query \<Rightarrow>
               (let lowerName = toLowerCase rt name;
                    lowerQuery = toLowerCase rt query
                in if query \<noteq> []
                      \<and> (includes_js lowerQuery [28879, 40860] \<or> includes_js lowerQuery [40860])
                      \<and> (includes_js lowerName [32568] \<or> includes_js lowerName [36942, 28670]
                           \<or> includes_js lowerName [29128] \<or> includes_js lowerName [39164, 26009])
                   then Inr [23541, 29289, 29992, 21697]
                   else (case find (\<lambda>(brand, category). includes_js lowerName brand)
                                   (case BRANDS (KEYWORD_RULES rt) of
                                      Some brands \<Rightarrow> brands | None \<Rightarrow> []) of
                           Some (brand, category) \<Rightarrow> Inr category
                         | None \<Rightarrow>
                             (case matchRules lowerName (OTHER_RULES (KEYWORD_RULES rt)) of
                                Some category \<Rightarrow> Inr category
                              | None \<Rightarrow> Inr defaultCategory)))))"

text \<open>The accumulator of one group in \<open>useKeywordMatching\<close>; \<open>g_min = None\<close> is the
  initial \<open>Infinity\<close>. The groups are the own properties of an object, in insertion
  order; the category names of the rules are taken not to be array indexes or names
  of \<open>Object.prototype\<close>, which an object would treat differently.\<close>

record keywordGroup =
  g_name :: jstring
  g_totalProducts :: nat
  g_min :: "int option"
  g_max :: int
  g_platforms :: "jstring list"
  g_products :: "product list"

definition newGroup :: "jstring \<Rightarrow> keywordGroup" where
  "newGroup category =
     \<lparr>g_name = category, g_totalProducts = 0, g_min = None, g_max = 0,
      g_platforms = [], g_products = []\<rparr>"

definition addToGroup :: "product \<Rightarrow> keywordGroup \<Rightarrow> keywordGroup" where
  "addToGroup product grp =
     (let g1 = grp\<lparr>g_totalProducts := g_totalProducts grp + 1,
                     g_products := g_products grp @ [product],
                     g_platforms := (if p_platform product \<in> set (g_platforms grp)
                                     then g_platforms grp
                                     else g_platforms grp @ [p_platform product])\<rparr>
      in if p_price product \<noteq> 0
         then g1\<lparr>g_min := Some (case g_min grp of
                                   None \<Rightarrow> p_price product
                                 | Some m \<Rightarrow> min m (p_price product)),
                 g_max := max (g_max grp) (p_price product)\<rparr>
         else g1)"

text \<open>The \<open>forEach\<close> over the batch: an exception of \<open>keywordMatch\<close> ends it and leaves
  \<open>useKeywordMatching\<close>.\<close>

fun groupProducts ::
  "(product \<Rightarrow> error + jstring) \<Rightarrow> product list \<Rightarrow> (jstring \<times> keywordGroup) list
     \<Rightarrow> error + (jstring \<times> keywordGroup) list" where
  "groupProducts match [] categoryGroups = Inr categoryGroups"
| "groupProducts match (product # rest) categoryGroups =
     (case match product of
        Inl e \<Rightarrow> Inl e
      | Inr category \<Rightarrow>
          (let grp = (case map_of categoryGroups category of
                        None \<Rightarrow> newGroup category
                      | Some g \<Rightarrow> g)
           in groupProducts match rest
                (AList.update category (addToGroup product grp) categoryGroups)))"

definition groupToCategory :: "keywordGroup \<Rightarrow> category" where
  "groupToCategory grp =
     \<lparr>c_name = JStr (g_name grp),
      c_totalProducts = g_totalProducts grp,
      c_priceRange =
        \<lparr>pr_min = (case g_min grp of None \<Rightarrow> 0 | Some m \<Rightarrow> m),
         pr_max = g_max grp,
         pr_avg = roundDiv (sum_list (map p_price (g_products grp)))
                           (length (g_products grp))\<rparr>,
      c_platforms = g_platforms grp,
      c_products = g_products grp\<rparr>"

definition useKeywordMatching ::
  "runtime \<Rightarrow> jstring \<Rightarrow> product list \<Rightarrow> jstring option \<Rightarrow> error + category list" where
  "useKeywordMatching rt defaultCategory products searchQuery =
     (case groupProducts (\<lambda>product. keywordMatch rt defaultCategory (p_name product) searchQuery)
                         products [] of
        Inl e \<Rightarrow> Inl e
      | Inr categoryGroups \<Rightarrow> Inr (map (\<lambda>(category, grp). groupToCategory grp) categoryGroups))"
section \<open>Parsing a provider response (parseClassificationResult, fallbackParseJSON)\<close>

text \<open>\<open>llmResult.match(/\{[\s\S]*\}/)\<close>: from the first opening brace to the last
  closing brace after it.\<close>

definition extractJSON :: "jstring \<Rightarrow> jstring option" where
  "extractJSON llmResult =
     (let fromBrace = dropWhile (\<lambda>c. c \<noteq> lbrace) llmResult;
          matched = rev (dropWhile (\<lambda>c. c \<noteq> rbrace) (rev fromBrace))
      in if matched = [] then None else Some matched)"

text \<open>\<open>text.match(/"name"\s*:\s*"([^"]+)"/g)\<close>: \<open>matchNameAt\<close> is the length of a
  match that starts at the head of the text, \<open>scanNames\<close> collects the matches from
  left to right, skipping over each match found.\<close>

definition matchNameAt :: "jstring \<Rightarrow> nat option" where
  "matchNameAt s =
     (if startsWith s (dquote # js ''name'' @ [dquote])
      then (case dropWhile isSpace (drop 6 s) of
              [] \<Rightarrow> None
            | c # afterColon \<Rightarrow>
                if c \<noteq> colon then None
                else (case dropWhile isSpace afterColon of
                        [] \<Rightarrow> None
                      | d # body \<Rightarrow>
                          if d \<noteq> dquote then None
                          else (let name = takeWhile (\<lambda>x. x \<noteq> dquote) body;
                                    rest = dropWhile (\<lambda>x. x \<noteq> dquote) body
                                in if name = [] \<or> rest = [] then None
                                   else Some (length s - length rest + 1))))
      else None)"

fun scanNames :: "nat \<Rightarrow> jstring \<Rightarrow> jstring list" where
  "scanNames skip [] = []"
| "scanNames (Suc skip) (c # cs) = scanNames skip cs"
| "scanNames 0 (c # cs) =
     (case matchNameAt (c # cs) of
        None \<Rightarrow> scanNames 0 cs
      | Some len \<Rightarrow> take len (c # cs) # scanNames (len - 1) cs)"

text \<open>\<open>match.match(/"([^"]+)"/)\<close>: the first quoted, non-empty segment.\<close>

fun firstQuoted :: "jstring \<Rightarrow> jstring option" where
  "firstQuoted [] = None"
| "firstQuoted (c # cs) =
     (if c = dquote \<and> takeWhile (\<lambda>x. x \<noteq> dquote) cs \<noteq> []
         \<and> dropWhile (\<lambda>x. x \<noteq> dquote) cs \<noteq> []
      then Some (takeWhile (\<lambda>x. x \<noteq> dquote) cs)
      else firstQuoted cs)"

text \<open>\<open>xs.slice(start, end)\<close> for indexes that are not negative.\<close>

definition slice :: "nat \<Rightarrow> nat \<Rightarrow> 'a list \<Rightarrow> 'a list" where
  "slice start end xs = take (end - start) (drop start xs)"

text \<open>The degraded parser. With category names found, the batch is cut into
  consecutive slices, one per name; with none, a single category holds the whole
  batch. Nothing in its \<open>try\<close> block throws on products of this shape, so its
  \<open>catch\<close> has no counterpart here.\<close>

definition fallbackParseJSON :: "runtime \<Rightarrow> jstring \<Rightarrow> product list \<Rightarrow> category list" where
  "fallbackParseJSON rt text originalProducts =
     (let categoryMatches = scanNames 0 text in
      if length categoryMatches > 0
      then map (\<lambda>(index, match).
                  let categoryName = (case firstQuoted match of
                                        Some name \<Rightarrow> name
                                      | None \<Rightarrow> categoryPrefix @ showNat (index + 1));
                      startIndex = floorScaled rt (length originalProducts) (length categoryMatches) index;
                      endIndex = floorScaled rt (length originalProducts) (length categoryMatches) (index + 1)
                  in createCategoryFromProducts rt (JStr categoryName)
                       (slice startIndex endIndex originalProducts))
               (enumerate 0 categoryMatches)
      else [createCategoryFromProducts rt (JStr allProductsName) originalProducts])"

text \<open>Reading a property: of \<open>null\<close> it throws a \<open>TypeError\<close>; of an object it is the
  stored value or \<open>undefined\<close>; a boolean, number, string or array has none of the
  properties read here (\<open>categories\<close>, \<open>productIndexes\<close>, \<open>name\<close>).\<close>

fun getProp :: "json \<Rightarrow> jstring \<Rightarrow> error + json option" where
  "getProp JNull key = Inl TypeError"
| "getProp (JObj members) key = Inr (map_of members key)"
| "getProp v key = Inr None"

fun truthy :: "json \<Rightarrow> bool" where
  "truthy JNull = False"
| "truthy (JBool b) = b"
| "truthy (JNum i) = (i \<noteq> 0)"
| "truthy (JStr s) = (s \<noteq> [])"
| "truthy v = True"

text \<open>\<open>a || b\<close> on an optional value.\<close>

definition orElse :: "json option \<Rightarrow> json \<Rightarrow> json" where
  "orElse v d = (case v of Some x \<Rightarrow> (if truthy x then x else d) | None \<Rightarrow> d)"

text \<open>One element of \<open>productIndexes\<close>: a number is kept when it is at least 0 and
  below the batch size; anything else is coerced by the language.\<close>

definition useIndex :: "runtime \<Rightarrow> nat \<Rightarrow> json \<Rightarrow> indexUse" where
  "useIndex rt n v =
     (case v of
        JNum i \<Rightarrow> (if 0 \<le> i \<and> i < int n then Member (nat i) else Dropped)
      | _ \<Rightarrow> coerceIndex rt n v)"

text \<open>The members of a category: the filter keeps the valid indexes, the map reads
  \<open>originalProducts[index]\<close> and copies it. An index that passes the filter and has
  no element throws a \<open>TypeError\<close> (\<open>None\<close>).\<close>

fun membersOf :: "product list \<Rightarrow> indexUse list \<Rightarrow> product list option" where
  "membersOf originalProducts [] = Some []"
| "membersOf originalProducts (Dropped # rest) = membersOf originalProducts rest"
| "membersOf originalProducts (Undefined # rest) = None"
| "membersOf originalProducts (Member i # rest) =
     (if i < length originalProducts
      then map_option
             (\<lambda>ps. copyProduct (js ''product_'' @ showNat i) (originalProducts ! i) # ps)
             (membersOf originalProducts rest)
      else None)"

text \<open>The body of the \<open>try\<close> in the callback of \<open>parsedData.categories.map\<close>; \<open>None\<close>
  when it throws.\<close>

definition validatedCategory ::
  "runtime \<Rightarrow> jstring \<Rightarrow> product list \<Rightarrow> nat \<Rightarrow> json \<Rightarrow> category option" where
  "validatedCategory rt defaultCategory originalProducts index cat =
     (case getProp cat (js ''productIndexes'') of
        Inl e \<Rightarrow> None
      | Inr indexes \<Rightarrow>
          (case orElse indexes (JArr []) of
             JArr elements \<Rightarrow>
               (case membersOf originalProducts
                       (map (useIndex rt (length originalProducts)) elements) of
                  None \<Rightarrow> None
                | Some categoryProducts \<Rightarrow>
                    (case getProp cat (js ''name'') of
                       Inl e \<Rightarrow> None
                     | Inr name \<Rightarrow>
                        Some \<lparr>c_name = orElse name
                                          (JStr (defaultCategory @ js '' '' @ showNat (index + 1))),
                              c_totalProducts = length categoryProducts,
                              c_priceRange = priceRangeOf categoryProducts,
                              c_platforms = uniq (map p_platform categoryProducts),
                              c_products = categoryProducts\<rparr>))
           | other \<Rightarrow> None))"

text \<open>The callback with its \<open>catch\<close>: the category is rebuilt from the first
  \<open>Math.ceil(n / k)\<close> products of the batch; reading \<open>category.name\<close> there throws
  again when the category is \<open>null\<close>.\<close>

definition processCategory ::
  "runtime \<Rightarrow> jstring \<Rightarrow> product list \<Rightarrow> nat \<Rightarrow> nat \<Rightarrow> json \<Rightarrow> error + category" where
  "processCategory rt defaultCategory originalProducts nCategories index cat =
     (case validatedCategory rt defaultCategory originalProducts index cat of
        Some c \<Rightarrow> Inr c
      | None \<Rightarrow>
          (case getProp cat (js ''name'') of
             Inl e \<Rightarrow> Inl e
           | Inr name \<Rightarrow>
               Inr (createCategoryFromProducts rt
                      (orElse name (JStr (categoryPrefix @ showNat (index + 1))))
                      (slice 0 ((length originalProducts + nCategories - 1) div nCategories)
                             originalProducts))))"

fun processCategories ::
  "runtime \<Rightarrow> jstring \<Rightarrow> product list \<Rightarrow> nat \<Rightarrow> nat \<Rightarrow> json list \<Rightarrow> error + category list" where
  "processCategories rt defaultCategory originalProducts nCategories index [] = Inr []"
| "processCategories rt defaultCategory originalProducts nCategories index (cat # rest) =
     (case processCategory rt defaultCategory originalProducts nCategories index cat of
        Inl e \<Rightarrow> Inl e
      | Inr c \<Rightarrow>
          (case processCategories rt defaultCategory originalProducts nCategories (index + 1) rest of
             Inl e \<Rightarrow> Inl e
           | Inr cs \<Rightarrow> Inr (c # cs)))"

text \<open>\<open>parseClassificationResult\<close>: no JSON object in the text, a failed repair, a
  missing \<open>categories\<close> array and any exception all end in the degraded parser.\<close>

definition parseClassificationResult ::
  "runtime \<Rightarrow> jstring \<Rightarrow> jstring \<Rightarrow> product list \<Rightarrow> category list" where
  "parseClassificationResult rt defaultCategory llmResult originalProducts =
     (case extractJSON llmResult of
        None \<Rightarrow> fallbackParseJSON rt llmResult originalProducts
      | Some jsonString \<Rightarrow>
          (case repairJSON (JSON_parse rt) jsonString of
             Inl e \<Rightarrow> fallbackParseJSON rt llmResult originalProducts
           | Inr parsedData \<Rightarrow>
               (case getProp parsedData (js ''categories'') of
                  Inl e \<Rightarrow> fallbackParseJSON rt llmResult originalProducts
                | Inr (Some (JArr categories)) \<Rightarrow>
                    (case processCategories rt defaultCategory originalProducts
                            (length categories) 0 categories of
                       Inl e \<Rightarrow> fallbackParseJSON rt llmResult originalProducts
                     | Inr validatedCategories \<Rightarrow> validatedCategories)
                | Inr other \<Rightarrow> fallbackParseJSON rt llmResult originalProducts)))"

section \<open>The provider chain (SmartLLMService)\<close>

text \<open>
  The providers of \<open>LLM_PROVIDERS\<close>, and any other name the environment may set. Of
  the configuration, the fields that decide control flow; \<open>parseInt\<close> results are
  integers (a \<open>NaN\<close> bound runs a loop as often as 0 does), an absent API key or URL
  is the empty string.
\<close>

datatype provider = Ollama | Gemini | Keyword | Auto | OtherProvider jstring

record ollamaConfig =
  o_enabled :: bool
  o_url :: jstring
  o_maxRetries :: int
  o_retryDelay :: nat
  o_healthCheckInterval :: int

record geminiConfig =
  gm_enabled :: bool
  gm_apiKey :: jstring
  gm_maxRetries :: int
  gm_retryDelay :: nat

record llmConfig =
  llm_provider :: provider
  fallbackOrder :: "provider list"
  ollama :: ollamaConfig
  gemini :: geminiConfig
  defaultCategory :: jstring

text \<open>\<open>validateLLMConfig\<close>: a provider enabled without its URL or key is disabled, and
  the fallback order keeps the available providers only; the keyword provider is
  always available.\<close>

definition validateLLMConfig :: "llmConfig \<Rightarrow> llmConfig" where
  "validateLLMConfig cfg =
     (let o1 = (if o_enabled (ollama cfg) \<and> o_url (ollama cfg) = []
                then (ollama cfg)\<lparr>o_enabled := False\<rparr> else ollama cfg);
          g1 = (if gm_enabled (gemini cfg) \<and> gm_apiKey (gemini cfg) = []
                then (gemini cfg)\<lparr>gm_enabled := False\<rparr> else gemini cfg);
          availableProviders = (if o_enabled o1 then [Ollama] else [])
                               @ (if gm_enabled g1 then [Gemini] else []) @ [Keyword];
          order1 = filter (\<lambda>p. p \<in> set availableProviders) (fallbackOrder cfg)
      in cfg\<lparr>ollama := o1, gemini := g1,
              fallbackOrder := (if length order1 = 0 then [Keyword] else order1)\<rparr>)"

text \<open>
  The network is an oracle: the \<open>k\<close>-th request to an endpoint has the reply the
  oracle gives for \<open>k\<close>. A reply to a generation request is the text field of the
  response, a response without that field, or a rejection with its HTTP status and
  error code. A reply to the health check is the status of the response, or \<open>None\<close>
  for a rejection. \<open>clock\<close> is the reading of \<open>Date.now()\<close> after so many recorded
  events. The prompt that is sent does not enter: the oracle ranges over all replies.
  Building it (\<open>buildClassificationPrompt\<close>) reads fields of the products and fills
  the template of \<open>config/classification\<close>, which is not among the sources and is
  taken to be a string; on product objects it does not throw, with or without a name
  and for any query.
\<close>

datatype reply = Answer jstring | NoAnswer | Rejected "nat option" "string option"

record network =
  geminiPost :: "nat \<Rightarrow> reply"
  ollamaPost :: "nat \<Rightarrow> reply"
  ollamaTags :: "nat \<Rightarrow> nat option"
  clock :: "nat \<Rightarrow> int"

text \<open>
  The provider health state: per provider the success count and the number of
  requests (\<open>performanceStats\<close>; its time stamps, cumulated latency and last error
  text are left out) and the consecutive failures (\<open>failureCount\<close>). \<open>events\<close> is not
  in the source: it records, in order, the calls of \<open>tryProvider\<close>, the requests sent,
  the delays waited and the health records written.
\<close>

datatype event =
    Tried provider
  | Posted provider nat
  | CheckedHealth
  | Waited nat
  | RecordedSuccess provider
  | RecordedFailure provider

record perfStats =
  successCount :: nat
  totalRequests :: nat

record serviceState =
  performanceStats :: "(provider \<times> perfStats) list"
  failureCount :: "(provider \<times> nat) list"
  lastHealthCheck :: "int option"
  events :: "event list"

definition emit :: "event \<Rightarrow> serviceState \<Rightarrow> serviceState" where
  "emit e s = s\<lparr>events := events s @ [e]\<rparr>"

definition isPostOf :: "provider \<Rightarrow> event \<Rightarrow> bool" where
  "isPostOf p e = (case e of Posted q k \<Rightarrow> q = p | _ \<Rightarrow> False)"

definition postsSent :: "provider \<Rightarrow> serviceState \<Rightarrow> nat" where
  "postsSent p s = length (filter (isPostOf p) (events s))"

definition checksSent :: "serviceState \<Rightarrow> nat" where
  "checksSent s = length (filter (\<lambda>e. e = CheckedHealth) (events s))"

definition statsOf :: "provider \<Rightarrow> serviceState \<Rightarrow> perfStats" where
  "statsOf p s = (case map_of (performanceStats s) p of
                    Some st \<Rightarrow> st
                  | None \<Rightarrow> \<lparr>successCount = 0, totalRequests = 0\<rparr>)"

definition failuresOf :: "provider \<Rightarrow> serviceState \<Rightarrow> nat" where
  "failuresOf p s = (case map_of (failureCount s) p of Some n \<Rightarrow> n | None \<Rightarrow> 0)"

definition recordSuccess :: "provider \<Rightarrow> serviceState \<Rightarrow> serviceState" where
  "recordSuccess p s =
     (let st = statsOf p s in
      emit (RecordedSuccess p)
        (s\<lparr>performanceStats :=
              AList.update p \<lparr>successCount = successCount st + 1,
                              totalRequests = totalRequests st + 1\<rparr> (performanceStats s),
            failureCount := AList.update p 0 (failureCount s)\<rparr>))"

definition recordFailure :: "provider \<Rightarrow> serviceState \<Rightarrow> serviceState" where
  "recordFailure p s =
     (let st = statsOf p s in
      emit (RecordedFailure p)
        (s\<lparr>failureCount := AList.update p (failuresOf p s + 1) (failureCount s),
            performanceStats :=
              AList.update p (st\<lparr>totalRequests := totalRequests st + 1\<rparr>) (performanceStats s)\<rparr>))"

text \<open>What a generation request yields inside the \<open>try\<close> of an attempt: the trimmed
  text, or the error that the \<open>catch\<close> receives.\<close>

definition replyText :: "reply \<Rightarrow> error + jstring" where
  "replyText r =
     (case r of
        Answer t \<Rightarrow> (if t \<noteq> [] then Inr (trim t) else Inl BadResponseFormat)
      | NoAnswer \<Rightarrow> Inl BadResponseFormat
      | Rejected status code \<Rightarrow> Inl (RequestFailed status code))"

text \<open>\<open>useGemini\<close>. The loop \<open>for (attempt = 1; attempt <= maxRetries; attempt++)\<close>
  runs \<open>remaining\<close> more times; it starts with \<open>remaining = maxRetries\<close>, and
  \<open>lastError\<close> starts undefined. After a failed attempt that is not the last, the
  delay is \<open>retryDelay\<close> on status 429 and 5000 ms otherwise.\<close>

definition rateLimited :: "error \<Rightarrow> bool" where
  "rateLimited e = (case e of RequestFailed (Some status) code \<Rightarrow> status = 429 | _ \<Rightarrow> False)"

definition geminiDelay :: "llmConfig \<Rightarrow> nat \<Rightarrow> error \<Rightarrow> serviceState \<Rightarrow> serviceState" where
  "geminiDelay cfg attempt e s =
     (if int attempt < gm_maxRetries (gemini cfg)
      then emit (Waited (if rateLimited e then gm_retryDelay (gemini cfg) else 5000)) s
      else s)"

fun geminiLoop ::
  "runtime \<Rightarrow> network \<Rightarrow> llmConfig \<Rightarrow> product list \<Rightarrow> nat \<Rightarrow> nat \<Rightarrow> error \<Rightarrow> serviceState
     \<Rightarrow> (error + category list) \<times> serviceState" where
  "geminiLoop rt net cfg products 0 attempt lastError s = (Inl lastError, s)"
| "geminiLoop rt net cfg products (Suc remaining) attempt lastError s =
     (let s1 = emit (Posted Gemini attempt) s in
      case replyText (geminiPost net (postsSent Gemini s)) of
        Inr result \<Rightarrow>
          (Inr (parseClassificationResult rt (defaultCategory cfg) result products), s1)
      | Inl e \<Rightarrow>
          geminiLoop rt net cfg products remaining (attempt + 1) e (geminiDelay cfg attempt e s1))"

definition useGemini ::
  "runtime \<Rightarrow> network \<Rightarrow> llmConfig \<Rightarrow> product list \<Rightarrow> serviceState
     \<Rightarrow> (error + category list) \<times> serviceState" where
  "useGemini rt net cfg products s =
     (if \<not> gm_enabled (gemini cfg) \<or> gm_apiKey (gemini cfg) = []
      then (Inl GeminiDisabled, s)
      else geminiLoop rt net cfg products (nat (gm_maxRetries (gemini cfg))) 1 ThrownUndefined s)"

text \<open>\<open>checkOllamaHealth\<close>: skipped when the last successful check is recent; a
  rejected request throws.\<close>

definition checkOllamaHealth ::
  "network \<Rightarrow> llmConfig \<Rightarrow> serviceState \<Rightarrow> error option \<times> serviceState" where
  "checkOllamaHealth net cfg s =
     (let lastCheck = (case lastHealthCheck s of Some t \<Rightarrow> t | None \<Rightarrow> 0);
          now = clock net (length (events s))
      in if now - lastCheck < o_healthCheckInterval (ollama cfg) then (None, s)
         else (case ollamaTags net (checksSent s) of
                 Some status \<Rightarrow>
                   (None, if status = 200 then (emit CheckedHealth s)\<lparr>lastHealthCheck := Some now\<rparr>
                          else emit CheckedHealth s)
               | None \<Rightarrow> (Some OllamaHealthCheckFailed, emit CheckedHealth s)))"

text \<open>\<open>useOllama\<close>: the same loop, except that a refused connection ends it at once
  and the delay is always \<open>retryDelay\<close>.\<close>

definition connectionRefused :: "error \<Rightarrow> bool" where
  "connectionRefused e =
     (case e of RequestFailed status (Some code) \<Rightarrow> code = ''ECONNREFUSED'' | _ \<Rightarrow> False)"

fun ollamaLoop ::
  "runtime \<Rightarrow> network \<Rightarrow> llmConfig \<Rightarrow> product list \<Rightarrow> nat \<Rightarrow> nat \<Rightarrow> error \<Rightarrow> serviceState
     \<Rightarrow> (error + category list) \<times> serviceState" where
  "ollamaLoop rt net cfg products 0 attempt lastError s = (Inl lastError, s)"
| "ollamaLoop rt net cfg products (Suc remaining) attempt lastError s =
     (let s1 = emit (Posted Ollama attempt) s in
      case replyText (ollamaPost net (postsSent Ollama s)) of
        Inr result \<Rightarrow>
          (Inr (parseClassificationResult rt (defaultCategory cfg) result products), s1)
      | Inl e \<Rightarrow>
          if connectionRefused e then (Inl OllamaNotRunning, s1)
          else ollamaLoop rt net cfg products remaining (attempt + 1) e
                 (if int attempt < o_maxRetries (ollama cfg)
                  then emit (Waited (o_retryDelay (ollama cfg))) s1 else s1))"

definition useOllama ::
  "runtime \<Rightarrow> network \<Rightarrow> llmConfig \<Rightarrow> product list \<Rightarrow> serviceState
     \<Rightarrow> (error + category list) \<times> serviceState" where
  "useOllama rt net cfg products s =
     (if \<not> o_enabled (ollama cfg) then (Inl OllamaDisabled, s)
      else (case checkOllamaHealth net cfg s of
              (Some e, s1) \<Rightarrow> (Inl e, s1)
            | (None, s1) \<Rightarrow>
                ollamaLoop rt net cfg products (nat (o_maxRetries (ollama cfg))) 1
                           ThrownUndefined s1))"

definition tryProvider ::
  "runtime \<Rightarrow> network \<Rightarrow> llmConfig \<Rightarrow> provider \<Rightarrow> product list \<Rightarrow> jstring option
     \<Rightarrow> serviceState \<Rightarrow> (error + category list) \<times> serviceState" where
  "tryProvider rt net cfg p products searchQuery s0 =
     (let s = emit (Tried p) s0 in
      case p of
        Ollama \<Rightarrow> useOllama rt net cfg products s
      | Gemini \<Rightarrow> useGemini rt net cfg products s
      | Keyword \<Rightarrow> (useKeywordMatching rt (defaultCategory cfg) products searchQuery, s)
      | _ \<Rightarrow> (Inl UnsupportedProvider, s))"

text \<open>The result of a classification call (without its mode text, response time and
  time stamp).\<close>

record classification =
  cl_success :: bool
  cl_provider :: "provider option"
  cl_categories :: "category list"
  cl_totalProducts :: nat
  cl_error :: "error option"

definition succeeded :: "provider \<Rightarrow> category list \<Rightarrow> product list \<Rightarrow> classification" where
  "succeeded p categories products =
     \<lparr>cl_success = True, cl_provider = Some p, cl_categories = categories,
      cl_totalProducts = length products, cl_error = None\<rparr>"

text \<open>The loop of \<open>categorizeSearchResults\<close> over the providers. Its \<open>catch\<close> first
  reads \<open>error.message\<close>: when a provider threw \<open>undefined\<close> (a retry loop that ran
  no attempt), that read throws a \<open>TypeError\<close> out of the loop. Otherwise the
  failure is recorded and the loop goes on; after the last provider the function
  throws. The test on the last provider in the \<open>catch\<close> changes nothing: both of
  its branches continue the loop.\<close>

fun tryProviders ::
  "runtime \<Rightarrow> network \<Rightarrow> llmConfig \<Rightarrow> product list \<Rightarrow> jstring option \<Rightarrow> provider list
     \<Rightarrow> serviceState \<Rightarrow> (error + classification) \<times> serviceState" where
  "tryProviders rt net cfg products searchQuery [] s = (Inl AllProvidersFailed, s)"
| "tryProviders rt net cfg products searchQuery (p # rest) s =
     (case tryProvider rt net cfg p products searchQuery s of
        (Inr categories, s1) \<Rightarrow> (Inr (succeeded p categories products), recordSuccess p s1)
      | (Inl e, s1) \<Rightarrow>
          if e = ThrownUndefined then (Inl TypeError, s1)
          else tryProviders rt net cfg products searchQuery rest (recordFailure p s1))"

definition providersOf :: "llmConfig \<Rightarrow> provider list" where
  "providersOf cfg = (if llm_provider cfg = Auto then fallbackOrder cfg else [llm_provider cfg])"

definition categorizeSearchResults ::
  "runtime \<Rightarrow> network \<Rightarrow> llmConfig \<Rightarrow> product list \<Rightarrow> jstring option \<Rightarrow> serviceState
     \<Rightarrow> classification \<times> serviceState" where
  "categorizeSearchResults rt net cfg products searchQuery s =
     (case tryProviders rt net cfg products searchQuery (providersOf cfg) s of
        (Inr finalResult, s1) \<Rightarrow> (finalResult, s1)
      | (Inl e, s1) \<Rightarrow>
          (\<lparr>cl_success = False, cl_provider = None, cl_categories = [],
            cl_totalProducts = length products, cl_error = Some e\<rparr>, s1))"

text \<open>\<open>categorizeWithGemini\<close> and \<open>categorizeWithOllama\<close>: one provider, its outcome
  recorded, its error thrown on. \<open>recordFailure\<close> ends by reading \<open>error.message\<close>,
  so an \<open>undefined\<close> error leaves as a \<open>TypeError\<close>, after the record is written.\<close>

definition rethrown :: "error \<Rightarrow> error" where
  "rethrown e = (if e = ThrownUndefined then TypeError else e)"

definition categorizeWithGemini ::
  "runtime \<Rightarrow> network \<Rightarrow> llmConfig \<Rightarrow> product list \<Rightarrow> serviceState
     \<Rightarrow> (error + classification) \<times> serviceState" where
  "categorizeWithGemini rt net cfg products s =
     (if \<not> gm_enabled (gemini cfg) \<or> gm_apiKey (gemini cfg) = []
      then (Inl GeminiDisabled, recordFailure Gemini s)
      else (case useGemini rt net cfg products s of
              (Inr categories, s1) \<Rightarrow>
                (Inr (succeeded Gemini categories products), recordSuccess Gemini s1)
            | (Inl e, s1) \<Rightarrow> (Inl (rethrown e), recordFailure Gemini s1)))"

definition categorizeWithOllama ::
  "runtime \<Rightarrow> network \<Rightarrow> llmConfig \<Rightarrow> product list \<Rightarrow> serviceState
     \<Rightarrow> (error + classification) \<times> serviceState" where
  "categorizeWithOllama rt net cfg products s =
     (if \<not> o_enabled (ollama cfg)
      then (Inl OllamaDisabled, recordFailure Ollama s)
      else (case useOllama rt net cfg products s of
              (Inr categories, s1) \<Rightarrow>
                (Inr (succeeded Ollama categories products), recordSuccess Ollama s1)
            | (Inl e, s1) \<Rightarrow> (Inl (rethrown e), recordFailure Ollama s1)))"

definition newService :: serviceState where
  "newService = \<lparr>performanceStats = [], failureCount = [], lastHealthCheck = None, events = []\<rparr>"

section \<open>The order of events in a classification call\<close>

text \<open>
  The events of one provider's turn are its requests, the delays, and for Ollama the
  health check. \<open>chainTrace ps tr\<close> says that the events \<open>tr\<close> are the turns of the
  providers \<open>ps\<close> in order: a turn starts with \<open>Tried p\<close>; after its events the trace
  ends (the call left with a \<open>TypeError\<close>), or ends with \<open>RecordedSuccess p\<close>, or goes
  on with \<open>RecordedFailure p\<close> and the turns of the remaining providers.
  \<open>attemptsOf p tr\<close> are the attempt numbers of the requests of \<open>p\<close> in \<open>tr\<close>.
\<close>

definition inTurn :: "provider \<Rightarrow> event \<Rightarrow> bool" where
  "inTurn p e = (case e of
                   Posted q k \<Rightarrow> q = p
                 | Waited d \<Rightarrow> True
                 | CheckedHealth \<Rightarrow> p = Ollama
                 | _ \<Rightarrow> False)"

fun chainTrace :: "provider list \<Rightarrow> event list \<Rightarrow> bool" where
  "chainTrace [] tr = (tr = [])"
| "chainTrace (p # rest) [] = False"
| "chainTrace (p # rest) (e # tr) =
     (e = Tried p \<and>
      (case dropWhile (inTurn p) tr of
         [] \<Rightarrow> True
       | e2 # tr2 \<Rightarrow> (e2 = RecordedSuccess p \<and> tr2 = [])
                     \<or> (e2 = RecordedFailure p \<and> chainTrace rest tr2)))"

definition attemptsOf :: "provider \<Rightarrow> event list \<Rightarrow> nat list" where
  "attemptsOf p tr =
     concat (map (\<lambda>e. case e of Posted q k \<Rightarrow> (if q = p then [k] else []) | _ \<Rightarrow> []) tr)"

text \<open>The events that a call added to the state.\<close>

definition newEvents :: "serviceState \<Rightarrow> serviceState \<Rightarrow> event list" where
  "newEvents s s' = drop (length (events s)) (events s')"
section \<open>The crawl orchestrator (CrawlerManager)\<close>

text \<open>
  What a site fetcher returns: the success flag, the products, its own platform name
  when the result carries one, and an error text (empty when absent). A search of one
  platform settles as fulfilled with such a result or as rejected with the message
  of the error thrown (empty when there is none). The fetchers are an oracle:
  \<open>crawl i name\<close> is how the fetcher registered under \<open>name\<close> settles when it is the
  \<open>i\<close>-th platform requested.
\<close>

record crawlResult =
  cr_success :: bool
  cr_products :: "product list"
  cr_platform :: "jstring option"
  cr_error :: jstring

datatype settled = Fulfilled crawlResult | RejectedWith jstring

record searchOptions =
  platforms :: "jstring list"
  enableCategorySummary :: bool
  sortBy :: string

definition defaultOptions :: searchOptions where
  "defaultOptions = \<lparr>platforms = [js ''pchome'', js ''momo''],
                      enableCategorySummary = True, sortBy = ''price''\<rparr>"

definition registeredCrawlers :: "jstring list" where
  "registeredCrawlers = [js ''pchome'', js ''momo'']"

definition searchSinglePlatform :: "(nat \<Rightarrow> jstring \<Rightarrow> settled) \<Rightarrow> nat \<Rightarrow> jstring \<Rightarrow> settled" where
  "searchSinglePlatform crawl i platformName =
     (if platformName \<in> set registeredCrawlers then crawl i platformName
      else RejectedWith ([26410, 25214, 21040, 24179, 21488, 29228, 34802, 58, 32] @ platformName))"

text \<open>\<open>tryLLMCategorization\<close>: Gemini, then Ollama; the error of Ollama is thrown on.
  A successful result always has its \<open>categories\<close>, so the final \<open>throw\<close> of the
  source is never reached.\<close>

definition tryLLMCategorization ::
  "runtime \<Rightarrow> network \<Rightarrow> llmConfig \<Rightarrow> product list \<Rightarrow> jstring \<Rightarrow> serviceState
     \<Rightarrow> (error + classification) \<times> serviceState" where
  "tryLLMCategorization rt net cfg products keyword s =
     (case categorizeWithGemini rt net cfg products s of
        (Inr geminiResult, s1) \<Rightarrow> (Inr geminiResult, s1)
      | (Inl geminiError, s1) \<Rightarrow>
          (case categorizeWithOllama rt net cfg products s1 of
             (Inr ollamaResult, s2) \<Rightarrow> (Inr ollamaResult, s2)
           | (Inl ollamaError, s2) \<Rightarrow> (Inl ollamaError, s2)))"

text \<open>The result of \<open>searchProducts\<close>; a field that a result object does not have is
  empty here.\<close>

record searchResults =
  sr_success :: bool
  sr_mode :: string
  sr_categories :: "category list"
  sr_products :: "product list"
  sr_totalProducts :: nat
  sr_platformResults :: "(jstring \<times> crawlResult) list"
  sr_failedPlatforms :: "(jstring \<times> jstring) list"
  sr_error :: "error option"

text \<open>Steps 1 and 2: every platform is searched and the settled results are split.
  The reason of a failure is the message of the rejection, else the error text of the
  result, else the text for an unknown error.\<close>

definition unknownError :: jstring where
  "unknownError = [26410, 30693, 37679, 35492]"

definition failureReason :: "settled \<Rightarrow> jstring" where
  "failureReason r =
     (case r of
        RejectedWith message \<Rightarrow> (if message \<noteq> [] then message else unknownError)
      | Fulfilled v \<Rightarrow> (if cr_error v \<noteq> [] then cr_error v else unknownError))"

definition fetchSucceeded :: "settled \<Rightarrow> bool" where
  "fetchSucceeded r = (case r of Fulfilled v \<Rightarrow> cr_success v | RejectedWith message \<Rightarrow> False)"

definition settleAll :: "(nat \<Rightarrow> jstring \<Rightarrow> settled) \<Rightarrow> jstring list \<Rightarrow> (jstring \<times> settled) list" where
  "settleAll crawl names =
     map (\<lambda>(i, platformName). (platformName, searchSinglePlatform crawl i platformName))
         (enumerate 0 names)"

fun successfulOf :: "(jstring \<times> settled) list \<Rightarrow> (jstring \<times> crawlResult) list" where
  "successfulOf [] = []"
| "successfulOf ((platformName, Fulfilled v) # rest) =
     (if cr_success v then (platformName, v) # successfulOf rest else successfulOf rest)"
| "successfulOf ((platformName, RejectedWith message) # rest) = successfulOf rest"

fun failedOf :: "(jstring \<times> settled) list \<Rightarrow> (jstring \<times> jstring) list" where
  "failedOf [] = []"
| "failedOf ((platformName, Fulfilled v) # rest) =
     (if cr_success v then failedOf rest
      else (platformName, failureReason (Fulfilled v)) # failedOf rest)"
| "failedOf ((platformName, RejectedWith message) # rest) =
     (platformName, failureReason (RejectedWith message)) # failedOf rest"

text \<open>Step 3: the products of the successful platforms, in order; a product without
  a platform takes that of its result, which is the result's own \<open>platform\<close> when it
  has one and the requested name otherwise.\<close>

definition platformProducts :: "jstring \<times> crawlResult \<Rightarrow> product list" where
  "platformProducts r =
     (let resultPlatform = (case cr_platform (snd r) of Some own \<Rightarrow> own | None \<Rightarrow> fst r)
      in map (\<lambda>product. product\<lparr>p_platform := (if p_platform product \<noteq> []
                                                then p_platform product else resultPlatform)\<rparr>)
             (cr_products (snd r)))"

definition mergeProducts :: "(jstring \<times> crawlResult) list \<Rightarrow> product list" where
  "mergeProducts successfulResults = concat (map platformProducts successfulResults)"

text \<open>\<open>allProducts.sort(getSortFunction(sortBy))\<close>: a stable sort by price,
  descending for \<open>price_desc\<close> and ascending for every other value.\<close>

definition sortProducts :: "string \<Rightarrow> product list \<Rightarrow> product list" where
  "sortProducts order ps =
     (if order = ''price_desc'' then sort_key (\<lambda>p. - p_price p) ps else sort_key p_price ps)"

text \<open>The body of the \<open>try\<close> of \<open>searchProducts\<close>, and the function with its \<open>catch\<close>.\<close>

definition searchBody ::
  "runtime \<Rightarrow> network \<Rightarrow> llmConfig \<Rightarrow> (nat \<Rightarrow> jstring \<Rightarrow> settled) \<Rightarrow> jstring \<Rightarrow> searchOptions
     \<Rightarrow> serviceState \<Rightarrow> (error + searchResults) \<times> serviceState" where
  "searchBody rt net cfg crawl keyword options s =
     (let results = settleAll crawl (platforms options);
          successfulResults = successfulOf results;
          failedPlatforms = failedOf results;
          allProducts = mergeProducts successfulResults
      in if length allProducts = 0
         then (Inr \<lparr>sr_success = True, sr_mode = ''category_summary'', sr_categories = [],
                    sr_products = [], sr_totalProducts = 0, sr_platformResults = [],
                    sr_failedPlatforms = failedPlatforms, sr_error = None\<rparr>, s)
         else if enableCategorySummary options
         then (case tryLLMCategorization rt net cfg allProducts keyword s of
                 (Inl e, s1) \<Rightarrow> (Inl e, s1)
               | (Inr categoryResult, s1) \<Rightarrow>
                   (Inr \<lparr>sr_success = True, sr_mode = ''category_summary'',
                         sr_categories = cl_categories categoryResult,
                         sr_products = [], sr_totalProducts = length allProducts,
                         sr_platformResults = successfulResults,
                         sr_failedPlatforms = failedPlatforms, sr_error = None\<rparr>, s1))
         else (Inr \<lparr>sr_success = True, sr_mode = ''product_list'', sr_categories = [],
                    sr_products = sortProducts (sortBy options) allProducts,
                    sr_totalProducts = length allProducts,
                    sr_platformResults = successfulResults,
                    sr_failedPlatforms = failedPlatforms, sr_error = None\<rparr>, s))"

definition searchProducts ::
  "runtime \<Rightarrow> network \<Rightarrow> llmConfig \<Rightarrow> (nat \<Rightarrow> jstring \<Rightarrow> settled) \<Rightarrow> jstring \<Rightarrow> searchOptions
     \<Rightarrow> serviceState \<Rightarrow> searchResults \<times> serviceState" where
  "searchProducts rt net cfg crawl keyword options s =
     (case searchBody rt net cfg crawl keyword options s of
        (Inr searchResults, s1) \<Rightarrow> (searchResults, s1)
      | (Inl e, s1) \<Rightarrow>
          (\<lparr>sr_success = False, sr_mode = [], sr_categories = [], sr_products = [],
            sr_totalProducts = 0, sr_platformResults = [], sr_failedPlatforms = [],
            sr_error = Some e\<rparr>, s1))"

section \<open>Concrete inputs\<close>

text \<open>A runtime whose \<open>JSON.parse\<close> knows two texts: \<open>{A}\<close>, standing for a response
  with one category named A that lists product 0 only, and the valid text
  \<open>{"a":"b"}\<close>, which the repairs would damage. Its keyword rules know the brand
  \<open>apple\<close>.\<close>

definition validText :: jstring where
  "validText = [lbrace, dquote, 97, dquote, colon, dquote, 98, dquote, rbrace]"

definition exampleParse :: "jstring \<Rightarrow> json option" where
  "exampleParse s =
     (if s = js ''{A}''
      then Some (JObj [(js ''categories'',
                        JArr [JObj [(js ''name'', JStr (js ''A'')),
                                    (js ''productIndexes'', JArr [JNum 0])]])])
      else if s = validText then Some (JObj [(js ''a'', JStr (js ''b''))])
      else None)"

definition exampleRuntime :: runtime where
  "exampleRuntime =
     \<lparr>JSON_parse = exampleParse, toLowerCase = (\<lambda>s. s), mathRandom = (\<lambda>k. js ''r''),
      floorScaled = (\<lambda>n k i. (n * i) div k), coerceIndex = (\<lambda>n v. Dropped),
      KEYWORD_RULES = \<lparr>BRANDS = Some [(js ''apple'', js ''phones'')], OTHER_RULES = []\<rparr>\<rparr>"

definition lamp :: product where
  "lamp = \<lparr>p_id = js ''m1'', p_name = Some (js ''lamp''), p_price = 100, p_platform = js ''momo''\<rparr>"

definition desk :: product where
  "desk = \<lparr>p_id = js ''m2'', p_name = Some (js ''desk''), p_price = 0, p_platform = js ''momo''\<rparr>"


text \<open>A configuration as \<open>getLLMConfig\<close> builds it, with both LLM providers
  enabled or both disabled, and a network on which Gemini answers \<open>{A}\<close>, the Ollama
  health check passes and the Ollama endpoint refuses the connection.\<close>

definition exampleConfig :: "bool \<Rightarrow> provider \<Rightarrow> provider list \<Rightarrow> llmConfig" where
  "exampleConfig on p order =
     \<lparr>llm_provider = p, fallbackOrder = order,
      ollama = \<lparr>o_enabled = on, o_url = js ''http://localhost:11434'', o_maxRetries = 3,
                 o_retryDelay = 5000, o_healthCheckInterval = 60000\<rparr>,
      gemini = \<lparr>gm_enabled = on, gm_apiKey = (if on then js ''key'' else []),
                 gm_maxRetries = 3, gm_retryDelay = 60000\<rparr>,
      defaultCategory = [20854, 20182, 21830, 21697]\<rparr>"

definition exampleNetwork :: network where
  "exampleNetwork =
     \<lparr>geminiPost = (\<lambda>k. Answer (js ''{A}'')),
      ollamaPost = (\<lambda>k. Rejected None (Some ''ECONNREFUSED'')),
      ollamaTags = (\<lambda>k. Some 200),
      clock = (\<lambda>k. 1700000000000)\<rparr>"

text \<open>A network on which Gemini answers every request with status 429.\<close>

definition busyNetwork :: network where
  "busyNetwork = exampleNetwork\<lparr>geminiPost := (\<lambda>k. Rejected (Some 429) None)\<rparr>"

text \<open>Fetchers of which \<open>pchome\<close> throws and \<open>momo\<close> returns the lamp.\<close>

definition exampleCrawl :: "nat \<Rightarrow> jstring \<Rightarrow> settled" where
  "exampleCrawl i platformName =
     (if platformName = js ''momo''
      then Fulfilled \<lparr>cr_success = True, cr_products = [lamp],
                      cr_platform = Some (js ''momo''), cr_error = []\<rparr>
      else RejectedWith (js ''timeout''))"

text \<open>Fetchers of which \<open>pchome\<close> throws and \<open>momo\<close> succeeds without a product.\<close>

definition barrenCrawl :: "nat \<Rightarrow> jstring \<Rightarrow> settled" where
  "barrenCrawl i platformName =
     (if platformName = js ''momo''
      then Fulfilled \<lparr>cr_success = True, cr_products = [],
                      cr_platform = Some (js ''momo''), cr_error = []\<rparr>
      else RejectedWith (js ''timeout''))"

section \<open>Properties of the classification cache\<close>

lemma evictScan_result:
  "evictScan xs ok ot = Some k \<Longrightarrow>
     ok = Some k \<or> (\<exists>item. (k, item) \<in> set xs \<and> createdAt item < ot)"
proof (induction xs arbitrary: ok ot)
  case Nil
  then show ?case by simp
next
  case (Cons a xs)
  obtain key item where a: "a = (key, item)" by (cases a)
  show ?case
  proof (cases "createdAt item < ot")
    case True
    with Cons.prems a have "evictScan xs (Some key) (createdAt item) = Some k" by simp
    from Cons.IH [OF this] True a show ?thesis by fastforce
  next
    case False
    with Cons.prems a have "evictScan xs ok ot = Some k" by simp
    from Cons.IH [OF this] a show ?thesis by auto
  qed
qed

lemma update_key_entry:
  "distinct (map fst xs) \<Longrightarrow> (k, v') \<in> set (AList.update k v xs) \<Longrightarrow> v' = v"
  by (induction xs) (auto split: if_splits simp: rev_image_eqI)

lemma cache_set_lookup:
  "map_of (cache (cache_set digest t1 t2 t3 p cat qc c)) (generateCacheKey digest p qc) = None \<or>
   map_of (cache (cache_set digest t1 t2 t3 p cat qc c)) (generateCacheKey digest p qc) =
     Some \<lparr>ci_productName = p, ci_category = cat, ci_queryContext = map_option originalQuery qc,
           createdAt = t2, expireAt = t1 + ttl (config c)\<rparr>"
  by (auto simp: cache_set_def evictOldest_def Let_def update_conv' delete_conv'
           split: option.splits)

text \<open>
  What the eviction scan chooses: either nothing was older than the starting reading,
  or the chosen key belongs to an entry whose \<open>createdAt\<close> is the least of the cache.
\<close>

lemma evictScan_oldest:
  "evictScan xs ok ot = Some k \<Longrightarrow>
     (ok = Some k \<and> (\<forall>kv \<in> set xs. ot \<le> createdAt (snd kv)))
     \<or> (\<exists>item. (k, item) \<in> set xs \<and> createdAt item < ot
           \<and> (\<forall>kv \<in> set xs. createdAt item \<le> createdAt (snd kv)))"
proof (induction xs arbitrary: ok ot)
  case Nil
  then show ?case by simp
next
  case (Cons a xs)
  obtain key item where a: "a = (key, item)" by (cases a)
  show ?case
  proof (cases "createdAt item < ot")
    case True
    with Cons.prems a have "evictScan xs (Some key) (createdAt item) = Some k" by simp
    from Cons.IH [OF this] consider
      (same) "key = k" "\<forall>kv \<in> set xs. createdAt item \<le> createdAt (snd kv)"
    | (later) item2 where "(k, item2) \<in> set xs" "createdAt item2 < createdAt item"
        "\<forall>kv \<in> set xs. createdAt item2 \<le> createdAt (snd kv)"
      by auto
    then show ?thesis
    proof cases
      case same
      have "(k, item) \<in> set (a # xs)" using a same(1) by simp
      moreover have "\<forall>kv \<in> set (a # xs). createdAt item \<le> createdAt (snd kv)"
        using a same(2) by simp
      ultimately show ?thesis using True by blast
    next
      case later
      have "(k, item2) \<in> set (a # xs)" using later(1) by simp
      moreover have "createdAt item2 < ot" using later(2) True by simp
      moreover have "\<forall>kv \<in> set (a # xs). createdAt item2 \<le> createdAt (snd kv)"
        using a later(2,3) by simp
      ultimately show ?thesis by blast
    qed
  next
    case False
    with Cons.prems a have "evictScan xs ok ot = Some k" by simp
    from Cons.IH [OF this] consider
      (kept) "ok = Some k" "\<forall>kv \<in> set xs. ot \<le> createdAt (snd kv)"
    | (found) item2 where "(k, item2) \<in> set xs" "createdAt item2 < ot"
        "\<forall>kv \<in> set xs. createdAt item2 \<le> createdAt (snd kv)"
      by auto
    then show ?thesis
    proof cases
      case kept
      have "\<forall>kv \<in> set (a # xs). ot \<le> createdAt (snd kv)"
        using a kept(2) False by simp
      with kept(1) show ?thesis by blast
    next
      case found
      have "(k, item2) \<in> set (a # xs)" using found(1) by simp
      moreover have "\<forall>kv \<in> set (a # xs). createdAt item2 \<le> createdAt (snd kv)"
        using a found(2,3) False by simp
      ultimately show ?thesis using found(2) by blast
    qed
  qed
qed

lemma evictScan_Some: "\<exists>k'. evictScan xs (Some k) ot = Some k'"
  by (induction xs arbitrary: k ot) auto

lemma evictScan_finds:
  "(k0, item0) \<in> set xs \<Longrightarrow> createdAt item0 < ot \<Longrightarrow> \<exists>k. evictScan xs ok ot = Some k"
  by (induction xs arbitrary: ok ot) (auto simp: evictScan_Some)

lemma update_mem: "distinct (map fst xs) \<Longrightarrow> (k, v) \<in> set (AList.update k v xs)"
  by (induction xs) (auto simp: rev_image_eqI)

lemma length_update_le: "length (AList.update k v xs) \<le> Suc (length xs)"
  by (induction xs) auto

lemma length_delete_key:
  "distinct (map fst xs) \<Longrightarrow> k \<in> fst ` set xs \<Longrightarrow> Suc (length (AList.delete k xs)) = length xs"
proof (induction xs)
  case Nil
  then show ?case by simp
next
  case (Cons a xs)
  show ?case
  proof (cases "fst a = k")
    case True
    with Cons.prems have "k \<notin> fst ` set xs" by auto
    then have "AList.delete k xs = xs" by (simp add: delete_id)
    with True show ?thesis by (cases a) simp
  next
    case False
    with Cons.prems have "k \<in> fst ` set xs" "distinct (map fst xs)" by auto
    with Cons.IH have "Suc (length (AList.delete k xs)) = length xs" by simp
    with False show ?thesis by (cases a) simp
  qed
qed

lemma evictScan_last:
  "evictScan (ys @ [(k, item)]) ok ot = Some k \<Longrightarrow> ok \<noteq> Some k \<Longrightarrow> k \<notin> fst ` set ys \<Longrightarrow>
     createdAt item < ot \<and> (\<forall>kv \<in> set ys. createdAt item < createdAt (snd kv))"
proof (induction ys arbitrary: ok ot)
  case Nil
  then show ?case by (simp split: if_splits)
next
  case (Cons a ys)
  obtain k' item' where a: "a = (k', item')" by (cases a)
  from Cons.prems(3) a have ne: "k' \<noteq> k" "k \<notin> fst ` set ys" by auto
  show ?case
  proof (cases "createdAt item' < ot")
    case True
    with Cons.prems(1) a have "evictScan (ys @ [(k, item)]) (Some k') (createdAt item') = Some k"
      by simp
    from Cons.IH [OF this _ ne(2)] ne(1) True a show ?thesis by auto
  next
    case False
    with Cons.prems(1) a have "evictScan (ys @ [(k, item)]) ok ot = Some k" by simp
    from Cons.IH [OF this Cons.prems(2) ne(2)] False a show ?thesis by auto
  qed
qed

lemma update_new_key: "k \<notin> fst ` set xs \<Longrightarrow> AList.update k v xs = xs @ [(k, v)]"
  by (induction xs) auto

lemma update_keeps_others: "(k', v') \<in> set xs \<Longrightarrow> k' \<noteq> k \<Longrightarrow> (k', v') \<in> set (AList.update k v xs)"
  by (induction xs) auto

lemma length_update:
  "length (AList.update k v xs) = (if k \<in> fst ` set xs then length xs else Suc (length xs))"
  by (induction xs) auto


text \<open>
  When \<open>set\<close> keeps the entry it writes. The eviction at its end removes another
  entry, or none, in each of these cases: the cache is within \<open>maxSize\<close> after the
  write (there was room for a new key, or the key was present in a cache that was
  not over-full); the scan reads a clock value not later than the creation stamp;
  another entry is strictly older; the key is new, so that its entry is the last of
  the \<open>Map\<close>, and some entry is at least as old.
\<close>

lemma cache_set_keeps_new:
  assumes d: "distinct (map fst (cache c))"
    and h: "int (length (cache c)) < maxSize (config c)
            \<or> (generateCacheKey digest p qc \<in> fst ` set (cache c)
                \<and> int (length (cache c)) \<le> maxSize (config c))
            \<or> t3 \<le> t2
            \<or> (\<exists>kv \<in> set (cache c). fst kv \<noteq> generateCacheKey digest p qc
                                      \<and> createdAt (snd kv) < t2)
            \<or> (generateCacheKey digest p qc \<notin> fst ` set (cache c)
                \<and> (\<exists>kv \<in> set (cache c). createdAt (snd kv) \<le> t2))"
  shows "map_of (cache (cache_set digest t1 t2 t3 p cat qc c)) (generateCacheKey digest p qc) =
     Some \<lparr>ci_productName = p, ci_category = cat, ci_queryContext = map_option originalQuery qc,
           createdAt = t2, expireAt = t1 + ttl (config c)\<rparr>"
proof -
  define key where "key = generateCacheKey digest p qc"
  define item where "item = \<lparr>ci_productName = p, ci_category = cat,
           ci_queryContext = map_option originalQuery qc,
           createdAt = t2, expireAt = t1 + ttl (config c)\<rparr>"
  define xs where "xs = AList.update key item (cache c)"
  have stored: "map_of xs key = Some item" by (simp add: xs_def update_conv')
  have neq: "k \<noteq> key" if over: "int (length xs) > maxSize (config c)"
    and scan: "evictScan xs None t3 = Some k" for k
  proof
    assume k: "k = key"
    from evictScan_oldest [OF scan] k obtain item' where i:
      "(key, item') \<in> set xs" "createdAt item' < t3"
      "\<forall>kv \<in> set xs. createdAt item' \<le> createdAt (snd kv)" by auto
    from i(1) update_key_entry [OF d, of key item' item] have "item' = item"
      by (simp add: xs_def)
    with i have c: "t2 < t3" "\<forall>kv \<in> set xs. t2 \<le> createdAt (snd kv)"
      by (simp_all add: item_def)
    from h [folded key_def] consider
        (room) "int (length (cache c)) < maxSize (config c)"
      | (present) "key \<in> fst ` set (cache c)" "int (length (cache c)) \<le> maxSize (config c)"
      | (clock) "t3 \<le> t2"
      | (older) kv where "kv \<in> set (cache c)" "fst kv \<noteq> key" "createdAt (snd kv) < t2"
      | (last) kv where "key \<notin> fst ` set (cache c)" "kv \<in> set (cache c)"
          "createdAt (snd kv) \<le> t2"
      by blast
    then show False
    proof cases
      case room
      with over show False by (simp add: xs_def length_update split: if_splits)
    next
      case present
      with over show False by (simp add: xs_def length_update)
    next
      case clock
      with c(1) show False by simp
    next
      case older
      from update_keeps_others [of "fst kv" "snd kv" "cache c" key item] older(1,2)
      have "kv \<in> set xs" by (simp add: xs_def)
      with c(2) older(3) show False by fastforce
    next
      case last
      from last(1) have x: "xs = cache c @ [(key, item)]"
        by (simp add: xs_def update_new_key)
      from scan k have "evictScan (cache c @ [(key, item)]) None t3 = Some key"
        by (simp add: x)
      from evictScan_last [OF this _ last(1)] last(2) have "t2 < createdAt (snd kv)"
        by (auto simp: item_def)
      with last(3) show False by simp
    qed
  qed
  have "map_of (cache (cache_set digest t1 t2 t3 p cat qc c)) key = Some item"
    using stored neq
    by (auto simp: cache_set_def evictOldest_def Let_def key_def [symmetric] item_def [symmetric]
          xs_def [symmetric] delete_conv' split: option.splits)
  then show ?thesis by (simp add: key_def item_def)
qed

text \<open>The keys of the cache stay distinct, as those of a \<open>Map\<close> are.\<close>

lemma cache_set_distinct:
  "distinct (map fst (cache c)) \<Longrightarrow>
     distinct (map fst (cache (cache_set digest t1 t2 t3 p cat qc c)))"
  by (auto simp: cache_set_def evictOldest_def Let_def distinct_update distinct_delete
           split: option.splits)

lemma cache_get_distinct:
  "distinct (map fst (cache c)) \<Longrightarrow>
     distinct (map fst (cache (snd (cache_get digest now p qc c))))"
  by (auto simp: cache_get_def Let_def distinct_delete split: option.splits)

lemma newCache_distinct: "distinct (map fst (cache (newCache ttlOption maxSizeOption)))"
  by (simp add: newCache_def)

lemma cleanup_distinct:
  "distinct (map fst (cache c)) \<Longrightarrow> distinct (map fst (cache (cleanup now c)))"
  by (simp add: cleanup_def distinct_map_filter)

text \<open>
  Claim C6, as the code has it. On a cache whose keys are distinct (a \<open>Map\<close>),
  \<open>set(p, c)\<close> followed by \<open>get(p)\<close> with the same name and context returns \<open>c\<close>, as
  long as the clock reading of the \<open>get\<close> is not past the stored expiry, whenever the
  eviction at the end of that \<open>set\<close> cannot take the entry just written: the cache is
  within \<open>maxSize\<close> after the write, or the eviction scan reads a clock value not
  later than the creation stamp, or another entry is strictly older, or the key is
  new and some entry is at least as old. Once the reading of the \<open>get\<close> is strictly
  greater than the reading at the start of \<open>set\<close> plus the TTL, the \<open>get\<close> is a miss,
  whether or not a sweep has run. On any cache a hit returns the label of a stored
  entry that is not expired at the reading of the \<open>get\<close>.
\<close>

theorem cache_set_then_get:
  "(distinct (map fst (cache c)) \<and> tGet \<le> tExpire + ttl (config c)
      \<and> (int (length (cache c)) < maxSize (config c)
          \<or> (generateCacheKey digest p qc \<in> fst ` set (cache c)
              \<and> int (length (cache c)) \<le> maxSize (config c))
          \<or> tEvict \<le> tCreated
          \<or> (\<exists>kv \<in> set (cache c). fst kv \<noteq> generateCacheKey digest p qc
                                    \<and> createdAt (snd kv) < tCreated)
          \<or> (generateCacheKey digest p qc \<notin> fst ` set (cache c)
              \<and> (\<exists>kv \<in> set (cache c). createdAt (snd kv) \<le> tCreated)))
      \<longrightarrow> fst (cache_get digest tGet p qc (cache_set digest tExpire tCreated tEvict p cat qc c))
            = Some cat)
   \<and> (tExpire + ttl (config c) < tGet \<longrightarrow>
      fst (cache_get digest tGet p qc (cache_set digest tExpire tCreated tEvict p cat qc c)) = None)
   \<and> (fst (cache_get digest now p' qc' c') = Some cat' \<longrightarrow>
      (\<exists>item. map_of (cache c') (generateCacheKey digest p' qc') = Some item
             \<and> ci_category item = cat' \<and> \<not> now > expireAt item))"
proof -
  have a: "fst (cache_get digest tGet p qc (cache_set digest tExpire tCreated tEvict p cat qc c)) = Some cat"
    if "distinct (map fst (cache c))" "tGet \<le> tExpire + ttl (config c)"
       "int (length (cache c)) < maxSize (config c)
          \<or> (generateCacheKey digest p qc \<in> fst ` set (cache c)
              \<and> int (length (cache c)) \<le> maxSize (config c))
          \<or> tEvict \<le> tCreated
          \<or> (\<exists>kv \<in> set (cache c). fst kv \<noteq> generateCacheKey digest p qc
                                    \<and> createdAt (snd kv) < tCreated)
          \<or> (generateCacheKey digest p qc \<notin> fst ` set (cache c)
              \<and> (\<exists>kv \<in> set (cache c). createdAt (snd kv) \<le> tCreated))"
    using cache_set_keeps_new [OF that(1,3), of tExpire cat] that(2)
    by (simp add: cache_get_def Let_def)
  have b: "fst (cache_get digest tGet p qc (cache_set digest tExpire tCreated tEvict p cat qc c)) = None"
    if "tExpire + ttl (config c) < tGet"
    using cache_set_lookup [of digest tExpire tCreated tEvict p cat qc c] that
    by (auto simp: cache_get_def Let_def)
  have c: "\<exists>item. map_of (cache c') (generateCacheKey digest p' qc') = Some item
                  \<and> ci_category item = cat' \<and> \<not> now > expireAt item"
    if "fst (cache_get digest now p' qc' c') = Some cat'"
    using that by (auto simp: cache_get_def Let_def split: option.splits if_splits)
  from a b c show ?thesis by blast
qed

theorem cache_set_then_get_witness:
  "distinct (map fst (cache (newCache (Some 1000) (Some 2))))
   \<and> int (length (cache (newCache (Some 1000) (Some 2))))
       < maxSize (config (newCache (Some 1000) (Some 2)))
   \<and> fst (cache_get id 7 (js ''tank'') None
            (cache_set id 5 6 7 (js ''tank'') (js ''pets'') None (newCache (Some 1000) (Some 2))))
       = Some (js ''pets'')
   \<and> fst (cache_get id 1006 (js ''tank'') None
            (cache_set id 5 6 7 (js ''tank'') (js ''pets'') None (newCache (Some 1000) (Some 2))))
       = None
   \<and> map (\<lambda>kv. createdAt (snd kv))
       (cache (cache_set id 1 1 1 (js ''lamp'') (js ''home'') None (newCache (Some 1000) (Some 1))))
       = [1]
   \<and> fst (cache_get id 7 (js ''tank'') None
            (cache_set id 5 6 7 (js ''tank'') (js ''pets'') None
               (cache_set id 1 1 1 (js ''lamp'') (js ''home'') None (newCache (Some 1000) (Some 1)))))
       = Some (js ''pets'')"
proof -
  let ?full = "cache_set id 1 1 1 (js ''lamp'') (js ''home'') None (newCache (Some 1000) (Some 1))"
  have f: "?full = \<lparr>cache = [(js ''lamp_default'',
                       \<lparr>ci_productName = js ''lamp'', ci_category = js ''home'',
                        ci_queryContext = None, createdAt = 1, expireAt = 1001\<rparr>)],
                    config = \<lparr>ttl = 1000, maxSize = 1, batchSize = 20\<rparr>,
                    stats = \<lparr>hits = 0, misses = 0, sets = 1\<rparr>\<rparr>"
    by (simp add: cache_set_def newCache_def generateCacheKey_def Let_def js_def)
  have k: "generateCacheKey id (js ''tank'') None = js ''tank_default''"
    by (simp add: generateCacheKey_def js_def)
  have n: "js ''lamp_default'' \<noteq> js ''tank_default''" by (simp add: js_def)
  show ?thesis
    using cache_set_then_get [where c = "newCache (Some 1000) (Some 2)" and tEvict = 7 and tCreated = 6
            and tGet = 7 and tExpire = 5 and digest = id and p = "js ''tank''" and qc = None
            and cat = "js ''pets''"]
          cache_set_then_get [where c = "newCache (Some 1000) (Some 2)" and tEvict = 7 and tCreated = 6
            and tGet = 1006 and tExpire = 5 and digest = id and p = "js ''tank''" and qc = None
            and cat = "js ''pets''"]
          cache_set_then_get [where c = ?full and tEvict = 7 and tCreated = 6
            and tGet = 7 and tExpire = 5 and digest = id and p = "js ''tank''" and qc = None
            and cat = "js ''pets''"]
    unfolding f k using n by (simp add: newCache_def)
qed

text \<open>
  Claim C6 as stated fails when \<open>set\<close> evicts the entry it has just written. With
  \<open>maxSize\<close> 0 the cache is over capacity after every write; when the clock ticks
  between the creation stamp (5) and the eviction scan (6), the only entry is the
  oldest one, and the \<open>get\<close> at 6, long before the expiry at 1005, is a miss. With
  \<open>maxSize\<close> 1, two products written in the same millisecond leave two entries; a
  third \<open>set\<close>, of the first product again in that millisecond, with the scan one
  tick later, evicts the entry it has just rewritten.
\<close>

theorem set_then_get_misses_when_set_evicts_its_entry:
  "fst (cache_get id 6 (js ''tank'') None
          (cache_set id 5 5 6 (js ''tank'') (js ''pets'') None (newCache (Some 1000) (Some 0))))
     = None
   \<and> fst (cache_get id 6 (js ''tank'') None
          (cache_set id 5 5 6 (js ''tank'') (js ''fish'') None
            (cache_set id 5 5 5 (js ''lamp'') (js ''home'') None
              (cache_set id 5 5 5 (js ''tank'') (js ''pets'') None
                 (newCache (Some 1000) (Some 1))))))
     = None"
  by (simp add: cache_get_def cache_set_def newCache_def generateCacheKey_def evictOldest_def
        Let_def js_def)

text \<open>
  Claim C10, as the code has it. For every entry that the cache holds, a \<open>get\<close> at
  exactly its stored expiry instant \<open>expireAt\<close> returns its label, and a \<open>get\<close> is a
  miss exactly when its clock reading is strictly greater than \<open>expireAt\<close>. The entry
  that \<open>set\<close> stores has as \<open>expireAt\<close> the clock reading at the start of \<open>set\<close> plus
  the TTL, and as \<open>createdAt\<close> a second reading of the clock.
\<close>

theorem cache_expiry_boundary:
  "(map_of (cache c) (generateCacheKey digest p qc) = Some item \<longrightarrow>
      fst (cache_get digest (expireAt item) p qc c) = Some (ci_category item)
      \<and> (fst (cache_get digest tGet p qc c) = None \<longleftrightarrow> expireAt item < tGet))
   \<and> (map_of (cache (cache_set digest tExpire tCreated tEvict p' cat qc' c'))
              (generateCacheKey digest p' qc') = Some item' \<longrightarrow>
      expireAt item' = tExpire + ttl (config c') \<and> createdAt item' = tCreated
      \<and> ci_category item' = cat)"
proof -
  have a: "fst (cache_get digest (expireAt item) p qc c) = Some (ci_category item)
      \<and> (fst (cache_get digest tGet p qc c) = None \<longleftrightarrow> expireAt item < tGet)"
    if "map_of (cache c) (generateCacheKey digest p qc) = Some item"
    using that by (simp add: cache_get_def Let_def)
  have b: "expireAt item' = tExpire + ttl (config c') \<and> createdAt item' = tCreated
      \<and> ci_category item' = cat"
    if "map_of (cache (cache_set digest tExpire tCreated tEvict p' cat qc' c'))
              (generateCacheKey digest p' qc') = Some item'"
    using that cache_set_lookup [of digest tExpire tCreated tEvict p' cat qc' c'] by auto
  from a b show ?thesis by blast
qed

theorem cache_expiry_boundary_witness:
  "map_of (cache (cache_set id 5 6 6 (js ''tank'') (js ''pets'') None (newCache (Some 1000) (Some 2))))
          (generateCacheKey id (js ''tank'') None)
     = Some \<lparr>ci_productName = js ''tank'', ci_category = js ''pets'', ci_queryContext = None,
             createdAt = 6, expireAt = 1005\<rparr>
   \<and> fst (cache_get id 1005 (js ''tank'') None
            (cache_set id 5 6 6 (js ''tank'') (js ''pets'') None (newCache (Some 1000) (Some 2))))
       = Some (js ''pets'')
   \<and> fst (cache_get id 1006 (js ''tank'') None
            (cache_set id 5 6 6 (js ''tank'') (js ''pets'') None (newCache (Some 1000) (Some 2))))
       = None"
proof -
  let ?c = "cache_set id 5 6 6 (js ''tank'') (js ''pets'') None (newCache (Some 1000) (Some 2))"
  let ?item = "\<lparr>ci_productName = js ''tank'', ci_category = js ''pets'', ci_queryContext = None,
             createdAt = 6, expireAt = 1005\<rparr>"
  have m: "map_of (cache ?c) (generateCacheKey id (js ''tank'') None) = Some ?item"
    by (simp add: cache_set_def newCache_def generateCacheKey_def Let_def)
  show ?thesis
    using m cache_expiry_boundary [where c = ?c and digest = id and p = "js ''tank''"
            and qc = None and item = ?item and tGet = 1006 and c' = "newCache (Some 1000) (Some 2)"
            and tExpire = 5 and tCreated = 6 and tEvict = 6 and p' = "js ''tank''"
            and cat = "js ''pets''" and qc' = None and item' = ?item]
    by simp
qed

text \<open>
  Claim C10 as stated takes the stored expiry instant to be the creation time plus the
  TTL. \<open>set\<close> reads the clock twice, first for \<open>expireAt\<close> and then for \<open>createdAt\<close>:
  when the clock ticks between the two readings (5 and 6), the entry expires at 1005
  and a \<open>get\<close> at its creation time plus the TTL, 1006, is a miss.
\<close>

theorem get_at_creation_plus_ttl_misses:
  "map_of (cache (cache_set id 5 6 6 (js ''tank'') (js ''pets'') None (newCache (Some 1000) (Some 2))))
          (generateCacheKey id (js ''tank'') None)
     = Some \<lparr>ci_productName = js ''tank'', ci_category = js ''pets'', ci_queryContext = None,
             createdAt = 6, expireAt = 1005\<rparr>
   \<and> fst (cache_get id (6 + 1000) (js ''tank'') None
            (cache_set id 5 6 6 (js ''tank'') (js ''pets'') None (newCache (Some 1000) (Some 2))))
       = None"
  by (simp add: cache_get_def cache_set_def newCache_def generateCacheKey_def Let_def)

text \<open>
  When the clock has moved between the creation of the new entry and the eviction scan,
  the scan finds an entry and \<open>set\<close> keeps the cache within \<open>maxSize\<close> (the keys are
  hexadecimal digests, never empty).
\<close>

lemma cache_set_bounded:
  assumes d: "distinct (map fst (cache c))"
    and b: "int (length (cache c)) \<le> maxSize (config c)"
    and t: "tCreated < tEvict"
    and k: "\<forall>key \<in> fst ` set (cache c). key \<noteq> []" "generateCacheKey digest productName qc \<noteq> []"
  shows "int (length (cache (cache_set digest tExpire tCreated tEvict productName category qc c)))
           \<le> maxSize (config c)"
proof -
  define key where "key = generateCacheKey digest productName qc"
  define item where "item = \<lparr>ci_productName = productName, ci_category = category,
                  ci_queryContext = map_option originalQuery qc,
                  createdAt = tCreated, expireAt = tExpire + ttl (config c)\<rparr>"
  define ys where "ys = AList.update key item (cache c)"
  have dy: "distinct (map fst ys)" using d by (simp add: ys_def distinct_update)
  have ly: "length ys \<le> Suc (length (cache c))" by (simp add: ys_def length_update_le)
  have my: "(key, item) \<in> set ys"
    using d by (simp add: ys_def update_mem)
  have ky: "\<forall>k' \<in> fst ` set ys. k' \<noteq> []"
    using k by (auto simp: ys_def key_def dom_update)
  show ?thesis
  proof (cases "int (length ys) > maxSize (config c)")
    case False
    then show ?thesis
      by (simp add: cache_set_def Let_def key_def [symmetric] item_def [symmetric] ys_def [symmetric])
  next
    case True
    have "createdAt item < tEvict" using t by (simp add: item_def)
    from evictScan_finds [OF my this] obtain k' where s: "evictScan ys None tEvict = Some k'"
      by auto
    from evictScan_oldest [OF s] have "k' \<in> fst ` set ys" by force
    with ky length_delete_key [OF dy] have "k' \<noteq> []" "Suc (length (AList.delete k' ys)) = length ys"
      by auto
    with True ly b s show ?thesis
      by (simp add: cache_set_def Let_def key_def [symmetric] item_def [symmetric]
          ys_def [symmetric] evictOldest_def)
  qed
qed

text \<open>
  Claim C9. The bound on the number of entries after \<open>set\<close> fails when every stored
  entry was created at the clock reading of the eviction scan: \<open>evictOldest\<close> starts
  \<open>oldestTime\<close> at that reading and compares strictly, so no entry is chosen. With
  \<open>maxSize = 1\<close>, two \<open>set\<close>s of different products in the same millisecond leave
  two entries.
\<close>

theorem cache_set_exceeds_maxSize:
  "length (cache (cache_set id 5 5 5 (js ''lamp'') (js ''pets'') None
                   (cache_set id 5 5 5 (js ''tank'') (js ''pets'') None (newCache (Some 1000) (Some 1))))) = 2
   \<and> maxSize (config (cache_set id 5 5 5 (js ''lamp'') (js ''pets'') None
                   (cache_set id 5 5 5 (js ''tank'') (js ''pets'') None (newCache (Some 1000) (Some 1))))) = 1"
  by (simp add: cache_set_def newCache_def generateCacheKey_def evictOldest_def Let_def js_def)

section \<open>Properties of the repair step\<close>

text \<open>
  Claim C8. A text that parses under the strict \<open>JSON.parse\<close> is returned by
  \<open>repairJSON\<close> as exactly that parse; no repair is applied to it. The example is a
  valid text that the repairs would turn into one that no longer parses.
\<close>

theorem repairJSON_valid_unchanged:
  "parse s = Some v \<Longrightarrow> repairJSON parse s = Inr v"
  by (simp add: repairJSON_def)

theorem repairJSON_valid_unchanged_witness:
  "exampleParse validText = Some (JObj [(js ''a'', JStr (js ''b''))])
   \<and> repairJSON exampleParse validText = Inr (JObj [(js ''a'', JStr (js ''b''))])
   \<and> repairSteps validText \<noteq> validText
   \<and> exampleParse (repairSteps validText) = None"
proof -
  have p: "exampleParse validText = Some (JObj [(js ''a'', JStr (js ''b''))])"
    by (simp add: exampleParse_def validText_def js_def)
  have r: "repairSteps validText = [lbrace, dquote, 97, dquote, dquote, 98, dquote, rbrace]"
    by (simp add: repairSteps_def validText_def beforeClose_def isSpace_def stopsDrop_def
                  closeOpen_def isControl_def Let_def)
  have n: "exampleParse (repairSteps validText) = None"
    unfolding r by (simp add: exampleParse_def validText_def js_def)
  have d: "repairSteps validText \<noteq> validText"
    unfolding r by (simp add: validText_def)
  from repairJSON_valid_unchanged [of exampleParse validText, OF p] p d n show ?thesis
    by blast
qed

section \<open>Category statistics\<close>

text \<open>
  Claim C5. On the keyword path the reported average is not the average over the
  members with a positive price: \<open>useKeywordMatching\<close> divides the sum of all prices
  by the number of all members. For a lamp at 100 and a desk without a price, in one
  category, it reports 50; the average over the positive prices of the members is
  100, which is what the statistics of a parsed category and of
  \<open>createCategoryFromProducts\<close> give.
\<close>

theorem keyword_average_counts_unpriced:
  "map_sum id (map (\<lambda>c. pr_avg (c_priceRange c)))
       (useKeywordMatching exampleRuntime (js ''other'') [lamp, desk] (Some (js ''light'')))
     = Inr [50]
   \<and> map_sum id (map (\<lambda>c. pr_avg (priceRangeOf (c_products c))))
       (useKeywordMatching exampleRuntime (js ''other'') [lamp, desk] (Some (js ''light'')))
     = Inr [100]
   \<and> map_sum id (map c_products)
       (useKeywordMatching exampleRuntime (js ''other'') [lamp, desk] (Some (js ''light'')))
     = Inr [[lamp, desk]]"
  by (simp add: useKeywordMatching_def keywordMatch_def exampleRuntime_def lamp_def desk_def
                js_def groupToCategory_def addToGroup_def newGroup_def roundDiv_def
                priceRangeOf_def positivePrices_def mathMin_def mathMax_def Let_def)
section \<open>Evaluation of the concrete inputs\<close>

lemma geminiLoop_numeral:
  "geminiLoop rt net cfg products (numeral k) attempt lastError s =
     (let s1 = emit (Posted Gemini attempt) s in
      case replyText (geminiPost net (postsSent Gemini s)) of
        Inr result \<Rightarrow>
          (Inr (parseClassificationResult rt (defaultCategory cfg) result products), s1)
      | Inl e \<Rightarrow>
          geminiLoop rt net cfg products (pred_numeral k) (attempt + 1) e
            (geminiDelay cfg attempt e s1))"
  by (simp only: numeral_eq_Suc geminiLoop.simps)

lemma ollamaLoop_numeral:
  "ollamaLoop rt net cfg products (numeral k) attempt lastError s =
     (let s1 = emit (Posted Ollama attempt) s in
      case replyText (ollamaPost net (postsSent Ollama s)) of
        Inr result \<Rightarrow>
          (Inr (parseClassificationResult rt (defaultCategory cfg) result products), s1)
      | Inl e \<Rightarrow>
          if connectionRefused e then (Inl OllamaNotRunning, s1)
          else ollamaLoop rt net cfg products (pred_numeral k) (attempt + 1) e
                 (if int attempt < o_maxRetries (ollama cfg)
                  then emit (Waited (o_retryDelay (ollama cfg))) s1 else s1))"
  by (simp only: numeral_eq_Suc ollamaLoop.simps)

lemma reply_A: "replyText (Answer (js ''{A}'')) = Inr (js ''{A}'')"
  by (simp add: replyText_def trim_def isSpace_def js_def)

lemma parse_A:
  "parseClassificationResult exampleRuntime d (js ''{A}'') [lamp] =
     [\<lparr>c_name = JStr (js ''A''), c_totalProducts = 1,
              c_priceRange = \<lparr>pr_min = 100, pr_max = 100, pr_avg = 100\<rparr>,
              c_platforms = [js ''momo''], c_products = [lamp]\<rparr>]"
  by code_simp

lemma gemini_A:
  "fst (useGemini exampleRuntime exampleNetwork (exampleConfig True p order) [lamp] s) =
     Inr [\<lparr>c_name = JStr (js ''A''), c_totalProducts = 1,
              c_priceRange = \<lparr>pr_min = 100, pr_max = 100, pr_avg = 100\<rparr>,
              c_platforms = [js ''momo''], c_products = [lamp]\<rparr>]"
proof -
  have k: "js ''key'' \<noteq> []" by (simp add: js_def)
  show ?thesis
    by (simp add: useGemini_def exampleConfig_def geminiLoop_numeral exampleNetwork_def reply_A
          parse_A k Let_def)
qed

lemma tryLLMCategorization_gemini:
  assumes "fst (useGemini rt net cfg products s) = Inr categories"
      and "gm_enabled (gemini cfg)" and "gm_apiKey (gemini cfg) \<noteq> []"
  shows "fst (tryLLMCategorization rt net cfg products keyword s)
           = Inr (succeeded Gemini categories products)"
proof -
  obtain s1 where "useGemini rt net cfg products s = (Inr categories, s1)"
    using assms(1) by (cases "useGemini rt net cfg products s") auto
  with assms(2,3) show ?thesis
    by (simp add: tryLLMCategorization_def categorizeWithGemini_def)
qed

lemma example_gemini_answer:
  "fst (tryLLMCategorization exampleRuntime exampleNetwork
          (exampleConfig True Auto [Gemini, Ollama, Keyword]) [lamp] (js ''lamp'') newService)
   = Inr (succeeded Gemini
           [\<lparr>c_name = JStr (js ''A''), c_totalProducts = 1,
              c_priceRange = \<lparr>pr_min = 100, pr_max = 100, pr_avg = 100\<rparr>,
              c_platforms = [js ''momo''], c_products = [lamp]\<rparr>] [lamp])"
proof -
  have e: "gm_enabled (gemini (exampleConfig True Auto [Gemini, Ollama, Keyword]))"
          "gm_apiKey (gemini (exampleConfig True Auto [Gemini, Ollama, Keyword])) \<noteq> []"
    by (simp_all add: exampleConfig_def js_def)
  show ?thesis
    using tryLLMCategorization_gemini [OF gemini_A e] .
qed

section \<open>Properties of the crawl orchestrator\<close>

lemma failedOf_all:
  "\<forall>(name, r) \<in> set results. \<not> fetchSucceeded r \<Longrightarrow>
     successfulOf results = [] \<and> failedOf results = map (\<lambda>(name, r). (name, failureReason r)) results"
proof (induction results rule: successfulOf.induct)
  case 1
  then show ?case by simp
next
  case (2 platformName v rest)
  then show ?case by (simp add: fetchSucceeded_def)
next
  case (3 platformName message rest)
  then show ?case by (simp add: fetchSucceeded_def)
qed

text \<open>
  Claim C7, as the code has it. When no source is requested, or every requested source
  fails, \<open>searchProducts\<close> returns a success result with zero products and an empty
  list of categories, lists every requested platform with the reason of its failure,
  and leaves the provider health state untouched: the classification is not invoked.
\<close>

theorem empty_crawl_is_empty_success:
  assumes "\<forall>(name, r) \<in> set (settleAll crawl (platforms options)). \<not> fetchSucceeded r"
  shows "searchProducts rt net cfg crawl keyword options s =
           (\<lparr>sr_success = True, sr_mode = ''category_summary'', sr_categories = [],
             sr_products = [], sr_totalProducts = 0, sr_platformResults = [],
             sr_failedPlatforms = map (\<lambda>(name, r). (name, failureReason r))
                                      (settleAll crawl (platforms options)),
             sr_error = None\<rparr>, s)"
  using failedOf_all [OF assms]
  by (simp add: searchProducts_def searchBody_def mergeProducts_def Let_def)

theorem empty_crawl_is_empty_success_witness:
  "settleAll exampleCrawl [] = []
   \<and> fst (searchProducts exampleRuntime exampleNetwork (exampleConfig True Auto [Gemini, Ollama, Keyword])
            exampleCrawl (js ''lamp'') (defaultOptions\<lparr>platforms := []\<rparr>) newService)
       = \<lparr>sr_success = True, sr_mode = ''category_summary'', sr_categories = [],
          sr_products = [], sr_totalProducts = 0, sr_platformResults = [],
          sr_failedPlatforms = [], sr_error = None\<rparr>
   \<and> map (\<lambda>(name, r). fetchSucceeded r) (settleAll exampleCrawl [js ''pchome'', js ''yahoo''])
       = [False, False]
   \<and> sr_success (fst (searchProducts exampleRuntime exampleNetwork (exampleConfig True Auto [Gemini, Ollama, Keyword])
            exampleCrawl (js ''lamp'') (defaultOptions\<lparr>platforms := [js ''pchome'', js ''yahoo'']\<rparr>) newService))
   \<and> map fst (sr_failedPlatforms (fst (searchProducts exampleRuntime exampleNetwork (exampleConfig True Auto [Gemini, Ollama, Keyword])
            exampleCrawl (js ''lamp'') (defaultOptions\<lparr>platforms := [js ''pchome'', js ''yahoo'']\<rparr>) newService)))
       = [js ''pchome'', js ''yahoo'']"
proof -
  have h1: "\<forall>(name, r) \<in> set (settleAll exampleCrawl (platforms (defaultOptions\<lparr>platforms := []\<rparr>))). \<not> fetchSucceeded r"
    by (simp add: settleAll_def)
  have e2: "map (\<lambda>(name, r). fetchSucceeded r) (settleAll exampleCrawl [js ''pchome'', js ''yahoo''])
              = [False, False]"
    by (simp add: settleAll_def searchSinglePlatform_def registeredCrawlers_def exampleCrawl_def
                  fetchSucceeded_def js_def)
  have h2: "\<forall>(name, r) \<in> set (settleAll exampleCrawl (platforms (defaultOptions\<lparr>platforms := [js ''pchome'', js ''yahoo'']\<rparr>))). \<not> fetchSucceeded r"
    by (simp add: settleAll_def searchSinglePlatform_def registeredCrawlers_def exampleCrawl_def
                  fetchSucceeded_def js_def)
  show ?thesis
    using h1 e2
      empty_crawl_is_empty_success [OF h1, of exampleRuntime exampleNetwork
         "exampleConfig True Auto [Gemini, Ollama, Keyword]" "js ''lamp''" newService]
      empty_crawl_is_empty_success [OF h2, of exampleRuntime exampleNetwork
         "exampleConfig True Auto [Gemini, Ollama, Keyword]" "js ''lamp''" newService]
    by (simp add: settleAll_def)
qed

text \<open>Claim C7 as stated fails: with no source, the result has no category at all, not
  a single empty one.\<close>

theorem zero_sources_no_category:
  "sr_success (fst (searchProducts exampleRuntime exampleNetwork
            (exampleConfig True Auto [Gemini, Ollama, Keyword])
            exampleCrawl (js ''lamp'') (defaultOptions\<lparr>platforms := []\<rparr>) newService))
   \<and> length (sr_categories (fst (searchProducts exampleRuntime exampleNetwork
            (exampleConfig True Auto [Gemini, Ollama, Keyword])
            exampleCrawl (js ''lamp'') (defaultOptions\<lparr>platforms := []\<rparr>) newService))) \<noteq> 1"
  by (simp add: searchProducts_def searchBody_def settleAll_def mergeProducts_def
                defaultOptions_def Let_def)


lemma settleAll_nth:
  "i < length names \<Longrightarrow>
     settleAll crawl names ! i = (names ! i, searchSinglePlatform crawl i (names ! i))"
  by (simp add: settleAll_def nth_enumerate_eq)

lemma settleAll_mem:
  "i < length names \<Longrightarrow>
     (names ! i, searchSinglePlatform crawl i (names ! i)) \<in> set (settleAll crawl names)"
  using settleAll_nth [of i names crawl] by (metis length_map length_enumerate nth_mem settleAll_def)

lemma failedOf_mem:
  "(name, r) \<in> set results \<Longrightarrow> \<not> fetchSucceeded r \<Longrightarrow>
     (name, failureReason r) \<in> set (failedOf results)"
  by (induction results rule: failedOf.induct) (auto simp: fetchSucceeded_def)

lemma successfulOf_mem:
  "(name, Fulfilled v) \<in> set results \<Longrightarrow> cr_success v \<Longrightarrow>
     (name, v) \<in> set (successfulOf results)"
  by (induction results rule: successfulOf.induct) auto

lemma mergeProducts_mem:
  "(name, v) \<in> set successfulResults \<Longrightarrow>
     set (platformProducts (name, v)) \<subseteq> set (mergeProducts successfulResults)"
  by (auto simp: mergeProducts_def)

lemma platformProducts_length: "length (platformProducts r) = length (cr_products (snd r))"
  by (simp add: platformProducts_def Let_def)

lemma set_sortProducts: "set (sortProducts order ps) = set ps"
  by (simp add: sortProducts_def)

lemma merged_nonempty:
  assumes "(name, v) \<in> set successfulResults" and "cr_products v \<noteq> []"
  shows "mergeProducts successfulResults \<noteq> []"
proof -
  from assms(2) have "platformProducts (name, v) \<noteq> []"
    using platformProducts_length [of "(name, v)"] by auto
  with mergeProducts_mem [OF assms(1)] show ?thesis by auto
qed

lemma searchProducts_empty:
  assumes "mergeProducts (successfulOf (settleAll crawl (platforms options))) = []"
  shows "searchProducts rt net cfg crawl keyword options s =
           (\<lparr>sr_success = True, sr_mode = ''category_summary'', sr_categories = [],
             sr_products = [], sr_totalProducts = 0, sr_platformResults = [],
             sr_failedPlatforms = failedOf (settleAll crawl (platforms options)),
             sr_error = None\<rparr>, s)"
  using assms by (simp add: searchProducts_def searchBody_def Let_def)

lemma searchProducts_list:
  assumes "mergeProducts (successfulOf (settleAll crawl (platforms options))) \<noteq> []"
      and "\<not> enableCategorySummary options"
  shows "searchProducts rt net cfg crawl keyword options s =
           (\<lparr>sr_success = True, sr_mode = ''product_list'', sr_categories = [],
             sr_products = sortProducts (sortBy options)
                 (mergeProducts (successfulOf (settleAll crawl (platforms options)))),
             sr_totalProducts =
                 length (mergeProducts (successfulOf (settleAll crawl (platforms options)))),
             sr_platformResults = successfulOf (settleAll crawl (platforms options)),
             sr_failedPlatforms = failedOf (settleAll crawl (platforms options)),
             sr_error = None\<rparr>, s)"
  using assms by (simp add: searchProducts_def searchBody_def Let_def)

lemma searchProducts_summary:
  assumes "mergeProducts (successfulOf (settleAll crawl (platforms options))) \<noteq> []"
      and "enableCategorySummary options"
      and "fst (tryLLMCategorization rt net cfg
                  (mergeProducts (successfulOf (settleAll crawl (platforms options)))) keyword s)
             = Inr categoryResult"
  shows "fst (searchProducts rt net cfg crawl keyword options s) =
           \<lparr>sr_success = True, sr_mode = ''category_summary'',
            sr_categories = cl_categories categoryResult,
            sr_products = [],
            sr_totalProducts =
                length (mergeProducts (successfulOf (settleAll crawl (platforms options)))),
            sr_platformResults = successfulOf (settleAll crawl (platforms options)),
            sr_failedPlatforms = failedOf (settleAll crawl (platforms options)),
            sr_error = None\<rparr>"
proof -
  let ?merged = "mergeProducts (successfulOf (settleAll crawl (platforms options)))"
  obtain s1 where "tryLLMCategorization rt net cfg ?merged keyword s = (Inr categoryResult, s1)"
    using assms(3) by (cases "tryLLMCategorization rt net cfg ?merged keyword s") auto
  with assms(1,2) show ?thesis
    by (simp add: searchProducts_def searchBody_def Let_def)
qed

lemma searchProducts_thrown:
  assumes "mergeProducts (successfulOf (settleAll crawl (platforms options))) \<noteq> []"
      and "enableCategorySummary options"
      and "fst (tryLLMCategorization rt net cfg
                  (mergeProducts (successfulOf (settleAll crawl (platforms options)))) keyword s)
             = Inl e"
  shows "fst (searchProducts rt net cfg crawl keyword options s) =
           \<lparr>sr_success = False, sr_mode = [], sr_categories = [], sr_products = [],
            sr_totalProducts = 0, sr_platformResults = [], sr_failedPlatforms = [],
            sr_error = Some e\<rparr>"
proof -
  let ?merged = "mergeProducts (successfulOf (settleAll crawl (platforms options)))"
  obtain s1 where "tryLLMCategorization rt net cfg ?merged keyword s = (Inl e, s1)"
    using assms(3) by (cases "tryLLMCategorization rt net cfg ?merged keyword s") auto
  with assms(1,2) show ?thesis
    by (simp add: searchProducts_def searchBody_def Let_def)
qed

lemma searchProducts_never_throws:
  "sr_success (fst (searchProducts rt net cfg crawl keyword options s))
   \<or> (\<exists>e. fst (searchProducts rt net cfg crawl keyword options s)
            = \<lparr>sr_success = False, sr_mode = [], sr_categories = [], sr_products = [],
               sr_totalProducts = 0, sr_platformResults = [], sr_failedPlatforms = [],
               sr_error = Some e\<rparr>)"
proof -
  let ?merged = "mergeProducts (successfulOf (settleAll crawl (platforms options)))"
  show ?thesis
  proof (cases "?merged = []")
    case True
    from searchProducts_empty [OF True] show ?thesis by simp
  next
    case False
    show ?thesis
    proof (cases "enableCategorySummary options")
      case nolist: False
      from searchProducts_list [OF False nolist] show ?thesis by simp
    next
      case True
      show ?thesis
      proof (cases "fst (tryLLMCategorization rt net cfg ?merged keyword s)")
        case (Inl e)
        from searchProducts_thrown [OF False True Inl] show ?thesis by simp
      next
        case (Inr categoryResult)
        from searchProducts_summary [OF False True Inr] show ?thesis by simp
      qed
    qed
  qed
qed

text \<open>
  Claim C2, as the code has it. Let one fetcher fail and another succeed.
  \<^item> When the merged batch is not empty and its classification does not throw, or
    no category summary is requested, \<open>searchProducts\<close> returns a success result that
    lists the failing platform with its reason in \<open>failedPlatforms\<close> and holds the
    result of the successful fetcher, with its products, in \<open>platformResults\<close>; in
    list mode its products are in \<open>products\<close>, in summary mode the categories are
    those of the classification.
  \<^item> The merged batch is not empty as soon as the successful fetcher delivered a
    product.
  \<^item> When the merged batch is empty, the result is the empty success: the failing
    platform with its reason is in \<open>failedPlatforms\<close>, and \<open>platformResults\<close> is empty.
  \<^item> When the classification throws, the result is the failure object of the
    \<open>catch\<close>, whose lists are all empty.
  \<^item> For every combination of outcomes no exception leaves the function: the result
    is a success or that failure object.
\<close>

theorem crawl_isolation:
  "(i < length (platforms options)
      \<and> \<not> fetchSucceeded (searchSinglePlatform crawl i (platforms options ! i))
      \<and> j < length (platforms options)
      \<and> searchSinglePlatform crawl j (platforms options ! j) = Fulfilled v \<and> cr_success v
      \<and> mergeProducts (successfulOf (settleAll crawl (platforms options))) \<noteq> []
      \<and> (enableCategorySummary options \<longrightarrow>
            fst (tryLLMCategorization rt net cfg
               (mergeProducts (successfulOf (settleAll crawl (platforms options)))) keyword s)
             = Inr categoryResult)
    \<longrightarrow> sr_success (fst (searchProducts rt net cfg crawl keyword options s))
       \<and> (platforms options ! i,
            failureReason (searchSinglePlatform crawl i (platforms options ! i)))
           \<in> set (sr_failedPlatforms (fst (searchProducts rt net cfg crawl keyword options s)))
       \<and> (platforms options ! j, v)
           \<in> set (sr_platformResults (fst (searchProducts rt net cfg crawl keyword options s)))
       \<and> (\<not> enableCategorySummary options \<longrightarrow>
            set (platformProducts (platforms options ! j, v))
              \<subseteq> set (sr_products (fst (searchProducts rt net cfg crawl keyword options s))))
       \<and> (enableCategorySummary options \<longrightarrow>
            sr_categories (fst (searchProducts rt net cfg crawl keyword options s))
              = cl_categories categoryResult))
   \<and> (j < length (platforms options)
      \<and> searchSinglePlatform crawl j (platforms options ! j) = Fulfilled v \<and> cr_success v
      \<and> cr_products v \<noteq> []
    \<longrightarrow> mergeProducts (successfulOf (settleAll crawl (platforms options))) \<noteq> [])
   \<and> (i < length (platforms options)
      \<and> \<not> fetchSucceeded (searchSinglePlatform crawl i (platforms options ! i))
      \<and> mergeProducts (successfulOf (settleAll crawl (platforms options))) = []
    \<longrightarrow> sr_success (fst (searchProducts rt net cfg crawl keyword options s))
       \<and> (platforms options ! i,
            failureReason (searchSinglePlatform crawl i (platforms options ! i)))
           \<in> set (sr_failedPlatforms (fst (searchProducts rt net cfg crawl keyword options s)))
       \<and> sr_platformResults (fst (searchProducts rt net cfg crawl keyword options s)) = []
       \<and> sr_categories (fst (searchProducts rt net cfg crawl keyword options s)) = []
       \<and> sr_products (fst (searchProducts rt net cfg crawl keyword options s)) = [])
   \<and> (mergeProducts (successfulOf (settleAll crawl (platforms options))) \<noteq> []
      \<and> enableCategorySummary options
      \<and> fst (tryLLMCategorization rt net cfg
               (mergeProducts (successfulOf (settleAll crawl (platforms options)))) keyword s)
          = Inl e
    \<longrightarrow> fst (searchProducts rt net cfg crawl keyword options s)
          = \<lparr>sr_success = False, sr_mode = [], sr_categories = [], sr_products = [],
             sr_totalProducts = 0, sr_platformResults = [], sr_failedPlatforms = [],
             sr_error = Some e\<rparr>)
   \<and> (sr_success (fst (searchProducts rt net cfg crawl keyword options s))
       \<or> (\<exists>e'. fst (searchProducts rt net cfg crawl keyword options s)
                = \<lparr>sr_success = False, sr_mode = [], sr_categories = [], sr_products = [],
                   sr_totalProducts = 0, sr_platformResults = [], sr_failedPlatforms = [],
                   sr_error = Some e'\<rparr>))"
proof -
  let ?results = "settleAll crawl (platforms options)"
  let ?merged = "mergeProducts (successfulOf ?results)"
  let ?r = "fst (searchProducts rt net cfg crawl keyword options s)"
  have fa: "(platforms options ! i,
              failureReason (searchSinglePlatform crawl i (platforms options ! i)))
             \<in> set (failedOf ?results)"
    if "i < length (platforms options)"
       "\<not> fetchSucceeded (searchSinglePlatform crawl i (platforms options ! i))"
    using failedOf_mem [OF settleAll_mem [OF that(1)] that(2)] .
  have sb: "(platforms options ! j, v) \<in> set (successfulOf ?results)"
    if "j < length (platforms options)"
       "searchSinglePlatform crawl j (platforms options ! j) = Fulfilled v" "cr_success v"
    using successfulOf_mem [OF _ that(3)] settleAll_mem [OF that(1), of crawl] that(2) by simp
  have a: "sr_success ?r
       \<and> (platforms options ! i,
            failureReason (searchSinglePlatform crawl i (platforms options ! i)))
           \<in> set (sr_failedPlatforms ?r)
       \<and> (platforms options ! j, v) \<in> set (sr_platformResults ?r)
       \<and> (\<not> enableCategorySummary options \<longrightarrow>
            set (platformProducts (platforms options ! j, v)) \<subseteq> set (sr_products ?r))
       \<and> (enableCategorySummary options \<longrightarrow> sr_categories ?r = cl_categories categoryResult)"
    if h: "i < length (platforms options)"
       "\<not> fetchSucceeded (searchSinglePlatform crawl i (platforms options ! i))"
       "j < length (platforms options)"
       "searchSinglePlatform crawl j (platforms options ! j) = Fulfilled v" "cr_success v"
       "?merged \<noteq> []"
       "enableCategorySummary options \<longrightarrow>
            fst (tryLLMCategorization rt net cfg ?merged keyword s) = Inr categoryResult"
  proof (cases "enableCategorySummary options")
    case True
    with h(7) have "fst (tryLLMCategorization rt net cfg ?merged keyword s) = Inr categoryResult"
      by simp
    from searchProducts_summary [OF h(6) True this] fa [OF h(1,2)] sb [OF h(3,4,5)] True
    show ?thesis by simp
  next
    case False
    from searchProducts_list [OF h(6) False, of rt net cfg keyword s]
         fa [OF h(1,2)] sb [OF h(3,4,5)] mergeProducts_mem [OF sb [OF h(3,4,5)]] False
    show ?thesis by (simp add: set_sortProducts)
  qed
  have b: "?merged \<noteq> []"
    if "j < length (platforms options)"
       "searchSinglePlatform crawl j (platforms options ! j) = Fulfilled v" "cr_success v"
       "cr_products v \<noteq> []"
    using merged_nonempty [OF sb [OF that(1,2,3)] that(4)] .
  have c: "sr_success ?r
       \<and> (platforms options ! i,
            failureReason (searchSinglePlatform crawl i (platforms options ! i)))
           \<in> set (sr_failedPlatforms ?r)
       \<and> sr_platformResults ?r = [] \<and> sr_categories ?r = [] \<and> sr_products ?r = []"
    if "i < length (platforms options)"
       "\<not> fetchSucceeded (searchSinglePlatform crawl i (platforms options ! i))"
       "?merged = []"
    using searchProducts_empty [OF that(3), of rt net cfg keyword s] fa [OF that(1,2)] by simp
  have d: "?r = \<lparr>sr_success = False, sr_mode = [], sr_categories = [], sr_products = [],
             sr_totalProducts = 0, sr_platformResults = [], sr_failedPlatforms = [],
             sr_error = Some e\<rparr>"
    if "?merged \<noteq> []" "enableCategorySummary options"
       "fst (tryLLMCategorization rt net cfg ?merged keyword s) = Inl e"
    using searchProducts_thrown [OF that] .
  from a b c d searchProducts_never_throws [of rt net cfg crawl keyword options s]
  show ?thesis by blast
qed

lemma example_merged:
  "mergeProducts (successfulOf (settleAll exampleCrawl (platforms defaultOptions))) = [lamp]"
  by (simp add: mergeProducts_def settleAll_def defaultOptions_def searchSinglePlatform_def
        registeredCrawlers_def exampleCrawl_def js_def platformProducts_def lamp_def)

lemma example_settled:
  "searchSinglePlatform exampleCrawl 0 (platforms defaultOptions ! 0) = RejectedWith (js ''timeout'')"
  "searchSinglePlatform exampleCrawl 1 (platforms defaultOptions ! 1)
     = Fulfilled \<lparr>cr_success = True, cr_products = [lamp],
                     cr_platform = Some (js ''momo''), cr_error = []\<rparr>"
  by (simp_all add: defaultOptions_def searchSinglePlatform_def registeredCrawlers_def
        exampleCrawl_def js_def)

lemma barren_merged:
  "mergeProducts (successfulOf (settleAll barrenCrawl (platforms defaultOptions))) = []"
  by (simp add: mergeProducts_def settleAll_def defaultOptions_def searchSinglePlatform_def
        registeredCrawlers_def barrenCrawl_def js_def platformProducts_def)

lemma barren_settled:
  "searchSinglePlatform barrenCrawl 0 (platforms defaultOptions ! 0) = RejectedWith (js ''timeout'')"
  "searchSinglePlatform barrenCrawl 1 (platforms defaultOptions ! 1)
     = Fulfilled \<lparr>cr_success = True, cr_products = [],
                     cr_platform = Some (js ''momo''), cr_error = []\<rparr>"
  by (simp_all add: defaultOptions_def searchSinglePlatform_def registeredCrawlers_def
        barrenCrawl_def js_def)

lemma example_both_disabled:
  "fst (tryLLMCategorization exampleRuntime exampleNetwork
          (exampleConfig False Auto [Keyword]) products keyword newService) = Inl OllamaDisabled"
  by (simp add: tryLLMCategorization_def categorizeWithGemini_def categorizeWithOllama_def
        exampleConfig_def)

theorem crawl_isolation_witness:
  "\<not> fetchSucceeded (searchSinglePlatform exampleCrawl 0 (platforms defaultOptions ! 0))
   \<and> searchSinglePlatform exampleCrawl 1 (platforms defaultOptions ! 1)
       = Fulfilled \<lparr>cr_success = True, cr_products = [lamp],
                       cr_platform = Some (js ''momo''), cr_error = []\<rparr>
   \<and> sr_success (fst (searchProducts exampleRuntime exampleNetwork
          (exampleConfig True Auto [Gemini, Ollama, Keyword]) exampleCrawl (js ''lamp'')
          defaultOptions newService))
   \<and> (js ''pchome'', js ''timeout'')
       \<in> set (sr_failedPlatforms (fst (searchProducts exampleRuntime exampleNetwork
          (exampleConfig True Auto [Gemini, Ollama, Keyword]) exampleCrawl (js ''lamp'')
          defaultOptions newService)))
   \<and> (js ''momo'', \<lparr>cr_success = True, cr_products = [lamp],
                       cr_platform = Some (js ''momo''), cr_error = []\<rparr>)
       \<in> set (sr_platformResults (fst (searchProducts exampleRuntime exampleNetwork
          (exampleConfig True Auto [Gemini, Ollama, Keyword]) exampleCrawl (js ''lamp'')
          defaultOptions newService)))
   \<and> map c_products (sr_categories (fst (searchProducts exampleRuntime exampleNetwork
          (exampleConfig True Auto [Gemini, Ollama, Keyword]) exampleCrawl (js ''lamp'')
          defaultOptions newService))) = [[lamp]]
   \<and> set (platformProducts (js ''momo'', \<lparr>cr_success = True, cr_products = [lamp],
                       cr_platform = Some (js ''momo''), cr_error = []\<rparr>))
       \<subseteq> set (sr_products (fst (searchProducts exampleRuntime exampleNetwork
          (exampleConfig True Auto [Gemini, Ollama, Keyword]) exampleCrawl (js ''lamp'')
          (defaultOptions\<lparr>enableCategorySummary := False\<rparr>) newService)))
   \<and> searchSinglePlatform barrenCrawl 1 (platforms defaultOptions ! 1)
       = Fulfilled \<lparr>cr_success = True, cr_products = [],
                       cr_platform = Some (js ''momo''), cr_error = []\<rparr>
   \<and> sr_success (fst (searchProducts exampleRuntime exampleNetwork
          (exampleConfig True Auto [Gemini, Ollama, Keyword]) barrenCrawl (js ''lamp'')
          defaultOptions newService))
   \<and> (js ''pchome'', js ''timeout'')
       \<in> set (sr_failedPlatforms (fst (searchProducts exampleRuntime exampleNetwork
          (exampleConfig True Auto [Gemini, Ollama, Keyword]) barrenCrawl (js ''lamp'')
          defaultOptions newService)))
   \<and> sr_platformResults (fst (searchProducts exampleRuntime exampleNetwork
          (exampleConfig True Auto [Gemini, Ollama, Keyword]) barrenCrawl (js ''lamp'')
          defaultOptions newService)) = []
   \<and> fst (searchProducts exampleRuntime exampleNetwork
          (exampleConfig False Auto [Keyword]) exampleCrawl (js ''lamp'') defaultOptions newService)
       = \<lparr>sr_success = False, sr_mode = [], sr_categories = [], sr_products = [],
          sr_totalProducts = 0, sr_platformResults = [], sr_failedPlatforms = [],
          sr_error = Some OllamaDisabled\<rparr>"
proof -
  let ?v = "\<lparr>cr_success = True, cr_products = [lamp],
              cr_platform = Some (js ''momo''), cr_error = []\<rparr>"
  let ?w = "\<lparr>cr_success = True, cr_products = [],
              cr_platform = Some (js ''momo''), cr_error = []\<rparr>"
  let ?on = "exampleConfig True Auto [Gemini, Ollama, Keyword]"
  let ?off = "exampleConfig False Auto [Keyword]"
  let ?list = "defaultOptions\<lparr>enableCategorySummary := False\<rparr>"
  let ?answer = "succeeded Gemini
           [\<lparr>c_name = JStr (js ''A''), c_totalProducts = 1,
              c_priceRange = \<lparr>pr_min = 100, pr_max = 100, pr_avg = 100\<rparr>,
              c_platforms = [js ''momo''], c_products = [lamp]\<rparr>] [lamp]"
  have len: "length (platforms defaultOptions) = 2"
    and cat: "enableCategorySummary defaultOptions"
    and p0: "platforms defaultOptions ! 0 = js ''pchome''"
    and p1: "platforms defaultOptions ! 1 = js ''momo''"
    and pl: "platforms ?list = platforms defaultOptions"
    and nl: "\<not> enableCategorySummary ?list"
    by (simp_all add: defaultOptions_def)
  have f0: "\<not> fetchSucceeded (searchSinglePlatform exampleCrawl 0 (platforms defaultOptions ! 0))"
           "\<not> fetchSucceeded (searchSinglePlatform barrenCrawl 0 (platforms defaultOptions ! 0))"
    by (simp_all add: example_settled barren_settled fetchSucceeded_def)
  have r0: "failureReason (searchSinglePlatform exampleCrawl 0 (platforms defaultOptions ! 0))
              = js ''timeout''"
           "failureReason (searchSinglePlatform barrenCrawl 0 (platforms defaultOptions ! 0))
              = js ''timeout''"
    by (simp_all add: example_settled barren_settled failureReason_def js_def)
  have c: "fst (tryLLMCategorization exampleRuntime exampleNetwork ?on
              (mergeProducts (successfulOf (settleAll exampleCrawl (platforms defaultOptions))))
              (js ''lamp'') newService) = Inr ?answer"
    using example_gemini_answer by (simp add: example_merged)
  have t: "fst (tryLLMCategorization exampleRuntime exampleNetwork ?off
              (mergeProducts (successfulOf (settleAll exampleCrawl (platforms defaultOptions))))
              (js ''lamp'') newService) = Inl OllamaDisabled"
    by (simp add: example_both_disabled)
  have ne: "mergeProducts (successfulOf (settleAll exampleCrawl (platforms defaultOptions))) \<noteq> []"
    by (simp add: example_merged)
  have ca: "cl_categories ?answer
              = [\<lparr>c_name = JStr (js ''A''), c_totalProducts = 1,
                  c_priceRange = \<lparr>pr_min = 100, pr_max = 100, pr_avg = 100\<rparr>,
                  c_platforms = [js ''momo''], c_products = [lamp]\<rparr>]"
    by (simp add: succeeded_def)
  show ?thesis
    using crawl_isolation [where i = 0 and j = 1 and options = defaultOptions
            and crawl = exampleCrawl and v = ?v and rt = exampleRuntime
            and net = exampleNetwork and cfg = ?on and categoryResult = ?answer
            and keyword = "js ''lamp''" and s = newService and e = OllamaDisabled]
          crawl_isolation [where i = 0 and j = 1 and options = ?list
            and crawl = exampleCrawl and v = ?v and rt = exampleRuntime
            and net = exampleNetwork and cfg = ?on and categoryResult = ?answer
            and keyword = "js ''lamp''" and s = newService and e = OllamaDisabled]
          crawl_isolation [where i = 0 and j = 1 and options = defaultOptions
            and crawl = barrenCrawl and v = ?w and rt = exampleRuntime
            and net = exampleNetwork and cfg = ?on and categoryResult = ?answer
            and keyword = "js ''lamp''" and s = newService and e = OllamaDisabled]
          crawl_isolation [where i = 0 and j = 1 and options = defaultOptions
            and crawl = exampleCrawl and v = ?v and rt = exampleRuntime
            and net = exampleNetwork and cfg = ?off and categoryResult = ?answer
            and keyword = "js ''lamp''" and s = newService and e = OllamaDisabled]
          len cat pl nl f0 r0 c t ne ca example_settled barren_settled barren_merged p0 p1
    by simp
qed

text \<open>Claim C2 as stated fails when the classification throws: with both LLM
  providers disabled, the fetcher \<open>momo\<close> succeeds and \<open>pchome\<close> fails, yet the result
  is the failure object, without the lamp and without the failed platform.\<close>

theorem crawl_result_lost_when_classification_throws:
  "fst (searchProducts exampleRuntime exampleNetwork
          (exampleConfig False Auto [Keyword]) exampleCrawl (js ''lamp'') defaultOptions newService)
   = \<lparr>sr_success = False, sr_mode = [], sr_categories = [], sr_products = [],
      sr_totalProducts = 0, sr_platformResults = [], sr_failedPlatforms = [],
      sr_error = Some OllamaDisabled\<rparr>"
proof -
  have t: "fst (tryLLMCategorization exampleRuntime exampleNetwork
             (exampleConfig False Auto [Keyword]) [lamp] (js ''lamp'') newService)
           = Inl OllamaDisabled"
    by (simp add: tryLLMCategorization_def categorizeWithGemini_def categorizeWithOllama_def
          exampleConfig_def)
  have cat: "enableCategorySummary defaultOptions" by (simp add: defaultOptions_def)
  have l: "[lamp] \<noteq> []" by simp
  obtain s1 where "tryLLMCategorization exampleRuntime exampleNetwork
             (exampleConfig False Auto [Keyword]) [lamp] (js ''lamp'') newService
           = (Inl OllamaDisabled, s1)"
    using t by (cases "tryLLMCategorization exampleRuntime exampleNetwork
             (exampleConfig False Auto [Keyword]) [lamp] (js ''lamp'') newService") auto
  then show ?thesis
    using cat by (simp add: searchProducts_def searchBody_def Let_def example_merged)
qed

section \<open>Properties of the provider chain\<close>

lemma failuresOf_emit [simp]: "failuresOf p (emit e s) = failuresOf p s"
  by (simp add: failuresOf_def emit_def)

lemma statsOf_emit [simp]: "statsOf p (emit e s) = statsOf p s"
  by (simp add: statsOf_def emit_def)

lemma recordFailure_counts:
  "failuresOf p (recordFailure p s) = failuresOf p s + 1"
  "totalRequests (statsOf p (recordFailure p s)) = totalRequests (statsOf p s) + 1"
  "successCount (statsOf p (recordFailure p s)) = successCount (statsOf p s)"
  by (simp_all add: recordFailure_def Let_def failuresOf_def statsOf_def emit_def update_conv')

lemma validated_order:
  "p \<in> set (fallbackOrder (validateLLMConfig cfg)) \<Longrightarrow>
     (p = Gemini \<longrightarrow> gm_enabled (gemini (validateLLMConfig cfg))
                    \<and> gm_apiKey (gemini (validateLLMConfig cfg)) \<noteq> [])
     \<and> (p = Ollama \<longrightarrow> o_enabled (ollama (validateLLMConfig cfg))
                    \<and> o_url (ollama (validateLLMConfig cfg)) \<noteq> [])"
  by (auto simp: validateLLMConfig_def Let_def split: if_splits)

text \<open>The health records of a provider are written by \<open>recordSuccess\<close> and
  \<open>recordFailure\<close> for that provider only; the providers themselves write none.\<close>

lemma record_other:
  "p \<noteq> q \<Longrightarrow> statsOf p (recordFailure q s) = statsOf p s"
  "p \<noteq> q \<Longrightarrow> failuresOf p (recordFailure q s) = failuresOf p s"
  "p \<noteq> q \<Longrightarrow> statsOf p (recordSuccess q s) = statsOf p s"
  "p \<noteq> q \<Longrightarrow> failuresOf p (recordSuccess q s) = failuresOf p s"
  by (simp_all add: recordFailure_def recordSuccess_def Let_def failuresOf_def statsOf_def
        emit_def update_conv')

lemma geminiDelay_frame:
  "statsOf p (geminiDelay cfg attempt e s) = statsOf p s"
  "failuresOf p (geminiDelay cfg attempt e s) = failuresOf p s"
  by (simp_all add: geminiDelay_def)

lemma geminiLoop_frame:
  "statsOf p (snd (geminiLoop rt net cfg products n a e s)) = statsOf p s
   \<and> failuresOf p (snd (geminiLoop rt net cfg products n a e s)) = failuresOf p s"
proof (induction n arbitrary: a e s)
  case 0
  then show ?case by simp
next
  case (Suc n)
  show ?case
  proof (cases "replyText (geminiPost net (postsSent Gemini s))")
    case (Inr t)
    then show ?thesis by (simp add: Let_def)
  next
    case (Inl e1)
    with Suc.IH [of "a + 1" e1 "geminiDelay cfg a e1 (emit (Posted Gemini a) s)"]
    show ?thesis by (simp add: Let_def geminiDelay_frame)
  qed
qed

lemma ollamaLoop_frame:
  "statsOf p (snd (ollamaLoop rt net cfg products n a e s)) = statsOf p s
   \<and> failuresOf p (snd (ollamaLoop rt net cfg products n a e s)) = failuresOf p s"
proof (induction n arbitrary: a e s)
  case 0
  then show ?case by simp
next
  case (Suc n)
  show ?case
  proof (cases "replyText (ollamaPost net (postsSent Ollama s))")
    case (Inr t)
    then show ?thesis by (simp add: Let_def)
  next
    case (Inl e1)
    with Suc.IH [of "a + 1" e1 "emit (Waited (o_retryDelay (ollama cfg))) (emit (Posted Ollama a) s)"]
         Suc.IH [of "a + 1" e1 "emit (Posted Ollama a) s"]
    show ?thesis by (simp add: Let_def)
  qed
qed

lemma checkOllamaHealth_frame:
  "statsOf p (snd (checkOllamaHealth net cfg s)) = statsOf p s
   \<and> failuresOf p (snd (checkOllamaHealth net cfg s)) = failuresOf p s"
  by (simp add: checkOllamaHealth_def Let_def statsOf_def failuresOf_def emit_def
           split: option.splits)

lemma useGemini_frame:
  "statsOf p (snd (useGemini rt net cfg products s)) = statsOf p s
   \<and> failuresOf p (snd (useGemini rt net cfg products s)) = failuresOf p s"
  by (simp add: useGemini_def geminiLoop_frame)

lemma useOllama_frame:
  "statsOf p (snd (useOllama rt net cfg products s)) = statsOf p s
   \<and> failuresOf p (snd (useOllama rt net cfg products s)) = failuresOf p s"
proof (cases "checkOllamaHealth net cfg s")
  case (Pair h s1)
  with checkOllamaHealth_frame [of p net cfg s] show ?thesis
    by (cases h) (simp_all add: useOllama_def ollamaLoop_frame)
qed

lemma tryProvider_frame:
  "statsOf p (snd (tryProvider rt net cfg q products query s)) = statsOf p s
   \<and> failuresOf p (snd (tryProvider rt net cfg q products query s)) = failuresOf p s"
  by (cases q) (simp_all add: tryProvider_def Let_def useGemini_frame useOllama_frame)

lemma tryProviders_frame:
  "p \<notin> set ps \<Longrightarrow>
     statsOf p (snd (tryProviders rt net cfg products query ps s)) = statsOf p s
     \<and> failuresOf p (snd (tryProviders rt net cfg products query ps s)) = failuresOf p s"
proof (induction ps arbitrary: s)
  case Nil
  then show ?case by simp
next
  case (Cons q ps)
  then have ne: "p \<noteq> q" and rest: "p \<notin> set ps" by auto
  obtain r s1 where t: "tryProvider rt net cfg q products query s = (r, s1)"
    by (cases "tryProvider rt net cfg q products query s")
  with tryProvider_frame [of p rt net cfg q products query s]
  have f: "statsOf p s1 = statsOf p s" "failuresOf p s1 = failuresOf p s" by simp_all
  show ?case
  proof (cases r)
    case (Inr categories)
    with t f ne show ?thesis by (simp add: record_other)
  next
    case (Inl e)
    with t f ne Cons.IH [OF rest, of "recordFailure q s1"] show ?thesis
      by (simp add: record_other)
  qed
qed

lemma categorize_frame:
  "p \<notin> set (providersOf cfg) \<Longrightarrow>
     statsOf p (snd (categorizeSearchResults rt net cfg products query s)) = statsOf p s
     \<and> failuresOf p (snd (categorizeSearchResults rt net cfg products query s)) = failuresOf p s"
  using tryProviders_frame [of p "providersOf cfg" rt net cfg products query s]
  by (cases "tryProviders rt net cfg products query (providersOf cfg) s")
     (auto simp: categorizeSearchResults_def split: sum.splits)

lemma categorizeWithGemini_frame:
  "p \<noteq> Gemini \<Longrightarrow>
     statsOf p (snd (categorizeWithGemini rt net cfg products s)) = statsOf p s
     \<and> failuresOf p (snd (categorizeWithGemini rt net cfg products s)) = failuresOf p s"
  using useGemini_frame [of p rt net cfg products s]
  by (cases "useGemini rt net cfg products s")
     (auto simp: categorizeWithGemini_def record_other split: sum.splits)

lemma categorizeWithOllama_frame:
  "p \<noteq> Ollama \<Longrightarrow>
     statsOf p (snd (categorizeWithOllama rt net cfg products s)) = statsOf p s
     \<and> failuresOf p (snd (categorizeWithOllama rt net cfg products s)) = failuresOf p s"
  using useOllama_frame [of p rt net cfg products s]
  by (cases "useOllama rt net cfg products s")
     (auto simp: categorizeWithOllama_def record_other split: sum.splits)

section \<open>The trace of a classification call\<close>

lemma events_emit: "events (emit e s) = events s @ [e]"
  by (simp add: emit_def)

lemma events_recordFailure: "events (recordFailure p s) = events s @ [RecordedFailure p]"
  by (simp add: recordFailure_def emit_def Let_def)

lemma events_recordSuccess: "events (recordSuccess p s) = events s @ [RecordedSuccess p]"
  by (simp add: recordSuccess_def emit_def Let_def)

lemma attemptsOf_simps [simp]:
  "attemptsOf p [] = []"
  "attemptsOf p (Posted p k # tr) = k # attemptsOf p tr"
  "attemptsOf p (Waited d # tr) = attemptsOf p tr"
  "attemptsOf p (CheckedHealth # tr) = attemptsOf p tr"
  "attemptsOf p (xs @ ys) = attemptsOf p xs @ attemptsOf p ys"
  by (simp_all add: attemptsOf_def)

lemma geminiDelay_events:
  "\<exists>w. events (geminiDelay cfg attempt e s) = events s @ w \<and> list_all (inTurn Gemini) w
       \<and> attemptsOf Gemini w = []"
  by (auto simp: geminiDelay_def emit_def inTurn_def)

lemma geminiLoop_trace:
  "geminiLoop rt net cfg products n a e s = (r, s') \<Longrightarrow>
     \<exists>tr. events s' = events s @ tr \<and> list_all (inTurn Gemini) tr
          \<and> (\<forall>e'. r = Inl e' \<longrightarrow> attemptsOf Gemini tr = [a ..< a + n])"
proof (induction n arbitrary: a e s)
  case 0
  then show ?case by simp
next
  case (Suc n)
  let ?s1 = "emit (Posted Gemini a) s"
  show ?case
  proof (cases "replyText (geminiPost net (postsSent Gemini s))")
    case (Inr t)
    with Suc.prems have "s' = ?s1" and "\<exists>c. r = Inr c" by (auto simp: Let_def)
    then show ?thesis by (auto simp: events_emit inTurn_def)
  next
    case (Inl e1)
    obtain w where w: "events (geminiDelay cfg a e1 ?s1) = events ?s1 @ w"
        "list_all (inTurn Gemini) w" "attemptsOf Gemini w = []"
      using geminiDelay_events by blast
    from Inl Suc.prems have
      "geminiLoop rt net cfg products n (a + 1) e1 (geminiDelay cfg a e1 ?s1) = (r, s')"
      by (simp add: Let_def)
    from Suc.IH [OF this] obtain tr where tr:
      "events s' = events (geminiDelay cfg a e1 ?s1) @ tr" "list_all (inTurn Gemini) tr"
      "\<forall>e'. r = Inl e' \<longrightarrow> attemptsOf Gemini tr = [a + 1 ..< a + 1 + n]" by blast
    have "events s' = events s @ (Posted Gemini a # w @ tr)"
      using tr(1) w(1) by (simp add: events_emit)
    moreover have "list_all (inTurn Gemini) (Posted Gemini a # w @ tr)"
      using tr(2) w(2) by (simp add: inTurn_def)
    moreover have "\<forall>e'. r = Inl e' \<longrightarrow> attemptsOf Gemini (Posted Gemini a # w @ tr) = [a ..< a + Suc n]"
      using tr(3) w(3) by (simp add: upt_conv_Cons)
    ultimately show ?thesis by blast
  qed
qed

lemma ollamaLoop_trace:
  "ollamaLoop rt net cfg products n a e s = (r, s') \<Longrightarrow>
     \<exists>tr. events s' = events s @ tr \<and> list_all (inTurn Ollama) tr
          \<and> (\<forall>e'. r = Inl e' \<longrightarrow>
                (e' = OllamaNotRunning
                   \<and> (\<exists>m front. m < n \<and> tr = front @ [Posted Ollama (a + m)]
                          \<and> attemptsOf Ollama tr = [a ..< a + m + 1]))
                \<or> attemptsOf Ollama tr = [a ..< a + n])"
proof (induction n arbitrary: a e s)
  case 0
  then show ?case by simp
next
  case (Suc n)
  let ?s1 = "emit (Posted Ollama a) s"
  let ?s2 = "if int a < o_maxRetries (ollama cfg)
             then emit (Waited (o_retryDelay (ollama cfg))) ?s1 else ?s1"
  show ?case
  proof (cases "replyText (ollamaPost net (postsSent Ollama s))")
    case (Inr t)
    with Suc.prems have "s' = ?s1" and "\<exists>c. r = Inr c" by (auto simp: Let_def)
    then show ?thesis by (auto simp: events_emit inTurn_def)
  next
    case (Inl e1)
    show ?thesis
    proof (cases "connectionRefused e1")
      case True
      with Inl Suc.prems have s': "s' = ?s1" and r: "r = Inl OllamaNotRunning"
        by (auto simp: Let_def)
      have "events s' = events s @ [Posted Ollama a]" using s' by (simp add: events_emit)
      moreover have "list_all (inTurn Ollama) [Posted Ollama a]" by (simp add: inTurn_def)
      moreover have "\<exists>m front. m < Suc n \<and> [Posted Ollama a] = front @ [Posted Ollama (a + m)]
                          \<and> attemptsOf Ollama [Posted Ollama a] = [a ..< a + m + 1]"
        by (intro exI [of _ 0] exI [of _ "[]"]) simp
      ultimately show ?thesis using r by blast
    next
      case False
      obtain w where w: "events ?s2 = events ?s1 @ w" "list_all (inTurn Ollama) w"
          "attemptsOf Ollama w = []"
        by (cases "int a < o_maxRetries (ollama cfg)") (auto simp: events_emit inTurn_def)
      from Inl False Suc.prems have
        "ollamaLoop rt net cfg products n (a + 1) e1 ?s2 = (r, s')"
        by (simp add: Let_def)
      from Suc.IH [OF this] obtain tr where tr:
        "events s' = events ?s2 @ tr" "list_all (inTurn Ollama) tr"
        "\<forall>e'. r = Inl e' \<longrightarrow>
            (e' = OllamaNotRunning
               \<and> (\<exists>m front. m < n \<and> tr = front @ [Posted Ollama (a + 1 + m)]
                      \<and> attemptsOf Ollama tr = [a + 1 ..< a + 1 + m + 1]))
            \<or> attemptsOf Ollama tr = [a + 1 ..< a + 1 + n]"
        by blast
      let ?tr = "Posted Ollama a # w @ tr"
      have "events s' = events s @ ?tr"
        using tr(1) w(1) by (simp add: events_emit)
      moreover have "list_all (inTurn Ollama) ?tr"
        using tr(2) w(2) by (simp add: inTurn_def)
      moreover have "\<forall>e'. r = Inl e' \<longrightarrow>
            (e' = OllamaNotRunning
               \<and> (\<exists>m front. m < Suc n \<and> ?tr = front @ [Posted Ollama (a + m)]
                      \<and> attemptsOf Ollama ?tr = [a ..< a + m + 1]))
            \<or> attemptsOf Ollama ?tr = [a ..< a + Suc n]"
      proof (intro allI impI)
        fix e' assume "r = Inl e'"
        with tr(3) consider
          (refused) m front where "e' = OllamaNotRunning" "m < n"
            "tr = front @ [Posted Ollama (a + 1 + m)]"
            "attemptsOf Ollama tr = [a + 1 ..< a + 1 + m + 1]"
        | (spent) "attemptsOf Ollama tr = [a + 1 ..< a + 1 + n]"
          by blast
        then show "(e' = OllamaNotRunning
               \<and> (\<exists>m front. m < Suc n \<and> ?tr = front @ [Posted Ollama (a + m)]
                      \<and> attemptsOf Ollama ?tr = [a ..< a + m + 1]))
            \<or> attemptsOf Ollama ?tr = [a ..< a + Suc n]"
        proof cases
          case refused
          have u: "[a ..< a + Suc m + 1] = a # [a + 1 ..< a + 1 + m + 1]"
            by (simp add: upt_conv_Cons)
          have "Suc m < Suc n" using refused(2) by simp
          moreover have "?tr = (Posted Ollama a # w @ front) @ [Posted Ollama (a + Suc m)]"
            using refused(3) by simp
          moreover have "attemptsOf Ollama ?tr = [a ..< a + Suc m + 1]"
            unfolding u using refused(4) w(3) by (simp only: attemptsOf_simps append_Nil)
          ultimately show ?thesis using refused(1) by blast
        next
          case spent
          have u: "[a ..< a + Suc n] = a # [a + 1 ..< a + 1 + n]"
            by (simp add: upt_conv_Cons)
          have "attemptsOf Ollama ?tr = [a ..< a + Suc n]"
            unfolding u using spent w(3) by (simp only: attemptsOf_simps append_Nil)
          then show ?thesis by blast
        qed
      qed
      ultimately show ?thesis by blast
    qed
  qed
qed

lemma checkOllamaHealth_trace:
  "checkOllamaHealth net cfg s = (h, s') \<Longrightarrow>
     \<exists>tr. events s' = events s @ tr \<and> list_all (inTurn Ollama) tr \<and> attemptsOf Ollama tr = []
          \<and> (\<forall>e. h = Some e \<longrightarrow> e = OllamaHealthCheckFailed)"
  by (auto simp: checkOllamaHealth_def Let_def events_emit inTurn_def emit_def
           split: if_splits option.splits)

lemma useGemini_trace:
  assumes "useGemini rt net cfg products s = (r, s')"
  shows "\<exists>tr. events s' = events s @ tr \<and> list_all (inTurn Gemini) tr
          \<and> (\<forall>e. r = Inl e \<longrightarrow> e = GeminiDisabled \<and> tr = []
                 \<or> attemptsOf Gemini tr = [1 ..< 1 + nat (gm_maxRetries (gemini cfg))])"
proof (cases "\<not> gm_enabled (gemini cfg) \<or> gm_apiKey (gemini cfg) = []")
  case True
  with assms have "r = Inl GeminiDisabled" "s' = s" by (auto simp: useGemini_def)
  then show ?thesis by simp
next
  case False
  with assms have
    "geminiLoop rt net cfg products (nat (gm_maxRetries (gemini cfg))) 1 ThrownUndefined s = (r, s')"
    by (auto simp: useGemini_def)
  from geminiLoop_trace [OF this] show ?thesis by blast
qed

lemma useOllama_trace:
  assumes "useOllama rt net cfg products s = (r, s')"
  shows "\<exists>tr. events s' = events s @ tr \<and> list_all (inTurn Ollama) tr
          \<and> (\<forall>e. r = Inl e \<longrightarrow> e = OllamaDisabled \<and> tr = []
                 \<or> e = OllamaHealthCheckFailed \<and> attemptsOf Ollama tr = []
                 \<or> (e = OllamaNotRunning
                      \<and> (\<exists>m front. m < nat (o_maxRetries (ollama cfg))
                             \<and> tr = front @ [Posted Ollama (1 + m)]
                             \<and> attemptsOf Ollama tr = [1 ..< 1 + m + 1]))
                 \<or> attemptsOf Ollama tr = [1 ..< 1 + nat (o_maxRetries (ollama cfg))])"
proof (cases "o_enabled (ollama cfg)")
  case False
  with assms have "r = Inl OllamaDisabled" "s' = s" by (auto simp: useOllama_def)
  then show ?thesis by simp
next
  case True
  obtain h s1 where c: "checkOllamaHealth net cfg s = (h, s1)"
    by (cases "checkOllamaHealth net cfg s")
  from checkOllamaHealth_trace [OF c] obtain tc where tc:
    "events s1 = events s @ tc" "list_all (inTurn Ollama) tc" "attemptsOf Ollama tc = []"
    "\<forall>e. h = Some e \<longrightarrow> e = OllamaHealthCheckFailed" by blast
  show ?thesis
  proof (cases h)
    case (Some e)
    with assms True c tc(4) have "r = Inl OllamaHealthCheckFailed" "s' = s1"
      by (auto simp: useOllama_def)
    with tc show ?thesis by auto
  next
    case None
    with assms True c have
      "ollamaLoop rt net cfg products (nat (o_maxRetries (ollama cfg))) 1 ThrownUndefined s1 = (r, s')"
      by (simp add: useOllama_def)
    from ollamaLoop_trace [OF this] obtain tr where tr:
      "events s' = events s1 @ tr" "list_all (inTurn Ollama) tr"
      "\<forall>e'. r = Inl e' \<longrightarrow>
          (e' = OllamaNotRunning
             \<and> (\<exists>m front. m < nat (o_maxRetries (ollama cfg))
                    \<and> tr = front @ [Posted Ollama (1 + m)]
                    \<and> attemptsOf Ollama tr = [1 ..< 1 + m + 1]))
          \<or> attemptsOf Ollama tr = [1 ..< 1 + nat (o_maxRetries (ollama cfg))]" by blast
    have "events s' = events s @ (tc @ tr)" using tr(1) tc(1) by simp
    moreover have "list_all (inTurn Ollama) (tc @ tr)" using tr(2) tc(2) by simp
    moreover have "\<forall>e. r = Inl e \<longrightarrow> e = OllamaDisabled \<and> tc @ tr = []
                 \<or> e = OllamaHealthCheckFailed \<and> attemptsOf Ollama (tc @ tr) = []
                 \<or> (e = OllamaNotRunning
                      \<and> (\<exists>m front. m < nat (o_maxRetries (ollama cfg))
                             \<and> tc @ tr = front @ [Posted Ollama (1 + m)]
                             \<and> attemptsOf Ollama (tc @ tr) = [1 ..< 1 + m + 1]))
                 \<or> attemptsOf Ollama (tc @ tr) = [1 ..< 1 + nat (o_maxRetries (ollama cfg))]"
    proof (intro allI impI)
      fix e assume "r = Inl e"
      with tr(3) consider
        (refused) m front where "e = OllamaNotRunning" "m < nat (o_maxRetries (ollama cfg))"
          "tr = front @ [Posted Ollama (1 + m)]" "attemptsOf Ollama tr = [1 ..< 1 + m + 1]"
      | (spent) "attemptsOf Ollama tr = [1 ..< 1 + nat (o_maxRetries (ollama cfg))]"
        by blast
      then show "e = OllamaDisabled \<and> tc @ tr = []
                 \<or> e = OllamaHealthCheckFailed \<and> attemptsOf Ollama (tc @ tr) = []
                 \<or> (e = OllamaNotRunning
                      \<and> (\<exists>m front. m < nat (o_maxRetries (ollama cfg))
                             \<and> tc @ tr = front @ [Posted Ollama (1 + m)]
                             \<and> attemptsOf Ollama (tc @ tr) = [1 ..< 1 + m + 1]))
                 \<or> attemptsOf Ollama (tc @ tr) = [1 ..< 1 + nat (o_maxRetries (ollama cfg))]"
      proof cases
        case refused
        have "tc @ tr = (tc @ front) @ [Posted Ollama (1 + m)]" using refused(3) by simp
        moreover have "attemptsOf Ollama (tc @ tr) = [1 ..< 1 + m + 1]"
          using refused(4) tc(3) by (simp only: attemptsOf_simps append_Nil)
        ultimately show ?thesis using refused(1,2) by blast
      next
        case spent
        have "attemptsOf Ollama (tc @ tr) = [1 ..< 1 + nat (o_maxRetries (ollama cfg))]"
          using spent tc(3) by (simp only: attemptsOf_simps append_Nil)
        then show ?thesis by blast
      qed
    qed
    ultimately show ?thesis by blast
  qed
qed

lemma tryProvider_trace:
  assumes "tryProvider rt net cfg p products q s = (r, s')"
  shows "\<exists>tr. events s' = events s @ Tried p # tr \<and> list_all (inTurn p) tr"
proof (cases p)
  case Ollama
  with assms have "useOllama rt net cfg products (emit (Tried Ollama) s) = (r, s')"
    by (simp add: tryProvider_def Let_def)
  from useOllama_trace [OF this] Ollama show ?thesis by (auto simp: events_emit)
next
  case Gemini
  with assms have "useGemini rt net cfg products (emit (Tried Gemini) s) = (r, s')"
    by (simp add: tryProvider_def Let_def)
  from useGemini_trace [OF this] Gemini show ?thesis by (auto simp: events_emit)
next
  case Keyword
  with assms show ?thesis by (auto simp: tryProvider_def Let_def events_emit)
next
  case Auto
  with assms show ?thesis by (auto simp: tryProvider_def Let_def events_emit)
next
  case (OtherProvider x)
  with assms show ?thesis by (auto simp: tryProvider_def Let_def events_emit)
qed

lemma dropWhile_turn:
  "list_all (inTurn p) tr \<Longrightarrow> \<not> inTurn p e \<Longrightarrow> dropWhile (inTurn p) (tr @ e # rest) = e # rest"
  by (induction tr) simp_all

lemma dropWhile_turn_end:
  "list_all (inTurn p) tr \<Longrightarrow> dropWhile (inTurn p) tr = []"
  by (induction tr) simp_all

lemma tryProviders_trace:
  "tryProviders rt net cfg products q ps s = (r, s') \<Longrightarrow>
     \<exists>tr. events s' = events s @ tr \<and> chainTrace ps tr
          \<and> (\<forall>res. r = Inr res \<longrightarrow>
                (\<exists>p front. tr = front @ [RecordedSuccess p] \<and> cl_provider res = Some p))"
proof (induction ps arbitrary: s)
  case Nil
  then show ?case by auto
next
  case (Cons p ps)
  obtain r1 s1 where t: "tryProvider rt net cfg p products q s = (r1, s1)"
    by (cases "tryProvider rt net cfg p products q s")
  from tryProvider_trace [OF t] obtain tr1 where tr1:
    "events s1 = events s @ Tried p # tr1" "list_all (inTurn p) tr1" by blast
  show ?case
  proof (cases r1)
    case (Inr categories)
    with t Cons.prems have r: "r = Inr (succeeded p categories products)"
      and s': "s' = recordSuccess p s1" by simp_all
    have "events s' = events s @ (Tried p # tr1 @ [RecordedSuccess p])"
      using s' tr1(1) by (simp add: events_recordSuccess)
    moreover have "chainTrace (p # ps) (Tried p # tr1 @ [RecordedSuccess p])"
      using dropWhile_turn [OF tr1(2), of "RecordedSuccess p" "[]"] by (simp add: inTurn_def)
    moreover have "\<forall>res. r = Inr res \<longrightarrow>
                (\<exists>p' front. Tried p # tr1 @ [RecordedSuccess p] = front @ [RecordedSuccess p']
                   \<and> cl_provider res = Some p')"
      using r by (auto simp: succeeded_def intro: exI [of _ p] exI [of _ "Tried p # tr1"])
    ultimately show ?thesis by blast
  next
    case (Inl e)
    show ?thesis
    proof (cases "e = ThrownUndefined")
      case True
      with t Inl Cons.prems have "r = Inl TypeError" "s' = s1" by simp_all
      moreover have "chainTrace (p # ps) (Tried p # tr1)"
        by (simp add: dropWhile_turn_end [OF tr1(2)])
      ultimately show ?thesis using tr1(1) by auto
    next
      case False
      with t Inl Cons.prems have
        "tryProviders rt net cfg products q ps (recordFailure p s1) = (r, s')" by simp
      from Cons.IH [OF this] obtain tr where tr:
        "events s' = events (recordFailure p s1) @ tr" "chainTrace ps tr"
        "\<forall>res. r = Inr res \<longrightarrow>
           (\<exists>p' front. tr = front @ [RecordedSuccess p'] \<and> cl_provider res = Some p')" by auto
      have "events s' = events s @ (Tried p # tr1 @ RecordedFailure p # tr)"
        using tr(1) tr1(1) by (simp add: events_recordFailure)
      moreover have "chainTrace (p # ps) (Tried p # tr1 @ RecordedFailure p # tr)"
        using dropWhile_turn [OF tr1(2), of "RecordedFailure p" tr] tr(2)
        by (simp add: inTurn_def)
      moreover have "\<forall>res. r = Inr res \<longrightarrow>
           (\<exists>p' front. Tried p # tr1 @ RecordedFailure p # tr = front @ [RecordedSuccess p']
              \<and> cl_provider res = Some p')"
      proof (intro allI impI)
        fix res assume "r = Inr res"
        with tr(3) obtain p' front where "tr = front @ [RecordedSuccess p']"
          "cl_provider res = Some p'" by blast
        then show "\<exists>p' front. Tried p # tr1 @ RecordedFailure p # tr = front @ [RecordedSuccess p']
              \<and> cl_provider res = Some p'"
          by (intro exI [of _ p'] exI [of _ "Tried p # tr1 @ RecordedFailure p # front"]) simp
      qed
      ultimately show ?thesis by blast
    qed
  qed
qed

lemma newEvents_append: "events s' = events s @ tr \<Longrightarrow> newEvents s s' = tr"
  by (simp add: newEvents_def)

lemma categorize_trace:
  "\<exists>tr. events (snd (categorizeSearchResults rt net cfg products q s)) = events s @ tr
        \<and> chainTrace (providersOf cfg) tr
        \<and> (cl_success (fst (categorizeSearchResults rt net cfg products q s)) \<longrightarrow>
             (\<exists>p front. tr = front @ [RecordedSuccess p]
                \<and> cl_provider (fst (categorizeSearchResults rt net cfg products q s)) = Some p))"
proof -
  obtain r s' where t: "tryProviders rt net cfg products q (providersOf cfg) s = (r, s')"
    by (cases "tryProviders rt net cfg products q (providersOf cfg) s")
  from tryProviders_trace [OF t] obtain tr where tr:
    "events s' = events s @ tr" "chainTrace (providersOf cfg) tr"
    "\<forall>res. r = Inr res \<longrightarrow>
       (\<exists>p front. tr = front @ [RecordedSuccess p] \<and> cl_provider res = Some p)" by auto
  show ?thesis
  proof (cases r)
    case (Inl e)
    with t tr show ?thesis by (auto simp: categorizeSearchResults_def)
  next
    case (Inr res)
    with t tr show ?thesis by (auto simp: categorizeSearchResults_def)
  qed
qed


text \<open>A provider that is not in the chain has no event in the trace of the chain.\<close>

lemma chainTrace_untouched:
  "chainTrace ps tr \<Longrightarrow> p \<notin> set ps \<Longrightarrow>
     Tried p \<notin> set tr \<and> (\<forall>k. Posted p k \<notin> set tr)
     \<and> RecordedFailure p \<notin> set tr \<and> RecordedSuccess p \<notin> set tr"
proof (induction ps arbitrary: tr)
  case Nil
  then show ?case by simp
next
  case (Cons q ps)
  from Cons.prems(2) have ne: "p \<noteq> q" and rest: "p \<notin> set ps" by auto
  from Cons.prems(1) obtain tr' where tr: "tr = Tried q # tr'"
    by (cases tr) auto
  let ?turn = "takeWhile (inTurn q) tr'"
  let ?after = "dropWhile (inTurn q) tr'"
  have split: "set tr' = set ?turn \<union> set ?after"
    by (metis set_append takeWhile_dropWhile_id)
  have turn: "Tried p \<notin> set ?turn \<and> (\<forall>k. Posted p k \<notin> set ?turn)
     \<and> RecordedFailure p \<notin> set ?turn \<and> RecordedSuccess p \<notin> set ?turn"
    using ne by (auto dest!: set_takeWhileD simp: inTurn_def)
  have after: "Tried p \<notin> set ?after \<and> (\<forall>k. Posted p k \<notin> set ?after)
     \<and> RecordedFailure p \<notin> set ?after \<and> RecordedSuccess p \<notin> set ?after"
  proof (cases ?after)
    case Nil
    show ?thesis unfolding Nil by simp
  next
    case (Cons e2 tr2)
    with Cons.prems(1) tr have
      "(e2 = RecordedSuccess q \<and> tr2 = []) \<or> (e2 = RecordedFailure q \<and> chainTrace ps tr2)"
      by simp
    then show ?thesis
    proof
      assume "e2 = RecordedSuccess q \<and> tr2 = []"
      with ne show ?thesis unfolding Cons by simp
    next
      assume a: "e2 = RecordedFailure q \<and> chainTrace ps tr2"
      with Cons.IH [OF _ rest, of tr2] ne show ?thesis unfolding Cons by simp
    qed
  qed
  from turn after split tr ne show ?case by auto
qed

section \<open>Disabled providers\<close>

lemma validated_chain:
  "llm_provider cfg = Auto \<Longrightarrow> \<not> gm_enabled (gemini (validateLLMConfig cfg)) \<Longrightarrow>
     Gemini \<notin> set (providersOf (validateLLMConfig cfg))"
  "llm_provider cfg = Auto \<Longrightarrow> \<not> o_enabled (ollama (validateLLMConfig cfg)) \<Longrightarrow>
     Ollama \<notin> set (providersOf (validateLLMConfig cfg))"
  by (auto simp: validateLLMConfig_def providersOf_def Let_def split: if_splits)

lemma categorize_untouched:
  assumes "p \<notin> set (providersOf cfg)"
  shows "statsOf p (snd (categorizeSearchResults rt net cfg products q s)) = statsOf p s
       \<and> failuresOf p (snd (categorizeSearchResults rt net cfg products q s)) = failuresOf p s
       \<and> Tried p \<notin> set (newEvents s (snd (categorizeSearchResults rt net cfg products q s)))
       \<and> (\<forall>k. Posted p k
               \<notin> set (newEvents s (snd (categorizeSearchResults rt net cfg products q s))))"
proof -
  from categorize_trace [of rt net cfg products q s] obtain tr where tr:
    "events (snd (categorizeSearchResults rt net cfg products q s)) = events s @ tr"
    "chainTrace (providersOf cfg) tr" by auto
  from chainTrace_untouched [OF tr(2) assms] newEvents_append [OF tr(1)]
       categorize_frame [OF assms, of rt net products q s]
  show ?thesis by simp
qed

lemma tryLLMCategorization_counts_gemini:
  assumes "\<not> gm_enabled (gemini cfg) \<or> gm_apiKey (gemini cfg) = []"
  shows "failuresOf Gemini (snd (tryLLMCategorization rt net cfg products keyword s))
           = failuresOf Gemini s + 1
       \<and> totalRequests (statsOf Gemini (snd (tryLLMCategorization rt net cfg products keyword s)))
           = totalRequests (statsOf Gemini s) + 1"
proof -
  have g: "categorizeWithGemini rt net cfg products s = (Inl GeminiDisabled, recordFailure Gemini s)"
    using assms by (auto simp: categorizeWithGemini_def)
  have "snd (tryLLMCategorization rt net cfg products keyword s)
          = snd (categorizeWithOllama rt net cfg products (recordFailure Gemini s))"
    by (cases "categorizeWithOllama rt net cfg products (recordFailure Gemini s)")
       (auto simp: tryLLMCategorization_def g split: sum.splits)
  with categorizeWithOllama_frame [of Gemini rt net cfg products "recordFailure Gemini s"]
  show ?thesis by (simp add: recordFailure_counts)
qed

lemma tryLLMCategorization_counts_ollama:
  assumes "\<not> o_enabled (ollama cfg)"
      and "fst (categorizeWithGemini rt net cfg products s) = Inl e"
  shows "failuresOf Ollama (snd (tryLLMCategorization rt net cfg products keyword s))
           = failuresOf Ollama s + 1
       \<and> totalRequests (statsOf Ollama (snd (tryLLMCategorization rt net cfg products keyword s)))
           = totalRequests (statsOf Ollama s) + 1"
proof -
  obtain s1 where g: "categorizeWithGemini rt net cfg products s = (Inl e, s1)"
    using assms(2) by (cases "categorizeWithGemini rt net cfg products s") auto
  have o: "categorizeWithOllama rt net cfg products s1 = (Inl OllamaDisabled, recordFailure Ollama s1)"
    using assms(1) by (simp add: categorizeWithOllama_def)
  have "snd (tryLLMCategorization rt net cfg products keyword s) = recordFailure Ollama s1"
    by (simp add: tryLLMCategorization_def g o)
  with categorizeWithGemini_frame [of Ollama rt net cfg products s] g
  show ?thesis by (simp add: recordFailure_counts)
qed

text \<open>
  Claim C3, as the code has it. A disabled provider (Gemini without its flag or its
  key, Ollama without its flag) is rejected at once: no request is sent, no delay is
  waited, no retry is spent. But the rejection is an exception like any other, and
  the callers record it: in the loop of \<open>categorizeSearchResults\<close> and in
  \<open>categorizeWithGemini\<close> and \<open>categorizeWithOllama\<close>, \<open>recordFailure\<close> adds one to the
  provider's consecutive failures and one to its requests, and leaves its success
  count. \<open>tryLLMCategorization\<close> calls \<open>categorizeWithGemini\<close> whatever the mode and the
  order, and \<open>categorizeWithOllama\<close> whenever Gemini failed, so that it counts a
  disabled Gemini always and a disabled Ollama after a failure of Gemini. Only
  \<open>categorizeSearchResults\<close> in automatic mode, under a configuration that
  \<open>validateLLMConfig\<close> has validated, leaves a disabled provider alone: the provider
  is not in the chain, it is not tried, no request is sent to it, and its failure
  counter and statistics are unchanged.
\<close>

theorem disabled_provider_recorded_as_failure:
  "(\<not> gm_enabled (gemini cfg) \<or> gm_apiKey (gemini cfg) = [] \<longrightarrow>
      tryProvider rt net cfg Gemini products q s = (Inl GeminiDisabled, emit (Tried Gemini) s)
      \<and> tryProviders rt net cfg products q (Gemini # rest) s
          = tryProviders rt net cfg products q rest (recordFailure Gemini (emit (Tried Gemini) s))
      \<and> categorizeWithGemini rt net cfg products s = (Inl GeminiDisabled, recordFailure Gemini s)
      \<and> failuresOf Gemini (snd (tryLLMCategorization rt net cfg products keyword s))
           = failuresOf Gemini s + 1
      \<and> totalRequests (statsOf Gemini (snd (tryLLMCategorization rt net cfg products keyword s)))
           = totalRequests (statsOf Gemini s) + 1)
   \<and> (\<not> o_enabled (ollama cfg) \<longrightarrow>
      tryProvider rt net cfg Ollama products q s = (Inl OllamaDisabled, emit (Tried Ollama) s)
      \<and> tryProviders rt net cfg products q (Ollama # rest) s
          = tryProviders rt net cfg products q rest (recordFailure Ollama (emit (Tried Ollama) s))
      \<and> categorizeWithOllama rt net cfg products s = (Inl OllamaDisabled, recordFailure Ollama s)
      \<and> (fst (categorizeWithGemini rt net cfg products s) = Inl e \<longrightarrow>
           failuresOf Ollama (snd (tryLLMCategorization rt net cfg products keyword s))
             = failuresOf Ollama s + 1
           \<and> totalRequests (statsOf Ollama (snd (tryLLMCategorization rt net cfg products keyword s)))
             = totalRequests (statsOf Ollama s) + 1))
   \<and> failuresOf p (recordFailure p s) = failuresOf p s + 1
   \<and> totalRequests (statsOf p (recordFailure p s)) = totalRequests (statsOf p s) + 1
   \<and> successCount (statsOf p (recordFailure p s)) = successCount (statsOf p s)
   \<and> (llm_provider cfg = Auto \<and> \<not> gm_enabled (gemini (validateLLMConfig cfg)) \<longrightarrow>
        Gemini \<notin> set (providersOf (validateLLMConfig cfg))
        \<and> statsOf Gemini (snd (categorizeSearchResults rt net (validateLLMConfig cfg) products q s))
            = statsOf Gemini s
        \<and> failuresOf Gemini (snd (categorizeSearchResults rt net (validateLLMConfig cfg) products q s))
            = failuresOf Gemini s
        \<and> Tried Gemini \<notin> set (newEvents s
              (snd (categorizeSearchResults rt net (validateLLMConfig cfg) products q s)))
        \<and> (\<forall>k. Posted Gemini k \<notin> set (newEvents s
              (snd (categorizeSearchResults rt net (validateLLMConfig cfg) products q s)))))
   \<and> (llm_provider cfg = Auto \<and> \<not> o_enabled (ollama (validateLLMConfig cfg)) \<longrightarrow>
        Ollama \<notin> set (providersOf (validateLLMConfig cfg))
        \<and> statsOf Ollama (snd (categorizeSearchResults rt net (validateLLMConfig cfg) products q s))
            = statsOf Ollama s
        \<and> failuresOf Ollama (snd (categorizeSearchResults rt net (validateLLMConfig cfg) products q s))
            = failuresOf Ollama s
        \<and> Tried Ollama \<notin> set (newEvents s
              (snd (categorizeSearchResults rt net (validateLLMConfig cfg) products q s)))
        \<and> (\<forall>k. Posted Ollama k \<notin> set (newEvents s
              (snd (categorizeSearchResults rt net (validateLLMConfig cfg) products q s)))))"
proof -
  have g: "tryProvider rt net cfg Gemini products q s = (Inl GeminiDisabled, emit (Tried Gemini) s)
      \<and> tryProviders rt net cfg products q (Gemini # rest) s
          = tryProviders rt net cfg products q rest (recordFailure Gemini (emit (Tried Gemini) s))
      \<and> categorizeWithGemini rt net cfg products s = (Inl GeminiDisabled, recordFailure Gemini s)"
    if "\<not> gm_enabled (gemini cfg) \<or> gm_apiKey (gemini cfg) = []"
    using that by (auto simp: tryProvider_def useGemini_def categorizeWithGemini_def Let_def)
  have o: "tryProvider rt net cfg Ollama products q s = (Inl OllamaDisabled, emit (Tried Ollama) s)
      \<and> tryProviders rt net cfg products q (Ollama # rest) s
          = tryProviders rt net cfg products q rest (recordFailure Ollama (emit (Tried Ollama) s))
      \<and> categorizeWithOllama rt net cfg products s = (Inl OllamaDisabled, recordFailure Ollama s)"
    if "\<not> o_enabled (ollama cfg)"
    using that by (auto simp: tryProvider_def useOllama_def categorizeWithOllama_def Let_def)
  have vg: "Gemini \<notin> set (providersOf (validateLLMConfig cfg))
        \<and> statsOf Gemini (snd (categorizeSearchResults rt net (validateLLMConfig cfg) products q s))
            = statsOf Gemini s
        \<and> failuresOf Gemini (snd (categorizeSearchResults rt net (validateLLMConfig cfg) products q s))
            = failuresOf Gemini s
        \<and> Tried Gemini \<notin> set (newEvents s
              (snd (categorizeSearchResults rt net (validateLLMConfig cfg) products q s)))
        \<and> (\<forall>k. Posted Gemini k \<notin> set (newEvents s
              (snd (categorizeSearchResults rt net (validateLLMConfig cfg) products q s))))"
    if "llm_provider cfg = Auto" "\<not> gm_enabled (gemini (validateLLMConfig cfg))"
    using categorize_untouched [OF validated_chain(1) [OF that], of rt net products q s]
          validated_chain(1) [OF that] by simp
  have vo: "Ollama \<notin> set (providersOf (validateLLMConfig cfg))
        \<and> statsOf Ollama (snd (categorizeSearchResults rt net (validateLLMConfig cfg) products q s))
            = statsOf Ollama s
        \<and> failuresOf Ollama (snd (categorizeSearchResults rt net (validateLLMConfig cfg) products q s))
            = failuresOf Ollama s
        \<and> Tried Ollama \<notin> set (newEvents s
              (snd (categorizeSearchResults rt net (validateLLMConfig cfg) products q s)))
        \<and> (\<forall>k. Posted Ollama k \<notin> set (newEvents s
              (snd (categorizeSearchResults rt net (validateLLMConfig cfg) products q s))))"
    if "llm_provider cfg = Auto" "\<not> o_enabled (ollama (validateLLMConfig cfg))"
    using categorize_untouched [OF validated_chain(2) [OF that], of rt net products q s]
          validated_chain(2) [OF that] by simp
  from g o vg vo recordFailure_counts [of p s]
       tryLLMCategorization_counts_gemini [of cfg rt net products keyword s]
       tryLLMCategorization_counts_ollama [of cfg rt net products s e keyword]
  show ?thesis by blast
qed

theorem disabled_provider_recorded_as_failure_witness:
  "gm_apiKey (gemini (exampleConfig False Gemini [Keyword])) = []
   \<and> tryProvider exampleRuntime exampleNetwork (exampleConfig False Gemini [Keyword]) Gemini
        [lamp] (Some (js ''lamp'')) newService = (Inl GeminiDisabled, emit (Tried Gemini) newService)
   \<and> failuresOf Gemini (recordFailure Gemini newService) = 1
   \<and> totalRequests (statsOf Gemini (recordFailure Gemini newService)) = 1
   \<and> failuresOf Gemini (snd (tryLLMCategorization exampleRuntime exampleNetwork
         (exampleConfig False Gemini [Keyword]) [lamp] (js ''lamp'') newService)) = 1
   \<and> failuresOf Ollama (snd (tryLLMCategorization exampleRuntime exampleNetwork
         (exampleConfig False Gemini [Keyword]) [lamp] (js ''lamp'') newService)) = 1
   \<and> providersOf (validateLLMConfig (exampleConfig False Auto [Gemini, Ollama, Keyword]))
       = [Keyword]
   \<and> failuresOf Gemini (snd (categorizeSearchResults exampleRuntime exampleNetwork
         (validateLLMConfig (exampleConfig False Auto [Gemini, Ollama, Keyword]))
         [lamp] (Some (js ''lamp'')) newService)) = 0
   \<and> totalRequests (statsOf Ollama (snd (categorizeSearchResults exampleRuntime exampleNetwork
         (validateLLMConfig (exampleConfig False Auto [Gemini, Ollama, Keyword]))
         [lamp] (Some (js ''lamp'')) newService))) = 0"
proof -
  let ?off = "exampleConfig False Gemini [Keyword]"
  let ?auto = "exampleConfig False Auto [Gemini, Ollama, Keyword]"
  have z: "failuresOf Gemini newService = 0" "failuresOf Ollama newService = 0"
          "totalRequests (statsOf Gemini newService) = 0"
          "statsOf Ollama newService = \<lparr>successCount = 0, totalRequests = 0\<rparr>"
    by (simp_all add: failuresOf_def statsOf_def newService_def)
  have d: "gm_apiKey (gemini ?off) = []" "\<not> o_enabled (ollama ?off)"
          "\<not> gm_enabled (gemini ?off)"
    by (simp_all add: exampleConfig_def)
  have g: "fst (categorizeWithGemini exampleRuntime exampleNetwork ?off [lamp] newService)
             = Inl GeminiDisabled"
    by (simp add: categorizeWithGemini_def exampleConfig_def)
  have v: "llm_provider ?auto = Auto" "\<not> gm_enabled (gemini (validateLLMConfig ?auto))"
          "\<not> o_enabled (ollama (validateLLMConfig ?auto))"
          "providersOf (validateLLMConfig ?auto) = [Keyword]"
    by (simp_all add: exampleConfig_def validateLLMConfig_def providersOf_def Let_def)
  show ?thesis
    using disabled_provider_recorded_as_failure
            [where cfg = ?off and rt = exampleRuntime and net = exampleNetwork
               and products = "[lamp]" and q = "Some (js ''lamp'')" and keyword = "js ''lamp''"
               and s = newService and p = Gemini and rest = "[]" and e = GeminiDisabled]
          disabled_provider_recorded_as_failure
            [where cfg = ?auto and rt = exampleRuntime and net = exampleNetwork
               and products = "[lamp]" and q = "Some (js ''lamp'')" and keyword = "js ''lamp''"
               and s = newService and p = Gemini and rest = "[]" and e = GeminiDisabled]
          z d g v
    by simp
qed

text \<open>Claim C3 as stated fails: with Gemini named as the provider and disabled, and on
  the path of \<open>tryLLMCategorization\<close> with both providers disabled, in automatic mode,
  the skip raises the failure counter and the request count from 0 to 1.\<close>

theorem disabled_provider_counted:
  "failuresOf Gemini newService = 0
   \<and> totalRequests (statsOf Gemini newService) = 0
   \<and> failuresOf Gemini (snd (categorizeSearchResults exampleRuntime exampleNetwork
         (exampleConfig False Gemini [Keyword]) [lamp] (Some (js ''lamp'')) newService)) = 1
   \<and> totalRequests (statsOf Gemini (snd (categorizeSearchResults exampleRuntime exampleNetwork
         (exampleConfig False Gemini [Keyword]) [lamp] (Some (js ''lamp'')) newService))) = 1
   \<and> validateLLMConfig (exampleConfig False Auto [Keyword]) = exampleConfig False Auto [Keyword]
   \<and> failuresOf Gemini (snd (tryLLMCategorization exampleRuntime exampleNetwork
         (exampleConfig False Auto [Keyword]) [lamp] (js ''lamp'') newService)) = 1
   \<and> failuresOf Ollama (snd (tryLLMCategorization exampleRuntime exampleNetwork
         (exampleConfig False Auto [Keyword]) [lamp] (js ''lamp'') newService)) = 1"
  by (simp add: categorizeSearchResults_def providersOf_def tryProvider_def useGemini_def
        exampleConfig_def tryLLMCategorization_def categorizeWithGemini_def
        categorizeWithOllama_def recordFailure_def newService_def failuresOf_def statsOf_def
        emit_def validateLLMConfig_def Let_def)

section \<open>The keyword provider and the fallback\<close>


lemma keywordMatch_defined:
  "\<exists>c. keywordMatch rt d (Some name) (Some query) = Inr c"
  by (auto simp: keywordMatch_def Let_def split: option.splits prod.splits)
























lemma tryProvider_Keyword:
  "tryProvider rt net cfg Keyword products q s
     = (useKeywordMatching rt (defaultCategory cfg) products q, emit (Tried Keyword) s)"
  by (simp add: tryProvider_def Let_def)

lemma ollama_refused:
  "useOllama exampleRuntime exampleNetwork (exampleConfig True p order) products
             (emit (Tried Ollama) newService)
   = (Inl OllamaNotRunning,
      \<lparr>performanceStats = [], failureCount = [], lastHealthCheck = Some 1700000000000,
       events = [Tried Ollama, CheckedHealth, Posted Ollama 1]\<rparr>)"
  by (simp add: useOllama_def exampleConfig_def checkOllamaHealth_def exampleNetwork_def
        newService_def emit_def checksSent_def postsSent_def isPostOf_def ollamaLoop_numeral
        replyText_def connectionRefused_def Let_def)

lemma chain_after_refusal:
  assumes "useKeywordMatching exampleRuntime [20854, 20182, 21830, 21697] products q
             = Inr categories"
  shows "categorizeSearchResults exampleRuntime exampleNetwork
     (exampleConfig True Auto [Ollama, Keyword]) products q newService
   = (succeeded Keyword categories products,
      \<lparr>performanceStats = [(Ollama, \<lparr>successCount = 0, totalRequests = 1\<rparr>),
                            (Keyword, \<lparr>successCount = 1, totalRequests = 1\<rparr>)],
       failureCount = [(Ollama, 1), (Keyword, 0)],
       lastHealthCheck = Some 1700000000000,
       events = [Tried Ollama, CheckedHealth, Posted Ollama 1, RecordedFailure Ollama,
                 Tried Keyword, RecordedSuccess Keyword]\<rparr>)"
proof -
  have o: "tryProvider exampleRuntime exampleNetwork (exampleConfig True Auto [Ollama, Keyword])
             Ollama products q newService
           = (Inl OllamaNotRunning,
              \<lparr>performanceStats = [], failureCount = [], lastHealthCheck = Some 1700000000000,
               events = [Tried Ollama, CheckedHealth, Posted Ollama 1]\<rparr>)"
    by (simp add: tryProvider_def ollama_refused Let_def)
  have d: "defaultCategory (exampleConfig True Auto [Ollama, Keyword])
             = [20854, 20182, 21830, 21697]"
    by (simp add: exampleConfig_def)
  have ps: "providersOf (exampleConfig True Auto [Ollama, Keyword]) = [Ollama, Keyword]"
    by (simp add: providersOf_def exampleConfig_def)
  show ?thesis
    by (simp add: categorizeSearchResults_def ps o d tryProvider_Keyword assms recordFailure_def
          recordSuccess_def statsOf_def failuresOf_def emit_def Let_def)
qed


lemma keyword_lamp:
  "useKeywordMatching exampleRuntime [20854, 20182, 21830, 21697] [lamp] (Some (js ''lamp''))
     = Inr [\<lparr>c_name = JStr [20854, 20182, 21830, 21697], c_totalProducts = 1,
             c_priceRange = \<lparr>pr_min = 100, pr_max = 100, pr_avg = 100\<rparr>,
             c_platforms = [js ''momo''], c_products = [lamp]\<rparr>]"
  by (simp add: useKeywordMatching_def keywordMatch_def exampleRuntime_def lamp_def
        js_def groupToCategory_def addToGroup_def newGroup_def roundDiv_def Let_def)









section \<open>The order of the providers\<close>

lemma categorizeWithGemini_turn:
  assumes "categorizeWithGemini rt net cfg products s = (r, s')"
  shows "\<exists>tr. list_all (inTurn Gemini) tr
           \<and> ((\<exists>res. r = Inr res) \<and> events s' = events s @ tr @ [RecordedSuccess Gemini]
              \<or> (\<exists>e. r = Inl e) \<and> events s' = events s @ tr @ [RecordedFailure Gemini])"
proof (cases "\<not> gm_enabled (gemini cfg) \<or> gm_apiKey (gemini cfg) = []")
  case True
  with assms have "r = Inl GeminiDisabled" "s' = recordFailure Gemini s"
    by (auto simp: categorizeWithGemini_def)
  then show ?thesis by (intro exI [of _ "[]"]) (simp add: events_recordFailure)
next
  case False
  obtain r1 s1 where u: "useGemini rt net cfg products s = (r1, s1)"
    by (cases "useGemini rt net cfg products s")
  from useGemini_trace [OF u] obtain tr where tr:
    "events s1 = events s @ tr" "list_all (inTurn Gemini) tr" by blast
  show ?thesis
  proof (cases r1)
    case (Inl e)
    with assms False u have "r = Inl (rethrown e)" "s' = recordFailure Gemini s1"
      by (auto simp: categorizeWithGemini_def)
    with tr show ?thesis by (intro exI [of _ tr]) (simp add: events_recordFailure)
  next
    case (Inr categories)
    with assms False u have "r = Inr (succeeded Gemini categories products)"
      "s' = recordSuccess Gemini s1"
      by (auto simp: categorizeWithGemini_def)
    with tr show ?thesis by (intro exI [of _ tr]) (simp add: events_recordSuccess)
  qed
qed

lemma categorizeWithOllama_turn:
  assumes "categorizeWithOllama rt net cfg products s = (r, s')"
  shows "\<exists>tr. list_all (inTurn Ollama) tr
           \<and> ((\<exists>res. r = Inr res) \<and> events s' = events s @ tr @ [RecordedSuccess Ollama]
              \<or> (\<exists>e. r = Inl e) \<and> events s' = events s @ tr @ [RecordedFailure Ollama])"
proof (cases "o_enabled (ollama cfg)")
  case False
  with assms have "r = Inl OllamaDisabled" "s' = recordFailure Ollama s"
    by (auto simp: categorizeWithOllama_def)
  then show ?thesis by (intro exI [of _ "[]"]) (simp add: events_recordFailure)
next
  case True
  obtain r1 s1 where u: "useOllama rt net cfg products s = (r1, s1)"
    by (cases "useOllama rt net cfg products s")
  from useOllama_trace [OF u] obtain tr where tr:
    "events s1 = events s @ tr" "list_all (inTurn Ollama) tr" by blast
  show ?thesis
  proof (cases r1)
    case (Inl e)
    with assms True u have "r = Inl (rethrown e)" "s' = recordFailure Ollama s1"
      by (auto simp: categorizeWithOllama_def)
    with tr show ?thesis by (intro exI [of _ tr]) (simp add: events_recordFailure)
  next
    case (Inr categories)
    with assms True u have "r = Inr (succeeded Ollama categories products)"
      "s' = recordSuccess Ollama s1"
      by (auto simp: categorizeWithOllama_def)
    with tr show ?thesis by (intro exI [of _ tr]) (simp add: events_recordSuccess)
  qed
qed

lemma tryLLMCategorization_trace:
  "\<exists>tg to. list_all (inTurn Gemini) tg \<and> list_all (inTurn Ollama) to
     \<and> (newEvents s (snd (tryLLMCategorization rt net cfg products keyword s))
          = tg @ [RecordedSuccess Gemini]
        \<or> newEvents s (snd (tryLLMCategorization rt net cfg products keyword s))
          = tg @ RecordedFailure Gemini # to @ [RecordedSuccess Ollama]
        \<or> newEvents s (snd (tryLLMCategorization rt net cfg products keyword s))
          = tg @ RecordedFailure Gemini # to @ [RecordedFailure Ollama])"
proof -
  obtain r1 s1 where g: "categorizeWithGemini rt net cfg products s = (r1, s1)"
    by (cases "categorizeWithGemini rt net cfg products s")
  from categorizeWithGemini_turn [OF g] obtain tg where tg:
    "list_all (inTurn Gemini) tg"
    "(\<exists>res. r1 = Inr res) \<and> events s1 = events s @ tg @ [RecordedSuccess Gemini]
       \<or> (\<exists>e. r1 = Inl e) \<and> events s1 = events s @ tg @ [RecordedFailure Gemini]" by blast
  show ?thesis
  proof (cases r1)
    case (Inr res)
    with g have "snd (tryLLMCategorization rt net cfg products keyword s) = s1"
      by (simp add: tryLLMCategorization_def)
    moreover from tg(2) Inr have "events s1 = events s @ tg @ [RecordedSuccess Gemini]" by simp
    ultimately have "newEvents s (snd (tryLLMCategorization rt net cfg products keyword s))
          = tg @ [RecordedSuccess Gemini]"
      by (simp add: newEvents_append)
    with tg(1) show ?thesis by (intro exI [of _ tg] exI [of _ "[]"]) simp
  next
    case (Inl e)
    obtain r2 s2 where o: "categorizeWithOllama rt net cfg products s1 = (r2, s2)"
      by (cases "categorizeWithOllama rt net cfg products s1")
    from categorizeWithOllama_turn [OF o] obtain to where to:
      "list_all (inTurn Ollama) to"
      "(\<exists>res. r2 = Inr res) \<and> events s2 = events s1 @ to @ [RecordedSuccess Ollama]
         \<or> (\<exists>e. r2 = Inl e) \<and> events s2 = events s1 @ to @ [RecordedFailure Ollama]" by blast
    from g Inl o have s2: "snd (tryLLMCategorization rt net cfg products keyword s) = s2"
      by (cases r2) (simp_all add: tryLLMCategorization_def)
    from tg(2) Inl have e1: "events s1 = events s @ tg @ [RecordedFailure Gemini]" by simp
    from to(2) e1 have
      "events s2 = events s @ (tg @ RecordedFailure Gemini # to @ [RecordedSuccess Ollama])
       \<or> events s2 = events s @ (tg @ RecordedFailure Gemini # to @ [RecordedFailure Ollama])"
      by auto
    then have
      "newEvents s s2 = tg @ RecordedFailure Gemini # to @ [RecordedSuccess Ollama]
       \<or> newEvents s s2 = tg @ RecordedFailure Gemini # to @ [RecordedFailure Ollama]"
      using newEvents_append by blast
    with tg(1) to(1) s2 show ?thesis by (intro exI [of _ tg] exI [of _ to]) simp
  qed
qed

lemma tryLLMCategorization_provider:
  assumes "fst (tryLLMCategorization rt net cfg products keyword s) = Inr res"
  shows "cl_provider res = Some Gemini \<or> cl_provider res = Some Ollama"
proof -
  obtain r1 s1 where g: "categorizeWithGemini rt net cfg products s = (r1, s1)"
    by (cases "categorizeWithGemini rt net cfg products s")
  obtain r2 s2 where o: "categorizeWithOllama rt net cfg products s1 = (r2, s2)"
    by (cases "categorizeWithOllama rt net cfg products s1")
  have pg: "cl_provider res1 = Some Gemini" if "r1 = Inr res1" for res1
    using g that
    by (cases "useGemini rt net cfg products s")
       (auto simp: categorizeWithGemini_def succeeded_def split: if_splits sum.splits)
  have po: "cl_provider res2 = Some Ollama" if "r2 = Inr res2" for res2
    using o that
    by (cases "useOllama rt net cfg products s1")
       (auto simp: categorizeWithOllama_def succeeded_def split: if_splits sum.splits)
  from assms g o pg po show ?thesis
    by (auto simp: tryLLMCategorization_def split: sum.splits)
qed

text \<open>
  Claim C4, as the code has it. The events of a call of \<open>categorizeSearchResults\<close>
  are the turns of the configured providers in their order: a provider is tried only
  after the failure of the one before it is recorded, and a recorded success is the
  last event, so that no later provider is called. A turn of Gemini that fails has
  made the attempts 1 to \<open>maxRetries\<close>, unless Gemini is disabled; a turn of Ollama
  that fails has made the attempts 1 to \<open>maxRetries\<close>, unless Ollama is disabled, its
  health check failed, or a connection was refused: the refused request is then the
  last event of the turn, after the attempts 1 to that one.
  \<open>tryLLMCategorization\<close> does not read the configured order: whatever the
  configuration, its events are the requests and delays of Gemini and the record of
  their outcome, followed, after a recorded failure of Gemini only, by those of
  Ollama; a result is that of Gemini or of Ollama, never of the keyword provider.
\<close>

theorem provider_chain_order:
  "chainTrace (providersOf cfg)
      (newEvents s (snd (categorizeSearchResults rt net cfg products q s)))
   \<and> (cl_success (fst (categorizeSearchResults rt net cfg products q s)) \<longrightarrow>
        (\<exists>p front. newEvents s (snd (categorizeSearchResults rt net cfg products q s))
                      = front @ [RecordedSuccess p]
                    \<and> cl_provider (fst (categorizeSearchResults rt net cfg products q s)) = Some p))
   \<and> (fst (useGemini rt net cfg products s) = Inl e \<longrightarrow>
        e = GeminiDisabled \<and> newEvents s (snd (useGemini rt net cfg products s)) = []
        \<or> attemptsOf Gemini (newEvents s (snd (useGemini rt net cfg products s)))
            = [1 ..< 1 + nat (gm_maxRetries (gemini cfg))])
   \<and> (fst (useOllama rt net cfg products s) = Inl e \<longrightarrow>
        e = OllamaDisabled \<and> newEvents s (snd (useOllama rt net cfg products s)) = []
        \<or> e = OllamaHealthCheckFailed
           \<and> attemptsOf Ollama (newEvents s (snd (useOllama rt net cfg products s))) = []
        \<or> (e = OllamaNotRunning
             \<and> (\<exists>m front. m < nat (o_maxRetries (ollama cfg))
                    \<and> newEvents s (snd (useOllama rt net cfg products s))
                        = front @ [Posted Ollama (1 + m)]
                    \<and> attemptsOf Ollama (newEvents s (snd (useOllama rt net cfg products s)))
                        = [1 ..< 1 + m + 1]))
        \<or> attemptsOf Ollama (newEvents s (snd (useOllama rt net cfg products s)))
            = [1 ..< 1 + nat (o_maxRetries (ollama cfg))])
   \<and> (\<exists>tg to. list_all (inTurn Gemini) tg \<and> list_all (inTurn Ollama) to
         \<and> (newEvents s (snd (tryLLMCategorization rt net cfg products keyword s))
              = tg @ [RecordedSuccess Gemini]
            \<or> newEvents s (snd (tryLLMCategorization rt net cfg products keyword s))
              = tg @ RecordedFailure Gemini # to @ [RecordedSuccess Ollama]
            \<or> newEvents s (snd (tryLLMCategorization rt net cfg products keyword s))
              = tg @ RecordedFailure Gemini # to @ [RecordedFailure Ollama]))
   \<and> (fst (tryLLMCategorization rt net cfg products keyword s) = Inr res \<longrightarrow>
        cl_provider res = Some Gemini \<or> cl_provider res = Some Ollama)"
proof -
  from categorize_trace [of rt net cfg products q s] obtain tr where tr:
    "events (snd (categorizeSearchResults rt net cfg products q s)) = events s @ tr"
    "chainTrace (providersOf cfg) tr"
    "cl_success (fst (categorizeSearchResults rt net cfg products q s)) \<longrightarrow>
       (\<exists>p front. tr = front @ [RecordedSuccess p]
          \<and> cl_provider (fst (categorizeSearchResults rt net cfg products q s)) = Some p)"
    by auto
  have a: "chainTrace (providersOf cfg)
      (newEvents s (snd (categorizeSearchResults rt net cfg products q s)))"
    using tr(2) newEvents_append [OF tr(1)] by simp
  have b: "cl_success (fst (categorizeSearchResults rt net cfg products q s)) \<longrightarrow>
        (\<exists>p front. newEvents s (snd (categorizeSearchResults rt net cfg products q s))
                      = front @ [RecordedSuccess p]
                    \<and> cl_provider (fst (categorizeSearchResults rt net cfg products q s)) = Some p)"
    using tr(3) newEvents_append [OF tr(1)] by simp
  have c: "e = GeminiDisabled \<and> newEvents s (snd (useGemini rt net cfg products s)) = []
        \<or> attemptsOf Gemini (newEvents s (snd (useGemini rt net cfg products s)))
            = [1 ..< 1 + nat (gm_maxRetries (gemini cfg))]"
    if h: "fst (useGemini rt net cfg products s) = Inl e"
  proof -
    obtain s' where u: "useGemini rt net cfg products s = (Inl e, s')"
      using h by (cases "useGemini rt net cfg products s") auto
    from useGemini_trace [OF u] obtain tg where tg: "events s' = events s @ tg"
      "e = GeminiDisabled \<and> tg = []
        \<or> attemptsOf Gemini tg = [1 ..< 1 + nat (gm_maxRetries (gemini cfg))]" by auto
    from tg(2) newEvents_append [OF tg(1)] u show ?thesis by simp
  qed
  have d: "e = OllamaDisabled \<and> newEvents s (snd (useOllama rt net cfg products s)) = []
        \<or> e = OllamaHealthCheckFailed
           \<and> attemptsOf Ollama (newEvents s (snd (useOllama rt net cfg products s))) = []
        \<or> (e = OllamaNotRunning
             \<and> (\<exists>m front. m < nat (o_maxRetries (ollama cfg))
                    \<and> newEvents s (snd (useOllama rt net cfg products s))
                        = front @ [Posted Ollama (1 + m)]
                    \<and> attemptsOf Ollama (newEvents s (snd (useOllama rt net cfg products s)))
                        = [1 ..< 1 + m + 1]))
        \<or> attemptsOf Ollama (newEvents s (snd (useOllama rt net cfg products s)))
            = [1 ..< 1 + nat (o_maxRetries (ollama cfg))]"
    if h: "fst (useOllama rt net cfg products s) = Inl e"
  proof -
    obtain s' where u: "useOllama rt net cfg products s = (Inl e, s')"
      using h by (cases "useOllama rt net cfg products s") auto
    from useOllama_trace [OF u] obtain to where to: "events s' = events s @ to"
      "e = OllamaDisabled \<and> to = []
        \<or> e = OllamaHealthCheckFailed \<and> attemptsOf Ollama to = []
        \<or> (e = OllamaNotRunning
             \<and> (\<exists>m front. m < nat (o_maxRetries (ollama cfg))
                    \<and> to = front @ [Posted Ollama (1 + m)]
                    \<and> attemptsOf Ollama to = [1 ..< 1 + m + 1]))
        \<or> attemptsOf Ollama to = [1 ..< 1 + nat (o_maxRetries (ollama cfg))]" by auto
    have "newEvents s (snd (useOllama rt net cfg products s)) = to"
      using newEvents_append [OF to(1)] u by simp
    with to(2) show ?thesis by simp
  qed
  from a b c d tryLLMCategorization_trace [of s rt net cfg products keyword]
       tryLLMCategorization_provider [of rt net cfg products keyword s res]
  show ?thesis by blast
qed

lemma events_newService: "events newService = []"
  by (simp add: newService_def)

lemma gemini_busy:
  "fst (useGemini exampleRuntime busyNetwork (exampleConfig True p order) products newService)
     = Inl (RequestFailed (Some 429) None)"
proof -
  have k: "js ''key'' \<noteq> []" by (simp add: js_def)
  show ?thesis
    by (simp add: useGemini_def exampleConfig_def busyNetwork_def exampleNetwork_def
          geminiLoop_numeral replyText_def k Let_def)
qed

lemma gemini_answers:
  "useGemini exampleRuntime exampleNetwork (exampleConfig True p order) [lamp] newService
     = (Inr [\<lparr>c_name = JStr (js ''A''), c_totalProducts = 1,
              c_priceRange = \<lparr>pr_min = 100, pr_max = 100, pr_avg = 100\<rparr>,
              c_platforms = [js ''momo''], c_products = [lamp]\<rparr>],
        emit (Posted Gemini 1) newService)"
proof -
  have k: "js ''key'' \<noteq> []" by (simp add: js_def)
  show ?thesis
    by (simp add: useGemini_def exampleConfig_def geminiLoop_numeral exampleNetwork_def reply_A
          parse_A k Let_def)
qed

lemma tryLLMCategorization_gemini_first:
  "newEvents newService (snd (tryLLMCategorization exampleRuntime exampleNetwork
       (exampleConfig True p order) [lamp] keyword newService))
     = [Posted Gemini 1, RecordedSuccess Gemini]"
proof -
  have k: "js ''key'' \<noteq> []" by (simp add: js_def)
  have e: "gm_enabled (gemini (exampleConfig True p order))"
          "gm_apiKey (gemini (exampleConfig True p order)) \<noteq> []"
    by (simp_all add: exampleConfig_def k)
  have "snd (tryLLMCategorization exampleRuntime exampleNetwork
               (exampleConfig True p order) [lamp] keyword newService)
          = recordSuccess Gemini (emit (Posted Gemini 1) newService)"
    using e by (simp add: tryLLMCategorization_def categorizeWithGemini_def gemini_answers)
  then show ?thesis
    by (simp add: newEvents_def events_recordSuccess events_emit events_newService)
qed

lemma ollama_refused_fresh:
  "useOllama exampleRuntime exampleNetwork (exampleConfig True p order) products newService
   = (Inl OllamaNotRunning,
      \<lparr>performanceStats = [], failureCount = [], lastHealthCheck = Some 1700000000000,
       events = [CheckedHealth, Posted Ollama 1]\<rparr>)"
  by (simp add: useOllama_def exampleConfig_def checkOllamaHealth_def exampleNetwork_def
        newService_def emit_def checksSent_def postsSent_def isPostOf_def ollamaLoop_numeral
        replyText_def connectionRefused_def Let_def)

theorem provider_chain_order_witness:
  "cl_success (fst (categorizeSearchResults exampleRuntime exampleNetwork
       (exampleConfig True Auto [Ollama, Keyword]) [lamp] (Some (js ''lamp'')) newService))
   \<and> chainTrace [Ollama, Keyword]
       [Tried Ollama, CheckedHealth, Posted Ollama 1, RecordedFailure Ollama,
        Tried Keyword, RecordedSuccess Keyword]
   \<and> cl_provider (fst (categorizeSearchResults exampleRuntime exampleNetwork
       (exampleConfig True Auto [Ollama, Keyword]) [lamp] (Some (js ''lamp'')) newService))
      = Some Keyword
   \<and> fst (useGemini exampleRuntime busyNetwork (exampleConfig True Auto [Ollama, Keyword])
            [lamp] newService) = Inl (RequestFailed (Some 429) None)
   \<and> attemptsOf Gemini (newEvents newService
         (snd (useGemini exampleRuntime busyNetwork (exampleConfig True Auto [Ollama, Keyword])
                 [lamp] newService))) = [1 ..< 4]
   \<and> fst (useOllama exampleRuntime exampleNetwork (exampleConfig True Auto [Ollama, Keyword])
            [lamp] newService) = Inl OllamaNotRunning
   \<and> newEvents newService
         (snd (useOllama exampleRuntime exampleNetwork (exampleConfig True Auto [Ollama, Keyword])
                 [lamp] newService)) = [CheckedHealth, Posted Ollama 1]
   \<and> newEvents newService (snd (tryLLMCategorization exampleRuntime exampleNetwork
         (exampleConfig True Auto [Ollama, Keyword]) [lamp] (js ''lamp'') newService))
       = [Posted Gemini 1, RecordedSuccess Gemini]
   \<and> map_sum id cl_provider (fst (tryLLMCategorization exampleRuntime exampleNetwork
         (exampleConfig True Auto [Ollama, Keyword]) [lamp] (js ''lamp'') newService))
       = Inr (Some Gemini)"
proof -
  let ?cfg = "exampleConfig True Auto [Ollama, Keyword]"
  let ?answer = "succeeded Gemini
           [\<lparr>c_name = JStr (js ''A''), c_totalProducts = 1,
              c_priceRange = \<lparr>pr_min = 100, pr_max = 100, pr_avg = 100\<rparr>,
              c_platforms = [js ''momo''], c_products = [lamp]\<rparr>] [lamp]"
  have an: "fst (tryLLMCategorization exampleRuntime exampleNetwork ?cfg [lamp] (js ''lamp'')
                  newService) = Inr ?answer"
  proof -
    have e: "gm_enabled (gemini ?cfg)" "gm_apiKey (gemini ?cfg) \<noteq> []"
      by (simp_all add: exampleConfig_def js_def)
    show ?thesis using tryLLMCategorization_gemini [OF gemini_A e] .
  qed
  have pr: "cl_provider ?answer = Some Gemini" by (simp add: succeeded_def)
  have re: "fst (useOllama exampleRuntime exampleNetwork ?cfg [lamp] newService)
              = Inl OllamaNotRunning"
           "newEvents newService (snd (useOllama exampleRuntime exampleNetwork ?cfg [lamp]
              newService)) = [CheckedHealth, Posted Ollama 1]"
    by (simp_all add: ollama_refused_fresh newEvents_def events_newService)
  have ev: "newEvents newService (snd (categorizeSearchResults exampleRuntime exampleNetwork
              ?cfg [lamp] (Some (js ''lamp'')) newService))
            = [Tried Ollama, CheckedHealth, Posted Ollama 1, RecordedFailure Ollama,
               Tried Keyword, RecordedSuccess Keyword]"
    by (simp add: chain_after_refusal [OF keyword_lamp] newEvents_def events_newService)
  have su: "cl_success (fst (categorizeSearchResults exampleRuntime exampleNetwork
              ?cfg [lamp] (Some (js ''lamp'')) newService))"
       "cl_provider (fst (categorizeSearchResults exampleRuntime exampleNetwork
              ?cfg [lamp] (Some (js ''lamp'')) newService)) = Some Keyword"
    by (simp_all add: chain_after_refusal [OF keyword_lamp] succeeded_def)
  have ps: "providersOf ?cfg = [Ollama, Keyword]" "nat (gm_maxRetries (gemini ?cfg)) = 3"
    by (simp_all add: providersOf_def exampleConfig_def)
  show ?thesis
    using provider_chain_order [where cfg = ?cfg and rt = exampleRuntime
            and net = exampleNetwork and products = "[lamp]" and q = "Some (js ''lamp'')"
            and keyword = "js ''lamp''"
            and s = newService and e = "RequestFailed (Some 429) None" and res = ?answer]
          provider_chain_order [where cfg = ?cfg and rt = exampleRuntime
            and net = busyNetwork and products = "[lamp]" and q = "Some (js ''lamp'')"
            and keyword = "js ''lamp''"
            and s = newService and e = "RequestFailed (Some 429) None" and res = ?answer]
          provider_chain_order [where cfg = ?cfg and rt = exampleRuntime
            and net = exampleNetwork and products = "[lamp]" and q = "Some (js ''lamp'')"
            and keyword = "js ''lamp''"
            and s = newService and e = OllamaNotRunning and res = ?answer]
          gemini_busy [of Auto "[Ollama, Keyword]" "[lamp]"] ev su ps re an pr
          tryLLMCategorization_gemini_first [of Auto "[Ollama, Keyword]" "js ''lamp''"]
    by simp
qed

text \<open>Claim C4 as stated fails where a turn ends early: Ollama is enabled with three
  attempts, its first request is refused, and the keyword provider is called after
  that single attempt. It also fails for the order in \<open>tryLLMCategorization\<close>: with
  Ollama configured before Gemini, the first request goes to Gemini, whose answer
  ends the call.\<close>

theorem next_provider_before_retries_exhausted:
  "newEvents newService (snd (categorizeSearchResults exampleRuntime exampleNetwork
       (exampleConfig True Auto [Ollama, Keyword]) [lamp] (Some (js ''lamp'')) newService))
     = [Tried Ollama, CheckedHealth, Posted Ollama 1, RecordedFailure Ollama,
        Tried Keyword, RecordedSuccess Keyword]
   \<and> o_maxRetries (ollama (exampleConfig True Auto [Ollama, Keyword])) = 3
   \<and> providersOf (exampleConfig True Auto [Ollama, Gemini, Keyword]) = [Ollama, Gemini, Keyword]
   \<and> newEvents newService (snd (tryLLMCategorization exampleRuntime exampleNetwork
         (exampleConfig True Auto [Ollama, Gemini, Keyword]) [lamp] (js ''lamp'') newService))
       = [Posted Gemini 1, RecordedSuccess Gemini]"
proof -
  have "o_maxRetries (ollama (exampleConfig True Auto [Ollama, Keyword])) = 3"
       "providersOf (exampleConfig True Auto [Ollama, Gemini, Keyword]) = [Ollama, Gemini, Keyword]"
    by (simp_all add: exampleConfig_def providersOf_def)
  moreover have "newEvents newService (snd (categorizeSearchResults exampleRuntime
       exampleNetwork (exampleConfig True Auto [Ollama, Keyword]) [lamp] (Some (js ''lamp''))
       newService))
     = [Tried Ollama, CheckedHealth, Posted Ollama 1, RecordedFailure Ollama,
        Tried Keyword, RecordedSuccess Keyword]"
    by (simp add: chain_after_refusal [OF keyword_lamp] newEvents_def events_newService)
  ultimately show ?thesis
    by (simp add: tryLLMCategorization_gemini_first)
qed

end
